(* ===== verification/Prelude.thy ===== *)
theory Prelude
  imports Main "HOL-Library.Sublist" "HOL-Library.AList"
begin

text \<open>
  Shared vocabulary of the development: the error type of the JavaScript run time as the
  program meets it, sequencing of computations that may throw (\<open>js_error + 'a\<close>, the
  error on the left), the \<open>Promise.all\<close>/\<open>flatMap\<close> traversal that stops at the first
  thrown error, and the generic lemmas on lists and substrings that the string models of
  \<open>JS_Builtins\<close> and the components share.
\<close>

named_theorems js_eval "rules that evaluate the models on concrete strings"
named_theorems err_simps "rules that push the error-sequencing combinators through"

type_synonym path = string

subsection \<open>Errors of the JavaScript run time\<close>

text \<open>
  One constructor per way the program can fail: a \<open>TypeError\<close> thrown by an access to
  \<open>undefined\<close> or \<open>null\<close> (its message as the engine prints it), a failed read or write of
  a file (the path), a \<open>JSON.parse\<close> failure (the path of the file), a \<open>readdirSync\<close> on a
  path that is not a directory, and an external command that exits with an error.
\<close>

datatype js_error =
    TypeError string
  | ReadError path
  | WriteError path
  | ParseError path
  | NotADirectory path
  | CommandFailed string

subsection \<open>Sequencing computations that may throw\<close>

definition ebind :: "'e + 'a \<Rightarrow> ('a \<Rightarrow> 'e + 'b) \<Rightarrow> 'e + 'b" where
  "ebind m f = (case m of Inl e \<Rightarrow> Inl e | Inr a \<Rightarrow> f a)"

lemma ebind_Inl [simp, err_simps]: "ebind (Inl e) f = Inl e"
  and ebind_Inr [simp, err_simps]: "ebind (Inr a) f = f a"
  by (simp_all add: ebind_def)

lemma ebind_eq_Inr [err_simps]: "ebind m f = Inr b \<longleftrightarrow> (\<exists>a. m = Inr a \<and> f a = Inr b)"
  by (cases m) simp_all

text \<open>
  \<open>traverse f xs\<close> applies \<open>f\<close> to the elements in order and stops at the first error:
  the shape of \<open>xs.map(f)\<close> and \<open>xs.flatMap(f)\<close> when \<open>f\<close> may throw, and of the
  result of \<open>Promise.all\<close>, whose array is in the order of its input.
\<close>

fun traverse :: "('a \<Rightarrow> 'e + 'b) \<Rightarrow> 'a list \<Rightarrow> 'e + 'b list" where
  "traverse f [] = Inr []"
| "traverse f (x # xs) = ebind (f x) (\<lambda>y. ebind (traverse f xs) (\<lambda>ys. Inr (y # ys)))"

lemma traverse_Inr_iff [err_simps]:
  "traverse f xs = Inr ys \<longleftrightarrow> list_all2 (\<lambda>x y. f x = Inr y) xs ys"
proof (induction xs arbitrary: ys)
  case Nil
  then show ?case by auto
next
  case (Cons x xs)
  show ?case
    by (auto simp: ebind_eq_Inr Cons.IH list_all2_Cons1)
qed

lemma traverse_Inr_map [err_simps]: "traverse (\<lambda>x. Inr (g x)) xs = Inr (map g xs)"
  by (induction xs) simp_all

lemma traverse_ok: "\<forall>x \<in> set xs. \<exists>y. f x = Inr y \<Longrightarrow> \<exists>ys. traverse f xs = Inr ys"
  by (induction xs) auto

lemma traverse_Inr_length: "traverse f xs = Inr ys \<Longrightarrow> length ys = length xs"
  by (simp add: traverse_Inr_iff list_all2_lengthD)

lemma traverse_Inr_nth:
  "traverse f xs = Inr ys \<Longrightarrow> i < length xs \<Longrightarrow> f (xs ! i) = Inr (ys ! i)"
  by (simp add: traverse_Inr_iff list_all2_conv_all_nth)

lemma traverse_Inl_ex: "traverse f xs = Inl e \<Longrightarrow> \<exists>x \<in> set xs. f x = Inl e"
  by (induction xs) (auto simp: ebind_def split: sum.splits)

lemma traverse_Inl_same_error:
  assumes "\<forall>x \<in> set xs. \<forall>e. f x = Inl e \<longrightarrow> e = e0"
  shows "traverse f xs = Inl e \<longleftrightarrow> e = e0 \<and> (\<exists>x \<in> set xs. f x = Inl e0)"
  using assms
proof (induction xs)
  case Nil
  then show ?case by simp
next
  case (Cons x xs)
  then have IH: "traverse f xs = Inl e \<longleftrightarrow> e = e0 \<and> (\<exists>x \<in> set xs. f x = Inl e0)" by simp
  show ?case
  proof (cases "f x")
    case (Inl e1)
    with Cons.prems have "e1 = e0" by simp
    with Inl show ?thesis by auto
  next
    case (Inr y)
    then show ?thesis
      by (cases "traverse f xs") (use IH in \<open>auto simp: ebind_def\<close>)
  qed
qed

lemma traverse_Inl_first:
  "f x = Inl e \<Longrightarrow> (\<forall>y \<in> set pre. \<exists>z. f y = Inr z) \<Longrightarrow> traverse f (pre @ x # post) = Inl e"
  by (induction pre) (auto simp: ebind_def split: sum.splits)

lemma traverse_Inl_if_some_fails:
  "x \<in> set xs \<Longrightarrow> f x = Inl e \<Longrightarrow> \<exists>e'. traverse f xs = Inl e'"
  by (induction xs) (auto simp: ebind_def split: sum.splits)

subsection \<open>Substrings and separators\<close>

text \<open>\<open>join_with sep ps\<close> puts \<open>sep\<close> between consecutive pieces (\<open>ps.join(sep)\<close>).\<close>

fun join_with :: "'a list \<Rightarrow> 'a list list \<Rightarrow> 'a list" where
  "join_with sep [] = []"
| "join_with sep [p] = p"
| "join_with sep (p # q # ps) = p @ sep @ join_with sep (q # ps)"

lemma join_with_Cons: "ps \<noteq> [] \<Longrightarrow> join_with sep (p # ps) = p @ sep @ join_with sep ps"
  by (cases ps) simp_all

text \<open>
  A separator \<open>sep\<close> that starts inside \<open>x\<close> and is not a substring of
  \<open>x @ butlast sep\<close> cannot begin before the end of \<open>x\<close>: the fact behind every
  splitting lemma (a match starting at a position of \<open>x\<close> ends before the last character
  of the \<open>sep\<close> that follows).
\<close>

lemma prefix_of_longer_prefix:
  "length us < length sep \<Longrightarrow> prefix us (sep @ b) \<Longrightarrow> prefix us sep"
  by (metis prefix_append prefix_length_prefix prefix_order.refl less_imp_le_nat)

lemma sublist_append_butlast_prefix:
  assumes "prefix sep (x @ sep @ b)" and "x \<noteq> []"
  shows "sublist sep (x @ butlast sep)"
proof -
  have "prefix sep x \<or> (\<exists>us. sep = x @ us \<and> prefix us (sep @ b))"
    using assms(1) by (simp add: prefix_append)
  then show ?thesis
  proof
    assume "prefix sep x"
    then show ?thesis by (auto simp: prefix_def)
  next
    assume "\<exists>us. sep = x @ us \<and> prefix us (sep @ b)"
    then obtain us where us: "sep = x @ us" "prefix us (sep @ b)" by blast
    have "length us < length sep" using us(1) assms(2) by simp
    then have "prefix us sep" using us(2) by (rule prefix_of_longer_prefix)
    then obtain zs where zs: "sep = us @ zs" by (auto simp: prefix_def)
    with \<open>length us < length sep\<close> have "zs \<noteq> []" by auto
    with zs us(1) have "x @ butlast sep = sep @ butlast zs"
      by (simp add: butlast_append)
    then show ?thesis by simp
  qed
qed

lemma sublist_butlast_Cons:
  "sublist sep (a @ butlast sep) \<Longrightarrow> sublist sep ((c # a) @ butlast sep)"
  by (metis Cons_eq_appendI sublist_Cons_right)

lemma sublist_mono_butlast: "sublist sep a \<Longrightarrow> sublist sep (a @ butlast sep)"
  by (metis sublist_order.order.trans sublist_append_rightI)


subsection \<open>Duplicates\<close>

lemma remdups_append_filter:
  "remdups (xs @ ys) = remdups (filter (\<lambda>x. x \<notin> set ys) xs) @ remdups ys"
  by (induction xs) auto


lemma distinct_count_list_1: "distinct xs \<Longrightarrow> x \<in> set xs \<Longrightarrow> count_list xs x = 1"
  by (induction xs) (auto simp: count_list_0_iff)

subsection \<open>First match in a list of association lists\<close>

lemma map_of_concat_first:
  "i < length xss \<Longrightarrow> \<forall>j < i. map_of (xss ! j) k = None \<Longrightarrow> map_of (xss ! i) k = Some v \<Longrightarrow>
   map_of (concat xss) k = Some v"
proof (induction xss arbitrary: i)
  case Nil
  then show ?case by simp
next
  case (Cons xs xss)
  show ?case
  proof (cases i)
    case 0
    with Cons.prems show ?thesis by (simp add: map_of_append)
  next
    case (Suc i')
    with Cons.prems have "map_of xs k = None" by fastforce
    moreover have "map_of (concat xss) k = Some v"
      using Cons.IH [of i'] Cons.prems Suc by fastforce
    ultimately show ?thesis by (simp add: map_of_append map_add_def)
  qed
qed


subsection \<open>Association lists with distinct keys\<close>

lemma map_fst_filter_key: "map fst (filter (\<lambda>p. P (fst p)) xs) = filter P (map fst xs)"
  by (induction xs) auto

lemma map_of_filter_key: "map_of (filter (\<lambda>p. fst p \<noteq> k) xs) = (map_of xs)(k := None)"
  by (induction xs) (auto simp: fun_eq_iff)

text \<open>An association list with distinct keys is determined by its keys in order and its
  lookup.\<close>

lemma alist_eqI:
  "distinct (map fst xs) \<Longrightarrow> map fst xs = map fst ys \<Longrightarrow> map_of xs = map_of ys \<Longrightarrow> xs = ys"
proof (induction xs arbitrary: ys)
  case Nil
  then show ?case by simp
next
  case (Cons p xs)
  obtain k v where p: "p = (k, v)" by fastforce
  from Cons.prems(2) p obtain v' ys' where ys: "ys = (k, v') # ys'" by (cases ys) auto
  have v: "v' = v" using fun_cong [OF Cons.prems(3), of k] p ys by simp
  have "map_of xs = map_of ys'"
  proof
    fix k'
    show "map_of xs k' = map_of ys' k'"
    proof (cases "k' = k")
      case True
      have "fst ` set ys' = fst ` set xs"
        using Cons.prems(2) p ys by (metis list.inject list.simps(9) set_map)
      with True have a: "k' \<notin> fst ` set xs" and b: "k' \<notin> fst ` set ys'"
        using Cons.prems(1) p by auto
      from a have "map_of xs k' = None" by (metis map_of_eq_None_iff)
      moreover from b have "map_of ys' k' = None" by (metis map_of_eq_None_iff)
      ultimately show ?thesis by simp
    next
      case False
      then show ?thesis using fun_cong [OF Cons.prems(3), of k'] p ys by simp
    qed
  qed
  with Cons.IH [of ys'] Cons.prems(1,2) p ys v show ?case by simp
qed

lemma sublist_singleton: "sublist [c] s \<longleftrightarrow> c \<in> set s"
  by (induction s) (auto simp: sublist_Cons_right)

end
