(* ===== verification/JS_Builtins.thy ===== *)
theory JS_Builtins
  imports Prelude
begin

text \<open>
  Models of the ECMAScript built-ins that \<open>src/main.js\<close> calls, as the language
  specifies them: \<open>String.prototype.split\<close> with a string separator, reading an array
  element by index (\<open>undefined\<close> out of range), the text \<open>undefined\<close> that a template
  literal prints for a missing value, \<open>String.prototype.includes\<close>,
  \<open>Array.prototype.find\<close>, the insertion-ordered \<open>Set\<close> spread back into an array,
  JSON values with \<open>Object.keys\<close>, property assignment and object spread, and
  \<open>JSON.stringify\<close> with an indentation. Strings are \<open>char\<close> lists (one \<open>char\<close> per
  UTF-16 code unit of the ASCII texts the program handles).
\<close>

subsection \<open>\<open>String.prototype.split\<close>\<close>

text \<open>
  \<open>s.split(sep)\<close> with a non-empty separator scans \<open>s\<close> from the left; at each
  position where \<open>sep\<close> starts, it closes the current piece and continues after the
  match (matches do not overlap); the rest after the last match is the last piece, so
  the result is never empty (\<open>"".split("x")\<close> is \<open>[""]\<close>). With the empty separator
  the string is cut into its characters.
\<close>

fun cons_first :: "'a \<Rightarrow> 'a list list \<Rightarrow> 'a list list" where
  "cons_first c [] = [[c]]"
| "cons_first c (p # ps) = (c # p) # ps"

function js_split_ne :: "string \<Rightarrow> string \<Rightarrow> string list" where
  "js_split_ne sep [] = [[]]"
| "js_split_ne sep (c # cs) =
     (if sep \<noteq> [] \<and> prefix sep (c # cs)
      then [] # js_split_ne sep (drop (length sep) (c # cs))
      else cons_first c (js_split_ne sep cs))"
  by pat_completeness auto
termination
  by (relation "measure (\<lambda>(sep, s). length s)") auto

definition js_split :: "string \<Rightarrow> string \<Rightarrow> string list" where
  "js_split sep s = (if sep = [] then map (\<lambda>c. [c]) s else js_split_ne sep s)"

lemma cons_first_not_Nil [simp]: "cons_first c ps \<noteq> []"
  by (cases ps) simp_all

lemma js_split_ne_not_Nil [simp]: "js_split_ne sep s \<noteq> []"
  by (cases s) simp_all

lemma cons_first_hd: "ps \<noteq> [] \<Longrightarrow> cons_first c ps = (c # hd ps) # tl ps"
  by (cases ps) simp_all

lemma join_with_cons_first:
  "ps \<noteq> [] \<Longrightarrow> join_with sep (cons_first c ps) = c # join_with sep ps"
  by (cases ps; cases "tl ps") simp_all

text \<open>Joining the pieces with the separator gives the string back.\<close>

lemma join_with_js_split_ne:
  "sep \<noteq> [] \<Longrightarrow> join_with sep (js_split_ne sep s) = s"
proof (induction sep s rule: js_split_ne.induct)
  case (1 sep)
  then show ?case by simp
next
  case (2 sep c cs)
  show ?case
  proof (cases "prefix sep (c # cs)")
    case True
    then have "c # cs = sep @ drop (length sep) (c # cs)"
      by (auto simp: prefix_def)
    with True 2 show ?thesis
      by (cases "js_split_ne sep (drop (length sep) (c # cs))")
         (simp_all add: join_with_Cons)
  next
    case False
    with 2 show ?thesis by (simp add: join_with_cons_first)
  qed
qed

text \<open>The first piece is a prefix of the string; no piece contains the separator.\<close>

lemma js_split_ne_hd_prefix: "prefix (hd (js_split_ne sep s)) s"
  by (induction sep s rule: js_split_ne.induct) (auto simp: cons_first_hd)

lemma js_split_ne_no_sep:
  "sep \<noteq> [] \<Longrightarrow> p \<in> set (js_split_ne sep s) \<Longrightarrow> \<not> sublist sep p"
proof (induction sep s arbitrary: p rule: js_split_ne.induct)
  case (1 sep)
  then show ?case by simp
next
  case (2 sep c cs)
  show ?case
  proof (cases "prefix sep (c # cs)")
    case True
    let ?rest = "js_split_ne sep (drop (length sep) (c # cs))"
    from True 2 have "p = [] \<or> p \<in> set ?rest" by simp
    moreover have "p \<in> set ?rest \<Longrightarrow> \<not> sublist sep p"
      using True 2 by blast
    ultimately show ?thesis using 2 by auto
  next
    case False
    let ?ps = "js_split_ne sep cs"
    have ps: "?ps \<noteq> []" by simp
    from False 2 have "p \<in> set (cons_first c ?ps)" by simp
    with ps have p: "p = c # hd ?ps \<or> p \<in> set (tl ?ps)"
      by (cases ?ps) auto
    have IH: "q \<in> set ?ps \<Longrightarrow> \<not> sublist sep q" for q
      using False 2 by blast
    have "\<not> sublist sep (c # hd ?ps)"
    proof
      assume "sublist sep (c # hd ?ps)"
      then have "prefix sep (c # hd ?ps) \<or> sublist sep (hd ?ps)"
        by (simp add: sublist_Cons_right)
      moreover have "prefix (c # hd ?ps) (c # cs)"
        using js_split_ne_hd_prefix by simp
      moreover have "\<not> sublist sep (hd ?ps)"
        using IH ps by simp
      ultimately show False
        using False prefix_order.trans by blast
    qed
    moreover have "p \<in> set (tl ?ps) \<Longrightarrow> \<not> sublist sep p"
      using IH ps by (simp add: list.set_sel(2))
    ultimately show ?thesis using p by blast
  qed
qed

text \<open>
  Splitting at a leading occurrence: when \<open>sep\<close> does not start anywhere inside
  \<open>a\<close> (that is, it is not a substring of \<open>a @ butlast sep\<close>), the first piece of
  \<open>a @ sep @ b\<close> is \<open>a\<close>, and the rest is the split of \<open>b\<close>.
\<close>

lemma js_split_ne_no_match:
  "\<not> sublist sep s \<Longrightarrow> js_split_ne sep s = [s]"
proof (induction s)
  case Nil
  then show ?case by simp
next
  case (Cons c cs)
  then have "\<not> prefix sep (c # cs)" and "\<not> sublist sep cs"
    by (auto simp: sublist_Cons_right)
  with Cons.IH show ?case by simp
qed

lemma js_split_ne_match:
  "sep \<noteq> [] \<Longrightarrow> prefix sep (c # cs) \<Longrightarrow>
   js_split_ne sep (c # cs) = [] # js_split_ne sep (drop (length sep) (c # cs))"
  by simp

lemma js_split_ne_nomatch:
  "\<not> prefix sep (c # cs) \<Longrightarrow> js_split_ne sep (c # cs) = cons_first c (js_split_ne sep cs)"
  by simp

declare js_split_ne.simps(2) [simp del]

lemma js_split_ne_sep_first:
  assumes "sep \<noteq> []"
  shows "js_split_ne sep (sep @ b) = [] # js_split_ne sep b"
proof -
  from assms obtain c cs where sep: "sep = c # cs" by (cases sep) auto
  have "prefix sep (c # cs @ b)" using sep by simp
  with assms have "js_split_ne sep (c # cs @ b) = [] # js_split_ne sep (drop (length sep) (c # cs @ b))"
    by (rule js_split_ne_match)
  with sep show ?thesis by simp
qed

lemma js_split_ne_append_sep:
  "sep \<noteq> [] \<Longrightarrow> \<not> sublist sep (a @ butlast sep) \<Longrightarrow>
   js_split_ne sep (a @ sep @ b) = a # js_split_ne sep b"
proof (induction a)
  case Nil
  then show ?case by (simp add: js_split_ne_sep_first)
next
  case (Cons c a)
  have "\<not> prefix sep ((c # a) @ sep @ b)"
  proof
    assume "prefix sep ((c # a) @ sep @ b)"
    then have "sublist sep ((c # a) @ butlast sep)"
      by (rule sublist_append_butlast_prefix) simp
    with Cons.prems(2) show False by simp
  qed
  then have "js_split_ne sep (c # a @ sep @ b) = cons_first c (js_split_ne sep (a @ sep @ b))"
    by (simp add: js_split_ne_nomatch)
  moreover have "\<not> sublist sep (a @ butlast sep)"
  proof
    assume "sublist sep (a @ butlast sep)"
    then have "sublist sep ((c # a) @ butlast sep)" by (rule sublist_butlast_Cons)
    with Cons.prems(2) show False by simp
  qed
  then have "js_split_ne sep (a @ sep @ b) = a # js_split_ne sep b"
    using Cons.IH Cons.prems(1) by blast
  ultimately show ?case by simp
qed


text \<open>The same facts for \<open>js_split\<close> at a non-empty separator.\<close>

lemma js_split_ne_sep: "sep \<noteq> [] \<Longrightarrow> js_split sep s = js_split_ne sep s"
  by (simp add: js_split_def)

lemma js_split_not_Nil: "sep \<noteq> [] \<Longrightarrow> js_split sep s \<noteq> []"
  by (simp add: js_split_def)

lemma join_with_js_split: "sep \<noteq> [] \<Longrightarrow> join_with sep (js_split sep s) = s"
  by (simp add: js_split_def join_with_js_split_ne)

lemma js_split_no_sep: "sep \<noteq> [] \<Longrightarrow> p \<in> set (js_split sep s) \<Longrightarrow> \<not> sublist sep p"
  by (simp add: js_split_def js_split_ne_no_sep)

lemma js_split_no_match: "sep \<noteq> [] \<Longrightarrow> \<not> sublist sep s \<Longrightarrow> js_split sep s = [s]"
  by (simp add: js_split_def js_split_ne_no_match)

lemma js_split_append_sep:
  "sep \<noteq> [] \<Longrightarrow> \<not> sublist sep (a @ butlast sep) \<Longrightarrow>
   js_split sep (a @ sep @ b) = a # js_split sep b"
  by (simp add: js_split_def js_split_ne_append_sep)

lemma js_split_char_sep:
  "d \<notin> set a \<Longrightarrow> js_split [d] (a @ d # b) = a # js_split [d] b"
  using js_split_append_sep [of "[d]" a b] by (simp add: sublist_singleton)

lemma cons_first_append: "xs \<noteq> [] \<Longrightarrow> cons_first c (xs @ ys) = cons_first c xs @ ys"
  by (cases xs) simp_all

text \<open>At a one-character separator, splitting distributes over an occurrence.\<close>

lemma js_split_char_append:
  "js_split [d] (a @ d # b) = js_split [d] a @ js_split [d] b"
proof (induction a)
  case Nil
  show ?case by (simp add: js_split_def js_split_ne_match)
next
  case (Cons c a)
  show ?case
  proof (cases "c = d")
    case True
    then show ?thesis using Cons by (simp add: js_split_def js_split_ne_match)
  next
    case False
    then have "\<not> prefix [d] (c # a @ d # b)" and "\<not> prefix [d] (c # a)" by auto
    then show ?thesis
      using Cons by (simp add: js_split_def js_split_ne_nomatch cons_first_append)
  qed
qed

lemma js_split_char_append_nosep:
  "d \<notin> set b \<Longrightarrow> js_split [d] (a @ b) = butlast (js_split [d] a) @ [last (js_split [d] a) @ b]"
proof (induction a rule: length_induct)
  case (1 a)
  show ?case
  proof (cases "d \<in> set a")
    case True
    then obtain a1 a2 where a: "a = a1 @ d # a2" and d1: "d \<notin> set a1" by (blast dest: split_list_first)
    have "length a2 < length a" using a by simp
    then have ih: "js_split [d] (a2 @ b) = butlast (js_split [d] a2) @ [last (js_split [d] a2) @ b]"
      using 1 by blast
    have ne: "js_split [d] a2 \<noteq> []" by (simp add: js_split_not_Nil)
    have "js_split [d] (a @ b) = a1 # js_split [d] (a2 @ b)" using a d1 by (simp add: js_split_char_sep)
    moreover have "js_split [d] a = a1 # js_split [d] a2" using a d1 by (simp add: js_split_char_sep)
    ultimately show ?thesis using ih ne by simp
  next
    case False
    then have "js_split [d] a = [a]" "js_split [d] (a @ b) = [a @ b]"
      using 1(2) by (simp_all add: js_split_no_match sublist_singleton)
    then show ?thesis by simp
  qed
qed

lemma js_split_lines:
  "\<forall>p \<in> set ps. d \<notin> set p \<Longrightarrow> js_split [d] (concat (map (\<lambda>c. c @ [d]) ps) @ s) = ps @ js_split [d] s"
  by (induction ps) (simp_all add: js_split_char_sep)

lemma foldl_append_lines: "foldl (\<lambda>res c. res @ c @ sep) acc ps = acc @ concat (map (\<lambda>c. c @ sep) ps)"
  by (induction ps arbitrary: acc) simp_all


text \<open>
  Splitting a joined list gives the pieces back when no piece lets the separator start
  inside it: the inverse direction of \<open>join_with_js_split\<close>.
\<close>

lemma js_split_join_with:
  "sep \<noteq> [] \<Longrightarrow> ps \<noteq> [] \<Longrightarrow> \<forall>p \<in> set ps. \<not> sublist sep (p @ butlast sep) \<Longrightarrow>
   js_split sep (join_with sep ps) = ps"
proof (induction sep ps rule: join_with.induct)
  case (2 sep p)
  then show ?case by (metis js_split_no_match sublist_mono_butlast join_with.simps(2) list.set_intros(1))
next
  case (3 sep p q ps)
  then show ?case by (simp add: js_split_append_sep)
qed simp

text \<open>At a one-character separator: the number of pieces, and texts without a double separator.\<close>

lemma js_split_char_length: "length (js_split [d] s) = count_list s d + 1"
proof (induction s rule: length_induct)
  case (1 s)
  show ?case
  proof (cases "d \<in> set s")
    case True
    then obtain a b where s: "s = a @ d # b" and a: "d \<notin> set a" by (blast dest: split_list_first)
    then have "length b < length s" by simp
    with 1 have "length (js_split [d] b) = count_list b d + 1" by blast
    moreover have "count_list a d = 0" using a by (simp add: count_list_0_iff)
    ultimately show ?thesis using s a by (simp add: js_split_char_sep)
  next
    case False
    then show ?thesis by (simp add: js_split_no_match sublist_singleton count_list_0_iff)
  qed
qed

lemma sublist_double_sep_Cons:
  "d \<notin> set p \<Longrightarrow> sublist [d, d] (p @ d # c # r) \<longleftrightarrow> c = d \<or> sublist [d, d] (c # r)"
  by (induction p) (auto simp: sublist_Cons_right)

lemma no_double_sep_join_with:
  "\<forall>p \<in> set ps. p \<noteq> [] \<and> d \<notin> set p \<Longrightarrow> \<not> sublist [d, d] (join_with [d] ps)"
proof (induction "[d]" ps rule: join_with.induct)
  case 1
  then show ?case by simp
next
  case (2 p)
  then show ?case by (auto dest: set_mono_sublist)
next
  case (3 p q ps)
  obtain a l where q: "q = a # l" and a: "a \<noteq> d" using "3.prems" by (cases q) auto
  have "\<exists>r. join_with [d] (q # ps) = a # r" by (cases ps) (simp_all add: q)
  then obtain r where qr: "join_with [d] (q # ps) = a # r" by blast
  define c where "c = a"
  with qr a have qr: "join_with [d] (q # ps) = c # r" and c: "c \<noteq> d" by simp_all
  have "\<not> sublist [d, d] (c # r)" using 3 qr by simp
  with c qr "3.prems" show ?case by (simp add: sublist_double_sep_Cons)
qed

subsection \<open>Array elements and \<open>undefined\<close>\<close>

text \<open>
  \<open>a[i]\<close> is the element at \<open>i\<close> when \<open>0 \<le> i < a.length\<close> and \<open>undefined\<close>
  (\<open>None\<close>) otherwise, negative indices included. A template literal prints
  \<open>undefined\<close> as the nine characters \<open>undefined\<close>.
\<close>

definition js_nth :: "'a list \<Rightarrow> int \<Rightarrow> 'a option" where
  "js_nth xs i = (if 0 \<le> i \<and> i < int (length xs) then Some (xs ! nat i) else None)"

definition js_str :: "string option \<Rightarrow> string" where
  "js_str v = (case v of None \<Rightarrow> ''undefined'' | Some s \<Rightarrow> s)"

lemma js_str_simps [simp]: "js_str None = ''undefined''" "js_str (Some s) = s"
  by (simp_all add: js_str_def)

lemma js_nth_0 [simp]: "js_nth (x # xs) 0 = Some x"
  and js_nth_1 [simp]: "js_nth (x # y # ys) 1 = Some y"
  and js_nth_1_single [simp]: "js_nth [x] 1 = None"
  and js_nth_neg: "i < 0 \<Longrightarrow> js_nth xs i = None"
  by (simp_all add: js_nth_def)

lemma js_nth_Some_iff:
  "js_nth xs i = Some v \<longleftrightarrow> 0 \<le> i \<and> i < int (length xs) \<and> xs ! nat i = v"
  by (auto simp: js_nth_def)

subsection \<open>\<open>[...new Set(xs)]\<close>\<close>

text \<open>
  A \<open>Set\<close> built from an array adds the elements in order, skipping those already
  present (SameValueZero, which is HOL equality on strings), and iterates in insertion
  order; spreading it gives the array of first occurrences.
\<close>

fun js_set_add_all :: "'a list \<Rightarrow> 'a list \<Rightarrow> 'a list" where
  "js_set_add_all acc [] = acc"
| "js_set_add_all acc (x # xs) = js_set_add_all (if x \<in> set acc then acc else acc @ [x]) xs"

definition js_set_values :: "'a list \<Rightarrow> 'a list" where
  "js_set_values xs = js_set_add_all [] xs"

text \<open>
  The reference meaning: keep each element at its first occurrence, which is the
  library's \<open>remdups\<close> (that keeps last occurrences) taken on the reversed list.
\<close>

lemma js_set_add_all_eq:
  "distinct acc \<Longrightarrow> js_set_add_all acc xs = rev (remdups (rev (acc @ xs)))"
proof (induction xs arbitrary: acc)
  case Nil
  then show ?case by (simp add: distinct_remdups_id)
next
  case (Cons x xs)
  show ?case
  proof (cases "x \<in> set acc")
    case True
    have "filter (\<lambda>y. y \<noteq> x \<and> y \<notin> set acc) zs = filter (\<lambda>y. y \<notin> set acc) zs" for zs
      using True by (induction zs) auto
    with True Cons show ?thesis by (simp add: remdups_append_filter)
  next
    case False
    with Cons show ?thesis by simp
  qed
qed

lemma js_set_values_ref: "js_set_values xs = rev (remdups (rev xs))"
  by (simp add: js_set_values_def js_set_add_all_eq)

lemma js_set_values_distinct: "distinct (js_set_values xs)"
  and js_set_values_set [simp]: "set (js_set_values xs) = set xs"
  by (simp_all add: js_set_values_ref)

lemma js_set_values_append:
  "js_set_values (xs @ ys) = js_set_values xs @ filter (\<lambda>y. y \<notin> set xs) (js_set_values ys)"
  by (simp add: js_set_values_ref remdups_append_filter remdups_filter rev_filter)

lemma js_set_values_Nil [simp]: "js_set_values [] = []"
  by (simp add: js_set_values_def)

lemma js_set_values_filter: "js_set_values (filter P xs) = filter P (js_set_values xs)"
  by (simp add: js_set_values_ref remdups_filter rev_filter)

lemma js_set_values_Cons: "js_set_values (x # xs) = x # js_set_values (filter (\<lambda>y. y \<noteq> x) xs)"
proof -
  have "js_set_values [x] = [x]" by (simp add: js_set_values_def)
  then show ?thesis using js_set_values_append [of "[x]" xs] by (simp add: js_set_values_filter)
qed


subsection \<open>JSON values and objects\<close>

text \<open>
  What \<open>JSON.parse\<close> returns: an object is the list of its own properties in the
  order \<open>Object.keys\<close> enumerates them; a number is kept as the text JavaScript prints
  for it.
\<close>

datatype json = JNull | JBool bool | JNum string | JStr string | JArr "json list"
  | JObj "(string \<times> json) list"

fun nat_str :: "nat \<Rightarrow> string" where
  "nat_str n = (if n < 10 then [char_of (48 + n)] else nat_str (n div 10) @ [char_of (48 + n mod 10)])"

definition index_keys :: "'a list \<Rightarrow> (string \<times> 'a) list" where
  "index_keys xs = map (\<lambda>i. (nat_str i, xs ! i)) [0..<length xs]"

text \<open>Own enumerable properties: those of an object, the indices of a string or array.\<close>

fun own_entries :: "json \<Rightarrow> (string \<times> json) list" where
  "own_entries (JObj kvs) = kvs"
| "own_entries (JStr s) = index_keys (map (\<lambda>c. JStr [c]) s)"
| "own_entries (JArr xs) = index_keys xs"
| "own_entries _ = []"

text \<open>
  \<open>v[k]\<close> for a key \<open>k\<close> that is neither an array index nor \<open>length\<close> (the keys
  the program reads are \<open>dependencies\<close> and \<open>devDependencies\<close>): a property of an
  object, \<open>undefined\<close> on any other value, a \<open>TypeError\<close> on \<open>null\<close>.
\<close>

fun js_member :: "json \<Rightarrow> string \<Rightarrow> js_error + json option" where
  "js_member JNull k = Inl (TypeError ''Cannot read properties of null'')"
| "js_member (JObj kvs) k = Inr (map_of kvs k)"
| "js_member _ k = Inr None"

text \<open>
  \<open>Object.keys(o).map(key => ({key, value: o[key]}))\<close>: the own entries;
  \<open>Object.keys\<close> of \<open>undefined\<close> or \<open>null\<close> throws.
\<close>

fun js_keys_entries :: "json option \<Rightarrow> js_error + (string \<times> json) list" where
  "js_keys_entries None = Inl (TypeError ''Cannot convert undefined or null to object'')"
| "js_keys_entries (Some JNull) = Inl (TypeError ''Cannot convert undefined or null to object'')"
| "js_keys_entries (Some v) = Inr (own_entries v)"

text \<open>
  \<open>res[key] = value\<close> on a plain object: an existing property keeps its place and
  gets the value, a new one goes last; the key \<open>__proto__\<close> runs the inherited
  setter instead and creates no own property.
\<close>

definition js_assign :: "(string \<times> json) list \<Rightarrow> string \<Rightarrow> json \<Rightarrow> (string \<times> json) list" where
  "js_assign res k v = (if k = ''__proto__'' then res else AList.update k v res)"

text \<open>\<open>{...a, ...b}\<close>: the own properties of \<open>a\<close>, then those of \<open>b\<close>, each defined
  as a data property (so \<open>__proto__\<close> is an ordinary key here).\<close>

definition js_spread :: "(string \<times> json) list \<Rightarrow> (string \<times> json) list \<Rightarrow> (string \<times> json) list" where
  "js_spread a b = foldl (\<lambda>acc (k, v). AList.update k v acc) [] (a @ b)"

lemma map_of_foldl_update:
  "map_of (foldl (\<lambda>acc (k, v). AList.update k v acc) acc kvs) = map_of acc ++ map_of (rev kvs)"
  by (induction kvs arbitrary: acc) (auto simp: update_conv' map_add_def fun_eq_iff split: option.splits)

lemma map_of_js_spread: "map_of (js_spread a b) = map_of (rev a) ++ map_of (rev b)"
  by (simp add: js_spread_def map_of_foldl_update)

lemma js_assign_proto: "js_assign res ''__proto__'' v = res"
  by (simp add: js_assign_def)

lemma map_of_js_assign:
  "k \<noteq> ''__proto__'' \<Longrightarrow> map_of (js_assign res k v) = (map_of res)(k \<mapsto> v)"
  by (simp add: js_assign_def update_conv')


subsection \<open>\<open>JSON.stringify(v, null, 4)\<close>\<close>

text \<open>
  Strings are quoted with the escapes of \<open>QuoteJSONString\<close>: the quote and the
  backslash, the five named control characters, any other control character as
  \<open>\u00xx\<close> in lower-case hex. Objects and arrays are printed one member per line,
  indented by four spaces per level; empty ones as \<open>{}\<close> and \<open>[]\<close>.
\<close>

definition hex_digit :: "nat \<Rightarrow> char" where
  "hex_digit n = (if n < 10 then char_of (48 + n) else char_of (87 + n))"

definition json_escape :: "char \<Rightarrow> string" where
  "json_escape c =
     (let n = of_char c :: nat; bs = CHR 0x5C in
      if c = CHR 0x22 then [bs, c]
      else if c = bs then [bs, bs]
      else if n = 8 then [bs, CHR ''b'']
      else if n = 9 then [bs, CHR ''t'']
      else if n = 10 then [bs, CHR ''n'']
      else if n = 12 then [bs, CHR ''f'']
      else if n = 13 then [bs, CHR ''r'']
      else if n < 32 then [bs, CHR ''u'', CHR ''0'', CHR ''0'', hex_digit (n div 16), hex_digit (n mod 16)]
      else [c])"

definition json_quote :: "string \<Rightarrow> string" where
  "json_quote s = [CHR 0x22] @ concat (map json_escape s) @ [CHR 0x22]"

fun json_stringify_at :: "string \<Rightarrow> json \<Rightarrow> string" where
  "json_stringify_at ind JNull = ''null''"
| "json_stringify_at ind (JBool b) = (if b then ''true'' else ''false'')"
| "json_stringify_at ind (JNum n) = n"
| "json_stringify_at ind (JStr s) = json_quote s"
| "json_stringify_at ind (JArr xs) =
     (if xs = [] then ''[]''
      else ''[\<newline>'' @ join_with '',\<newline>''
             (map (\<lambda>x. ind @ ''    '' @ json_stringify_at (ind @ ''    '') x) xs)
           @ ''\<newline>'' @ ind @ '']'')"
| "json_stringify_at ind (JObj kvs) =
     (if kvs = [] then ''{}''
      else ''{\<newline>'' @ join_with '',\<newline>''
             (map (\<lambda>kv. ind @ ''    '' @ json_quote (fst kv) @ '': ''
                         @ json_stringify_at (ind @ ''    '') (snd kv)) kvs)
           @ ''\<newline>'' @ ind @ ''}'')"

definition json_stringify4 :: "json \<Rightarrow> string" where
  "json_stringify4 v = json_stringify_at [] v"

end
