(* ===== verification/Tag_Extractor.thy ===== *)
theory Tag_Extractor
  imports JS_Builtins
begin

text \<open>
  The tag extractor of \<open>src/main.js\<close>, \<open>getContentByTag(tagName, content)\<close>
  (lines 16--18): \<open>content.split(`## ${tagName}`)[1]\<close>. The result is the text
  between the first and the second occurrence of the marker \<open>## tagName\<close>, or from
  the first occurrence to the end; \<open>undefined\<close> (\<open>None\<close>) when the marker is absent.
  The lemmas give the result on every shape of input: marker absent, one marker, two
  markers; and they show that a section runs to the next occurrence of the same marker,
  not to the next tag.
\<close>

definition tag_marker :: "string \<Rightarrow> string" where
  "tag_marker tag = ''## '' @ tag"

definition get_content_by_tag :: "string \<Rightarrow> string \<Rightarrow> string option" where
  "get_content_by_tag tag content = js_nth (js_split (tag_marker tag) content) 1"

lemma tag_marker_not_Nil [simp]: "tag_marker tag \<noteq> []"
  by (simp add: tag_marker_def)

lemmas tag_extractor_defs = get_content_by_tag_def tag_marker_def

subsection \<open>Absent marker\<close>

lemma get_content_by_tag_absent:
  "\<not> sublist (tag_marker tag) content \<Longrightarrow> get_content_by_tag tag content = None"
  by (simp add: get_content_by_tag_def js_split_no_match)

lemma get_content_by_tag_Some_present:
  "get_content_by_tag tag content = Some s \<Longrightarrow> sublist (tag_marker tag) content"
  using get_content_by_tag_absent by fastforce

subsection \<open>Present marker\<close>

text \<open>
  \<open>pre\<close> is the text before the first marker: the marker does not start inside it.
  The section is the first piece of what follows the marker.
\<close>

lemma get_content_by_tag_first_piece:
  assumes "\<not> sublist (tag_marker tag) (pre @ butlast (tag_marker tag))"
  shows "get_content_by_tag tag (pre @ tag_marker tag @ rest) =
           Some (hd (js_split (tag_marker tag) rest))"
proof -
  have "js_split (tag_marker tag) (pre @ tag_marker tag @ rest) = pre # js_split (tag_marker tag) rest"
    using assms by (simp add: js_split_append_sep)
  moreover have "js_split (tag_marker tag) rest \<noteq> []"
    by (simp add: js_split_not_Nil)
  ultimately show ?thesis
    by (cases "js_split (tag_marker tag) rest") (simp_all add: get_content_by_tag_def)
qed

text \<open>C7. Round trip of a section: a text composed of a prefix in which the marker does
  not start, the marker \<open>## tag\<close>, and a section without the marker gives back exactly
  that section.\<close>

theorem get_content_by_tag_to_end:
  assumes "\<not> sublist (tag_marker tag) (pre @ butlast (tag_marker tag))"
    and "\<not> sublist (tag_marker tag) body"
  shows "get_content_by_tag tag (pre @ tag_marker tag @ body) = Some body"
  using assms by (simp add: get_content_by_tag_first_piece js_split_no_match)

text \<open>The section stops at the second occurrence of the same marker.\<close>

lemma get_content_by_tag_to_same_marker:
  assumes "\<not> sublist (tag_marker tag) (pre @ butlast (tag_marker tag))"
    and "\<not> sublist (tag_marker tag) (body @ butlast (tag_marker tag))"
  shows "get_content_by_tag tag (pre @ tag_marker tag @ body @ tag_marker tag @ rest) = Some body"
  using assms by (simp add: get_content_by_tag_first_piece js_split_append_sep)

text \<open>Whatever it returns never contains the marker.\<close>

lemma get_content_by_tag_no_marker:
  "get_content_by_tag tag content = Some s \<Longrightarrow> \<not> sublist (tag_marker tag) s"
proof
  assume some: "get_content_by_tag tag content = Some s" and sub: "sublist (tag_marker tag) s"
  from some have "s \<in> set (js_split (tag_marker tag) content)"
    by (auto simp: get_content_by_tag_def js_nth_Some_iff)
  then have "\<not> sublist (tag_marker tag) s" by (simp add: js_split_no_sep)
  with sub show False by contradiction
qed


theorem get_content_by_tag_to_end_witness:
  "get_content_by_tag ''workdir'' (''FROM node\<newline>'' @ tag_marker ''workdir'' @ ''\<newline>WORKDIR /app\<newline>'') =
     Some ''\<newline>WORKDIR /app\<newline>''"
proof -
  have h1: "\<not> sublist (tag_marker ''workdir'') (''FROM node\<newline>'' @ butlast (tag_marker ''workdir''))"
    by (code_simp)
  have h2: "\<not> sublist (tag_marker ''workdir'') ''\<newline>WORKDIR /app\<newline>''"
    by (code_simp)
  show ?thesis by (rule get_content_by_tag_to_end [OF h1 h2])
qed

end
