(* ===== verification/World.thy ===== *)
theory World
  imports JS_Builtins
begin

text \<open>
  The outside world the program acts on, and the asynchronous operations of Node it
  calls. The world is a record: the contents of the files, the listings of the
  directories (in the order \<open>fs.readdirSync\<close> returns them), which writes the operating
  system rejects, which shell commands exit with status 0, and the commands started so
  far. A step of the program is a function \<open>world \<Rightarrow> (js_error + 'a) \<times> world\<close>: a
  result or the error it throws, and the world after it. Errors stop the chain
  (\<open>io_bind\<close>), as a rejected promise or a thrown error ends an rxjs \<open>switchMap\<close>
  pipeline.
\<close>

record world =
  files :: "path \<Rightarrow> string option"
  dirs :: "path \<Rightarrow> string list option"
  write_fails :: "path \<Rightarrow> bool"
  cmd_ok :: "string \<Rightarrow> bool"
  started :: "string list"

type_synonym 'a io = "world \<Rightarrow> (js_error + 'a) \<times> world"

definition io_return :: "'a \<Rightarrow> 'a io" where
  "io_return a w = (Inr a, w)"

definition io_lift :: "js_error + 'a \<Rightarrow> 'a io" where
  "io_lift r w = (r, w)"

definition io_bind :: "'a io \<Rightarrow> ('a \<Rightarrow> 'b io) \<Rightarrow> 'b io" where
  "io_bind m f w = (case m w of (Inl e, w') \<Rightarrow> (Inl e, w') | (Inr a, w') \<Rightarrow> f a w')"

lemma io_bind_Inl [simp]: "m w = (Inl e, w') \<Longrightarrow> io_bind m f w = (Inl e, w')"
  and io_bind_Inr [simp]: "m w = (Inr a, w') \<Longrightarrow> io_bind m f w = f a w'"
  by (simp_all add: io_bind_def)

lemma io_return_simp [simp]: "io_return a w = (Inr a, w)"
  and io_lift_simp [simp]: "io_lift r w = (r, w)"
  by (simp_all add: io_return_def io_lift_def)

lemma io_bind_eq_Inr:
  "io_bind m f w = (Inr b, w'') \<longleftrightarrow> (\<exists>a w'. m w = (Inr a, w') \<and> f a w' = (Inr b, w''))"
  by (auto simp: io_bind_def split: prod.splits sum.splits)

lemma io_bind_eq_Inl:
  "io_bind m f w = (Inl e, w'') \<longleftrightarrow>
     m w = (Inl e, w'') \<or> (\<exists>a w'. m w = (Inr a, w') \<and> f a w' = (Inl e, w''))"
  by (auto simp: io_bind_def split: prod.splits sum.splits)

subsection \<open>The file system\<close>

text \<open>\<open>fs.existsSync(p)\<close>: a file or a directory is there.\<close>

definition exists_sync :: "world \<Rightarrow> path \<Rightarrow> bool" where
  "exists_sync w p \<longleftrightarrow> files w p \<noteq> None \<or> dirs w p \<noteq> None"

text \<open>\<open>fs.readdirSync(p)\<close>: every entry name of the directory, files included.\<close>

definition readdir_sync :: "path \<Rightarrow> string list io" where
  "readdir_sync p w = (case dirs w p of None \<Rightarrow> (Inl (NotADirectory p), w) | Some ns \<Rightarrow> (Inr ns, w))"

text \<open>
  \<open>Promise.all(ps.map(p => readFile(p)))\<close>: every read is issued; the array of
  contents is in the order of \<open>ps\<close>; one failed read rejects the whole batch. Which
  rejection wins is the first to settle; the model takes the first failing path in list
  order, and no theorem depends on that choice.
\<close>

definition read_one :: "world \<Rightarrow> path \<Rightarrow> js_error + string" where
  "read_one w p = (case files w p of None \<Rightarrow> Inl (ReadError p) | Some c \<Rightarrow> Inr c)"

definition read_all :: "path list \<Rightarrow> string list io" where
  "read_all ps w = (traverse (read_one w) ps, w)"

text \<open>
  \<open>Promise.all(ws.map(([p, c]) => writeFile(p, c)))\<close>: every write is issued and
  every one the system accepts takes effect, also when another one fails (a rejected
  \<open>Promise.all\<close> undoes nothing); the batch fails if any write fails.
\<close>

definition apply_write :: "world \<Rightarrow> path \<times> string \<Rightarrow> world" where
  "apply_write w pc = (if write_fails w (fst pc) then w else w\<lparr>files := (files w)(fst pc \<mapsto> snd pc)\<rparr>)"

definition write_all :: "(path \<times> string) list \<Rightarrow> unit io" where
  "write_all ws w =
     (case find (\<lambda>pc. write_fails w (fst pc)) ws of
        None \<Rightarrow> Inr ()
      | Some pc \<Rightarrow> Inl (WriteError (fst pc)),
      foldl apply_write w ws)"

text \<open>\<open>writeFile(p, c)\<close> alone.\<close>

definition write_file :: "path \<Rightarrow> string \<Rightarrow> unit io" where
  "write_file p c = write_all [(p, c)]"

subsection \<open>Processes\<close>

text \<open>
  \<open>Promise.all(cmds.map(runCmd))\<close>: each \<open>child_process.exec\<close> starts its command
  at once; the batch fails if one exits with an error, and the others keep running.
  The output of a command is only logged, so it is not part of the model. When several
  commands fail, \<open>Promise.all\<close> rejects with the one that fails first in time; the
  model has no clock and reports the first failing one in array order, and the lemmas
  on commands only use that the reported error is that of some failing command.
\<close>

definition run_cmds :: "string list \<Rightarrow> unit io" where
  "run_cmds cs w =
     (case find (\<lambda>c. \<not> cmd_ok w c) cs of None \<Rightarrow> Inr () | Some c \<Rightarrow> Inl (CommandFailed c),
      w\<lparr>started := started w @ cs\<rparr>)"

subsection \<open>Frame and effect lemmas\<close>

lemma apply_write_frame [simp]:
  "dirs (apply_write w pc) = dirs w" "write_fails (apply_write w pc) = write_fails w"
  "cmd_ok (apply_write w pc) = cmd_ok w" "started (apply_write w pc) = started w"
  by (simp_all add: apply_write_def)

lemma foldl_apply_write_frame [simp]:
  "dirs (foldl apply_write w ws) = dirs w"
  "write_fails (foldl apply_write w ws) = write_fails w"
  "cmd_ok (foldl apply_write w ws) = cmd_ok w"
  "started (foldl apply_write w ws) = started w"
  by (induction ws arbitrary: w) simp_all

lemma files_foldl_apply_write:
  "files (foldl apply_write w ws) p =
     (case find (\<lambda>pc. fst pc = p \<and> \<not> write_fails w p) (rev ws) of
        None \<Rightarrow> files w p | Some pc \<Rightarrow> Some (snd pc))"
  by (induction ws arbitrary: w rule: rev_induct) (auto simp: apply_write_def split: option.splits)

lemma files_foldl_apply_write_other:
  "p \<notin> fst ` set ws \<Longrightarrow> files (foldl apply_write w ws) p = files w p"
  by (induction ws arbitrary: w) (auto simp: apply_write_def)

lemma write_all_world:
  "snd (write_all ws w) = foldl apply_write w ws"
  by (simp add: write_all_def)

lemma write_all_Inr_iff:
  "fst (write_all ws w) = Inr () \<longleftrightarrow> (\<forall>pc \<in> set ws. \<not> write_fails w (fst pc))"
proof (cases "find (\<lambda>pc. write_fails w (fst pc)) ws")
  case None
  moreover from None have "\<forall>pc \<in> set ws. \<not> write_fails w (fst pc)"
    by (auto simp: find_None_iff)
  ultimately show ?thesis by (simp add: write_all_def)
next
  case (Some pc)
  then have "pc \<in> set ws" and "write_fails w (fst pc)"
    by (auto simp: find_Some_iff)
  with Some show ?thesis by (auto simp: write_all_def)
qed

lemma read_all_world [simp]: "snd (read_all ps w) = w"
  by (simp add: read_all_def)

lemma run_cmds_frame [simp]:
  "files (snd (run_cmds cs w)) = files w"
  "started (snd (run_cmds cs w)) = started w @ cs"
  by (simp_all add: run_cmds_def)

lemma find_Some_mem: "find P xs = Some x \<Longrightarrow> x \<in> set xs \<and> P x"
  by (metis find_Some_iff nth_mem)

lemma run_cmds_Inr_iff: "fst (run_cmds cs w) = Inr () \<longleftrightarrow> (\<forall>c \<in> set cs. cmd_ok w c)"
proof (cases "find (\<lambda>c. \<not> cmd_ok w c) cs")
  case None
  moreover from None have "\<forall>c \<in> set cs. cmd_ok w c" by (simp add: find_None_iff)
  ultimately show ?thesis by (simp add: run_cmds_def)
next
  case (Some c)
  with find_Some_mem [OF this] show ?thesis by (auto simp: run_cmds_def)
qed

lemma run_cmds_Inl: "fst (run_cmds cs w) = Inl e \<Longrightarrow> \<exists>c \<in> set cs. \<not> cmd_ok w c \<and> e = CommandFailed c"
  by (auto simp: run_cmds_def split: option.splits dest: find_Some_mem)


lemma read_all_Inr:
  assumes "read_all ps w = (Inr cs, w')"
  shows "w' = w" and "length cs = length ps" and "\<forall>i < length ps. files w (ps ! i) = Some (cs ! i)"
proof -
  from assms show "w' = w" by (simp add: read_all_def)
  from assms have t: "traverse (read_one w) ps = Inr cs"
    unfolding read_all_def by (metis prod.inject)
  from t show "length cs = length ps" by (rule traverse_Inr_length)
  from t show "\<forall>i < length ps. files w (ps ! i) = Some (cs ! i)"
    by (auto dest: traverse_Inr_nth simp: read_one_def split: option.splits)
qed

lemma read_all_ok:
  "\<forall>p \<in> set ps. files w p \<noteq> None \<Longrightarrow> read_all ps w = (Inr (map (\<lambda>p. the (files w p)) ps), w)"
  by (induction ps) (auto simp: read_all_def read_one_def)

lemma read_all_fails:
  "p \<in> set ps \<Longrightarrow> files w p = None \<Longrightarrow> \<exists>e. read_all ps w = (Inl e, w)"
  using traverse_Inl_if_some_fails [of p ps "read_one w" "ReadError p"]
  by (auto simp: read_all_def read_one_def)


lemma files_foldl_apply_write_mem:
  "distinct (map fst ws) \<Longrightarrow> (p, c) \<in> set ws \<Longrightarrow> \<not> write_fails w p \<Longrightarrow>
   files (foldl apply_write w ws) p = Some c"
proof (induction ws arbitrary: w)
  case Nil
  then show ?case by simp
next
  case (Cons pc ws)
  show ?case
  proof (cases "fst pc = p")
    case True
    with Cons.prems have "pc = (p, c)" by (auto simp: image_iff)
    moreover have "p \<notin> fst ` set ws" using Cons.prems(1) True by auto
    ultimately have "files (foldl apply_write (apply_write w pc) ws) p = files (apply_write w pc) p"
      by (simp add: files_foldl_apply_write_other)
    moreover have "files (apply_write w pc) p = Some c"
      using \<open>pc = (p, c)\<close> Cons.prems(3) by (simp add: apply_write_def)
    ultimately show ?thesis by simp
  next
    case False
    with Cons.prems have "(p, c) \<in> set ws" by auto
    with Cons.prems False show ?thesis
      using Cons.IH [of "apply_write w pc"] by simp
  qed
qed

lemma write_all_Inr_files:
  assumes "write_all ws w = (Inr u, w')" and "distinct (map fst ws)" and "(p, c) \<in> set ws"
  shows "files w' p = Some c"
proof -
  have "\<forall>pc \<in> set ws. \<not> write_fails w (fst pc)"
    using assms(1) write_all_Inr_iff [of ws w] by simp
  with assms(3) have "\<not> write_fails w p" by fastforce
  moreover have "w' = foldl apply_write w ws" using assms(1) write_all_world [of ws w] by simp
  ultimately show ?thesis using assms(2,3) files_foldl_apply_write_mem by blast
qed

lemma write_file_Inr_files: "write_file p c w = (Inr u, w') \<Longrightarrow> files w' p = Some c"
  unfolding write_file_def by (erule write_all_Inr_files) simp_all

lemma write_file_Inl: "write_file p c w = (Inl e, w') \<Longrightarrow> w' = w \<and> e = WriteError p \<and> write_fails w p"
  by (auto simp: write_file_def write_all_def apply_write_def split: if_splits)

lemma write_file_frame:
  "snd (write_file p c w) = (if write_fails w p then w else w\<lparr>files := (files w)(p \<mapsto> c)\<rparr>)"
  by (simp add: write_file_def write_all_def apply_write_def)


lemma write_file_ok: "\<not> write_fails w p \<Longrightarrow> \<exists>w'. write_file p c w = (Inr (), w')"
  by (simp add: write_file_def write_all_def)

subsection \<open>Effects confined to a set of paths\<close>

text \<open>\<open>frame S w w'\<close>: going from \<open>w\<close> to \<open>w'\<close> started no command, changed no file
  outside \<open>S\<close>, and left directories, failing writes and command outcomes alone.\<close>

definition frame :: "path set \<Rightarrow> world \<Rightarrow> world \<Rightarrow> bool" where
  "frame S w w' \<longleftrightarrow> started w' = started w \<and> dirs w' = dirs w \<and>
     write_fails w' = write_fails w \<and> cmd_ok w' = cmd_ok w \<and> (\<forall>p. p \<notin> S \<longrightarrow> files w' p = files w p)"

lemma frame_refl [simp]: "frame S w w"
  by (simp add: frame_def)

lemma frame_trans: "frame S w w' \<Longrightarrow> frame S w' w'' \<Longrightarrow> frame S w w''"
  by (simp add: frame_def)

lemma frame_mono: "frame S w w' \<Longrightarrow> S \<subseteq> T \<Longrightarrow> frame T w w'"
  by (auto simp: frame_def)

lemma io_bind_frame:
  assumes "frame S w (snd (m w))" and "\<And>a w'. frame S w' (snd (f a w'))"
  shows "frame S w (snd (io_bind m f w))"
proof (cases "m w")
  case (Pair r w')
  then show ?thesis using assms frame_trans [of S w w'] by (cases r) simp_all
qed

lemma io_lift_frame [simp]: "frame S w (snd (io_lift r w))"
  and io_return_frame [simp]: "frame S w (snd (io_return a w))"
  by simp_all

lemma write_file_frame_in: "p \<in> S \<Longrightarrow> frame S w (snd (write_file p c w))"
  by (simp add: write_file_frame frame_def)

lemma read_all_frame [simp]: "frame S w (snd (read_all ps w))"
  by (simp add: read_all_def)

text \<open>A world with no files, in which every write and every command succeeds.\<close>

definition empty_world :: world where
  "empty_world = \<lparr>files = Map.empty, dirs = Map.empty, write_fails = (\<lambda>_. False),
                   cmd_ok = (\<lambda>_. True), started = []\<rparr>"

end
