(* ===== verification/Descriptor_Reader.thy ===== *)
theory Descriptor_Reader
  imports World
begin

text \<open>
  The descriptor locator and reader of \<open>src/main.js\<close>:
  \<open>getAllDockerFilePath\<close> (lines 23--37) lists the entries of the projects directory and
  builds \<open>root/entry/Dockerfile\<close> for each; \<open>getAllDockerFileInfo\<close> (lines 42--53)
  reads them all and derives the folder of each; \<open>getAllPackageJson\<close> (lines 195--207)
  reads and parses \<open>folderPath + "/package.json"\<close> for each record and attaches the
  result by index. The records are the JavaScript objects \<open>{fileContent, filePath,
  folderPath}\<close> and their extension by \<open>packageJson\<close>. \<open>JSON.parse\<close> is a parameter
  of the model (\<open>None\<close>: it throws).
\<close>

subsection \<open>\<open>path.join\<close>\<close>

text \<open>
  Node's \<open>path.join\<close> for the platform it runs on: the non-empty segments joined by the
  separator, runs of separators collapsed, and on Windows every \<open>/\<close> read as a
  separator. Segments \<open>.\<close> and \<open>..\<close>, which \<open>path.join\<close> resolves, do not occur in
  the paths the program builds from a root without them and directory entry names.
\<close>

datatype platform = Posix | Win32

definition path_sep :: "platform \<Rightarrow> char" where
  "path_sep pl = (case pl of Posix \<Rightarrow> CHR ''/'' | Win32 \<Rightarrow> CHR 0x5C)"

fun collapse_seps :: "char \<Rightarrow> string \<Rightarrow> string" where
  "collapse_seps d (a # b # cs) =
     (if a = d \<and> b = d then collapse_seps d (b # cs) else a # collapse_seps d (b # cs))"
| "collapse_seps d cs = cs"

definition path_join :: "platform \<Rightarrow> string list \<Rightarrow> path" where
  "path_join pl parts =
     collapse_seps (path_sep pl)
       (map (\<lambda>c. if pl = Win32 \<and> c = CHR ''/'' then path_sep pl else c)
          (join_with [path_sep pl] (filter (\<lambda>s. s \<noteq> []) parts)))"

subsection \<open>The records\<close>

record docker_info =
  file_content :: string
  file_path :: path
  folder_path :: path

record pkg_info = docker_info +
  package_json :: json

subsection \<open>\<open>getAllDockerFilePath\<close>\<close>

text \<open>
  A missing root is only logged, and the function returns \<open>undefined\<close> (\<open>None\<close>)
  instead of an observable; otherwise every directory entry, files included, becomes a
  descriptor path.
\<close>

definition get_all_docker_file_path :: "platform \<Rightarrow> path \<Rightarrow> path list option io" where
  "get_all_docker_file_path pl projects_path w =
     (if \<not> exists_sync w projects_path then (Inr None, w)
      else io_bind (readdir_sync projects_path)
             (\<lambda>names. io_return (Some (map (\<lambda>n. path_join pl [projects_path, n, ''Dockerfile'']) names))) w)"

subsection \<open>\<open>getAllDockerFileInfo\<close>\<close>

text \<open>\<open>const [folderPath] = filePath.split('Dockerfile')\<close>: the first piece.\<close>

definition folder_path_of :: "path \<Rightarrow> path" where
  "folder_path_of fp = hd (js_split ''Dockerfile'' fp)"

definition mk_docker_info :: "string \<Rightarrow> path \<Rightarrow> docker_info" where
  "mk_docker_info c fp = \<lparr>file_content = c, file_path = fp, folder_path = folder_path_of fp\<rparr>"

definition get_all_docker_file_info :: "path list \<Rightarrow> docker_info list io" where
  "get_all_docker_file_info ps =
     io_bind (read_all ps) (\<lambda>contents. io_return (map2 mk_docker_info contents ps))"

subsection \<open>\<open>getAllPackageJson\<close>\<close>

definition package_json_path :: "'a docker_info_scheme \<Rightarrow> path" where
  "package_json_path info = folder_path info @ ''/package.json''"

text \<open>\<open>packageStringList.map(ps => JSON.parse(ps))\<close>: the first text that does not
  parse throws.\<close>

definition parse_all :: "(string \<Rightarrow> json option) \<Rightarrow> (path \<times> string) list \<Rightarrow> js_error + json list" where
  "parse_all parse pcs =
     traverse (\<lambda>(p, c). case parse c of None \<Rightarrow> Inl (ParseError p) | Some j \<Rightarrow> Inr j) pcs"

definition with_package_json :: "docker_info \<Rightarrow> json \<Rightarrow> pkg_info" where
  "with_package_json info j =
     \<lparr>file_content = file_content info, file_path = file_path info,
      folder_path = folder_path info, package_json = j\<rparr>"

definition get_all_package_json :: "(string \<Rightarrow> json option) \<Rightarrow> docker_info list \<Rightarrow> pkg_info list io" where
  "get_all_package_json parse infos =
     io_bind (read_all (map package_json_path infos))
       (\<lambda>texts. io_bind (io_lift (parse_all parse (zip (map package_json_path infos) texts)))
          (\<lambda>jsons. io_return (map2 with_package_json infos jsons)))"


subsection \<open>Locating the descriptors\<close>

lemma get_all_docker_file_path_absent:
  "\<not> exists_sync w root \<Longrightarrow> get_all_docker_file_path pl root w = (Inr None, w)"
  by (simp add: get_all_docker_file_path_def)

lemma get_all_docker_file_path_dir:
  "dirs w root = Some names \<Longrightarrow>
   get_all_docker_file_path pl root w =
     (Inr (Some (map (\<lambda>n. path_join pl [root, n, ''Dockerfile'']) names)), w)"
  by (simp add: get_all_docker_file_path_def exists_sync_def readdir_sync_def)

lemma get_all_docker_file_path_not_dir:
  "files w root \<noteq> None \<Longrightarrow> dirs w root = None \<Longrightarrow>
   get_all_docker_file_path pl root w = (Inl (NotADirectory root), w)"
  by (simp add: get_all_docker_file_path_def exists_sync_def readdir_sync_def)

lemma get_all_docker_file_path_world:
  "snd (get_all_docker_file_path pl root w) = w"
  by (simp add: get_all_docker_file_path_def io_bind_def readdir_sync_def split: option.splits)

text \<open>Without doubled separators, \<open>path.join\<close> of non-empty segments is the plain join.\<close>

lemma collapse_seps_id: "\<not> sublist [d, d] s \<Longrightarrow> collapse_seps d s = s"
  by (induction d s rule: collapse_seps.induct) (auto simp: sublist_Cons_right)

lemma path_join_posix:
  "\<forall>s \<in> set parts. s \<noteq> [] \<Longrightarrow> \<not> sublist ''//'' (join_with ''/'' parts) \<Longrightarrow>
   path_join Posix parts = join_with ''/'' parts"
  by (simp add: path_join_def path_sep_def collapse_seps_id)

text \<open>On Windows, the descriptor path of a project directory under the root of \<open>PENG\<close>
  has one backslash between any two of its segments.\<close>

lemma path_join_win32_project:
  assumes "n \<noteq> []" and "CHR ''/'' \<notin> set n" and "CHR 0x5C \<notin> set n"
  shows "path_join Win32 [''E:/nutc-project/angular'', n, ''Dockerfile''] =
           join_with [CHR 0x5C] [''E:'', ''nutc-project'', ''angular'', n, ''Dockerfile'']"
proof -
  let ?ps = "[''E:'', ''nutc-project'', ''angular'', n, ''Dockerfile'']"
  have n: "map (\<lambda>c. if c = CHR ''/'' then path_sep Win32 else c) n = n"
    using assms(2) by (induction n) auto
  have conv: "map (\<lambda>c. if Win32 = Win32 \<and> c = CHR ''/'' then path_sep Win32 else c)
                (join_with [path_sep Win32] [''E:/nutc-project/angular'', n, ''Dockerfile'']) =
              join_with [CHR 0x5C] ?ps"
    using n by (simp add: path_sep_def)
  have nd: "\<not> sublist [CHR 0x5C, CHR 0x5C] (join_with [CHR 0x5C] ?ps)"
    by (rule no_double_sep_join_with) (use assms in simp)
  have f: "filter (\<lambda>s. s \<noteq> []) [''E:/nutc-project/angular'', n, ''Dockerfile''] =
             [''E:/nutc-project/angular'', n, ''Dockerfile'']" using assms(1) by simp
  have sep: "path_sep Win32 = CHR 0x5C" by (simp add: path_sep_def)
  have "path_join Win32 [''E:/nutc-project/angular'', n, ''Dockerfile''] =
          collapse_seps (path_sep Win32)
            (map (\<lambda>c. if Win32 = Win32 \<and> c = CHR ''/'' then path_sep Win32 else c)
               (join_with [path_sep Win32] [''E:/nutc-project/angular'', n, ''Dockerfile'']))"
    by (simp only: path_join_def f)
  also have "\<dots> = collapse_seps (CHR 0x5C) (join_with [CHR 0x5C] ?ps)" by (subst conv) (simp only: sep)
  also have "\<dots> = join_with [CHR 0x5C] ?ps" by (rule collapse_seps_id [OF nd])
  finally show ?thesis .
qed

subsection \<open>Reading the descriptors\<close>

text \<open>The folder of \<open>dir @ ''Dockerfile''\<close> is \<open>dir\<close> when \<open>Dockerfile\<close> does not start inside \<open>dir\<close>.\<close>

lemma folder_path_of_dir:
  "\<not> sublist ''Dockerfile'' (dir @ butlast ''Dockerfile'') \<Longrightarrow> folder_path_of (dir @ ''Dockerfile'') = dir"
  using js_split_append_sep [of "''Dockerfile''" dir "[]"]
  by (simp add: folder_path_of_def)

text \<open>
  Index alignment: the \<open>i\<close>-th record holds the \<open>i\<close>-th path and the contents read
  from it; the world is not changed.
\<close>

lemma get_all_docker_file_info_Inr:
  assumes "get_all_docker_file_info ps w = (Inr infos, w')"
  shows "w' = w \<and> length infos = length ps \<and>
         (\<forall>i < length ps. file_path (infos ! i) = ps ! i \<and>
            folder_path (infos ! i) = folder_path_of (ps ! i) \<and>
            files w (ps ! i) = Some (file_content (infos ! i)))"
proof -
  from assms obtain cs where r: "read_all ps w = (Inr cs, w)"
    and infos: "infos = map2 mk_docker_info cs ps" and "w' = w"
    by (auto simp: get_all_docker_file_info_def io_bind_def read_all_def split: sum.splits)
  from r have len: "length cs = length ps" and f: "\<forall>i < length ps. files w (ps ! i) = Some (cs ! i)"
    by (auto dest: read_all_Inr)
  with infos \<open>w' = w\<close> show ?thesis by (simp add: mk_docker_info_def)
qed

lemma get_all_docker_file_info_ok:
  "\<forall>p \<in> set ps. files w p \<noteq> None \<Longrightarrow>
   get_all_docker_file_info ps w = (Inr (map (\<lambda>p. mk_docker_info (the (files w p)) p) ps), w)"
  by (simp add: get_all_docker_file_info_def read_all_ok zip_map1 zip_same_conv_map)

lemma get_all_docker_file_info_fails:
  "p \<in> set ps \<Longrightarrow> files w p = None \<Longrightarrow> \<exists>e. get_all_docker_file_info ps w = (Inl e, w)"
  by (auto simp: get_all_docker_file_info_def dest: read_all_fails)


subsection \<open>Attaching the manifests\<close>

lemma parse_all_Inr:
  assumes "parse_all parse pcs = Inr js"
  shows "length js = length pcs \<and> (\<forall>i < length pcs. parse (snd (pcs ! i)) = Some (js ! i))"
proof -
  have t: "traverse (\<lambda>(p, c). case parse c of None \<Rightarrow> Inl (ParseError p) | Some j \<Rightarrow> Inr j) pcs = Inr js"
    using assms by (simp add: parse_all_def)
  then have "length js = length pcs" by (rule traverse_Inr_length)
  moreover have "parse (snd (pcs ! i)) = Some (js ! i)" if "i < length pcs" for i
    using traverse_Inr_nth [OF t that]
    by (cases "pcs ! i") (auto split: option.splits)
  ultimately show ?thesis by blast
qed

lemma get_all_package_json_Inr_map:
  assumes "get_all_package_json parse infos w = (Inr rs, w')"
  shows "\<exists>js. w' = w \<and> rs = map2 with_package_json infos js \<and> length js = length infos \<and>
           (\<forall>i < length infos. \<exists>t. files w (package_json_path (infos ! i)) = Some t \<and> parse t = Some (js ! i))"
proof -
  let ?ps = "map package_json_path infos"
  from assms obtain texts js where r: "read_all ?ps w = (Inr texts, w)"
    and p: "parse_all parse (zip ?ps texts) = Inr js"
    and rs: "rs = map2 with_package_json infos js" and "w' = w"
    by (auto simp: get_all_package_json_def io_bind_def read_all_def split: sum.splits)
  from r have lt: "length texts = length infos"
    and ft: "\<forall>i < length infos. files w (?ps ! i) = Some (texts ! i)"
    by (auto dest: read_all_Inr)
  from p lt have lj: "length js = length infos"
    and pj: "\<forall>i < length infos. parse (texts ! i) = Some (js ! i)"
    by (auto dest!: parse_all_Inr)
  show ?thesis using rs lj lt ft pj \<open>w' = w\<close> by auto
qed

text \<open>The records handed on keep the descriptor fields of a record of the input.\<close>

lemma get_all_package_json_records:
  assumes "get_all_package_json parse infos w = (Inr rs, w')" and "r \<in> set rs"
  shows "\<exists>info \<in> set infos. file_path r = file_path info \<and> folder_path r = folder_path info \<and>
           file_content r = file_content info \<and>
           (\<exists>t. files w (package_json_path info) = Some t \<and> parse t = Some (package_json r))"
proof -
  obtain js where rs: "rs = map2 with_package_json infos js" and lj: "length js = length infos"
    and pj: "\<forall>i < length infos. \<exists>t. files w (package_json_path (infos ! i)) = Some t \<and> parse t = Some (js ! i)"
    using get_all_package_json_Inr_map [OF assms(1)] by blast
  from assms(2) rs lj obtain i where i: "i < length infos" and r: "r = with_package_json (infos ! i) (js ! i)"
    by (auto simp: in_set_conv_nth)
  then show ?thesis using pj nth_mem [OF i] by (auto simp: with_package_json_def)
qed

lemma get_all_package_json_ok:
  assumes "\<forall>info \<in> set infos. \<exists>t j. files w (package_json_path info) = Some t \<and> parse t = Some j"
  shows "\<exists>rs. get_all_package_json parse infos w = (Inr rs, w)"
proof -
  let ?ps = "map package_json_path infos"
  let ?texts = "map (\<lambda>p. the (files w p)) ?ps"
  have r: "read_all ?ps w = (Inr ?texts, w)" using assms by (intro read_all_ok) auto
  have z: "zip ?ps ?texts = map (\<lambda>info. (package_json_path info, the (files w (package_json_path info)))) infos"
    by (induction infos) auto
  have "\<forall>pc \<in> set (zip ?ps ?texts). \<exists>j. (case pc of (p, c) \<Rightarrow> case parse c of None \<Rightarrow> Inl (ParseError p) | Some j \<Rightarrow> Inr j) = Inr j"
  proof
    fix pc assume "pc \<in> set (zip ?ps ?texts)"
    then have "pc \<in> set (map (\<lambda>info. (package_json_path info, the (files w (package_json_path info)))) infos)"
      by (simp only: z)
    then obtain info where "info \<in> set infos"
      and pc: "pc = (package_json_path info, the (files w (package_json_path info)))" by auto
    with assms obtain t j where "files w (package_json_path info) = Some t" and "parse t = Some j" by blast
    with pc show "\<exists>j. (case pc of (p, c) \<Rightarrow> case parse c of None \<Rightarrow> Inl (ParseError p) | Some j \<Rightarrow> Inr j) = Inr j"
      by simp
  qed
  then obtain js where "parse_all parse (zip ?ps ?texts) = Inr js"
    unfolding parse_all_def by (rule traverse_ok [THEN exE])
  with r show ?thesis by (simp add: get_all_package_json_def io_bind_def)
qed

lemma folder_path_of_prefix: "prefix (folder_path_of p) p"
  by (simp add: folder_path_of_def js_split_def js_split_ne_hd_prefix)

text \<open>C11. Index alignment of the manifests: \<open>getAllPackageJson\<close> returns one record per
  input record, the \<open>i\<close>-th being the \<open>i\<close>-th input extended with the parse of the
  file at its \<open>folderPath + "/package.json"\<close>; the world is not changed.\<close>

theorem get_all_package_json_Inr:
  assumes "get_all_package_json parse infos w = (Inr rs, w')"
  shows "w' = w \<and> length rs = length infos \<and>
         (\<forall>i < length infos. rs ! i = with_package_json (infos ! i) (package_json (rs ! i)) \<and>
            (\<exists>text_read. files w (package_json_path (infos ! i)) = Some text_read \<and>
                   parse text_read = Some (package_json (rs ! i))))"
proof -
  obtain js where "w' = w" and rs: "rs = map2 with_package_json infos js"
    and lj: "length js = length infos"
    and pj: "\<forall>i < length infos. \<exists>t. files w (package_json_path (infos ! i)) = Some t \<and> parse t = Some (js ! i)"
    using get_all_package_json_Inr_map [OF assms] by blast
  then show ?thesis by (auto simp: with_package_json_def)
qed

lemma get_all_docker_file_info_world: "snd (get_all_docker_file_info ps w) = w"
  by (simp add: get_all_docker_file_info_def io_bind_def read_all_def split: sum.splits)

lemma get_all_package_json_world: "snd (get_all_package_json parse infos w) = w"
  by (simp add: get_all_package_json_def io_bind_def read_all_def split: sum.splits)


definition reader_example :: docker_info where
  "reader_example = \<lparr>file_content = ''FROM node'', file_path = ''/p/a/Dockerfile'', folder_path = ''/p/a/''\<rparr>"

definition reader_world :: world where
  "reader_world = empty_world\<lparr>files := [''/p/a//package.json'' \<mapsto> ''{}'']\<rparr>"

definition parse_empty_object :: "string \<Rightarrow> json option" where
  "parse_empty_object s = (if s = ''{}'' then Some (JObj []) else None)"

theorem get_all_package_json_Inr_witness:
  "get_all_package_json parse_empty_object [reader_example] reader_world =
     (Inr [with_package_json reader_example (JObj [])], reader_world) \<and>
   files reader_world (package_json_path reader_example) = Some ''{}''"
proof -
  have run: "get_all_package_json parse_empty_object [reader_example] reader_world =
     (Inr [with_package_json reader_example (JObj [])], reader_world)"
    by (simp add: get_all_package_json_def read_all_def read_one_def package_json_path_def
        reader_example_def reader_world_def parse_all_def parse_empty_object_def io_bind_def)
  from get_all_package_json_Inr [OF run] obtain text_read
    where "files reader_world (package_json_path ([reader_example] ! 0)) = Some text_read"
      and "parse_empty_object text_read = Some (package_json ([with_package_json reader_example (JObj [])] ! 0))"
    by fastforce
  then have "files reader_world (package_json_path reader_example) = Some ''{}''"
    by (simp add: parse_empty_object_def split: if_splits)
  with run show ?thesis by simp
qed

text \<open>C12. \<open>folderPath\<close> is the text before the first occurrence of \<open>Dockerfile\<close> in the
  descriptor path, not the directory of the file. For a record read from
  \<open>pre @ Dockerfile @ post\<close>, where \<open>Dockerfile\<close> does not start inside \<open>pre\<close>, the folder
  is \<open>pre\<close> and the manifest is looked up at \<open>pre/package.json\<close>. With \<open>post\<close> empty this is
  the project directory; for a project directory whose name contains \<open>Dockerfile\<close>
  (\<open>root/xDockerfiley/Dockerfile\<close>) it is cut short at \<open>root/x\<close>.\<close>

theorem folder_path_cut_at_first_dockerfile:
  assumes "get_all_docker_file_info ps w = (Inr infos, w')"
    and "i < length ps" and "ps ! i = pre @ ''Dockerfile'' @ post"
    and "\<not> sublist ''Dockerfile'' (pre @ butlast ''Dockerfile'')"
  shows "folder_path (infos ! i) = pre \<and> package_json_path (infos ! i) = pre @ ''/package.json''"
proof -
  have "folder_path (infos ! i) = folder_path_of (pre @ ''Dockerfile'' @ post)"
    using get_all_docker_file_info_Inr [OF assms(1)] assms(2,3) by simp
  also have "\<dots> = pre"
    using js_split_append_sep [of "''Dockerfile''" pre post] assms(4) by (simp add: folder_path_of_def)
  finally show ?thesis by (simp add: package_json_path_def)
qed

theorem folder_path_cut_at_first_dockerfile_witness:
  "get_all_docker_file_info [''/p/Dockerfiles-demo/Dockerfile'']
     (empty_world\<lparr>files := [''/p/Dockerfiles-demo/Dockerfile'' \<mapsto> ''FROM node'']\<rparr>) =
     (Inr [mk_docker_info ''FROM node'' ''/p/Dockerfiles-demo/Dockerfile''],
      empty_world\<lparr>files := [''/p/Dockerfiles-demo/Dockerfile'' \<mapsto> ''FROM node'']\<rparr>) \<and>
   folder_path (mk_docker_info ''FROM node'' ''/p/Dockerfiles-demo/Dockerfile'') = ''/p/'' \<and>
   package_json_path (mk_docker_info ''FROM node'' ''/p/Dockerfiles-demo/Dockerfile'') = ''/p//package.json''"
proof -
  let ?w = "empty_world\<lparr>files := [''/p/Dockerfiles-demo/Dockerfile'' \<mapsto> ''FROM node'']\<rparr>"
  let ?i = "mk_docker_info ''FROM node'' ''/p/Dockerfiles-demo/Dockerfile''"
  have r: "get_all_docker_file_info [''/p/Dockerfiles-demo/Dockerfile''] ?w = (Inr [?i], ?w)"
    by (simp add: get_all_docker_file_info_ok)
  have p: "[''/p/Dockerfiles-demo/Dockerfile''] ! 0 = ''/p/'' @ ''Dockerfile'' @ ''s-demo/Dockerfile''"
    by simp
  have n: "\<not> sublist ''Dockerfile'' (''/p/'' @ butlast ''Dockerfile'')"
    by code_simp
  from folder_path_cut_at_first_dockerfile [OF r _ p n] r show ?thesis by simp
qed
text \<open>C13. A projects root that does not exist is only reported: \<open>getAllDockerFilePath\<close>
  returns \<open>undefined\<close> instead of an observable or an empty list, and touches nothing.\<close>

theorem missing_root_yields_undefined:
  assumes "files w root = None" and "dirs w root = None"
  shows "get_all_docker_file_path pl root w = (Inr None, w)"
  using assms by (simp add: get_all_docker_file_path_absent exists_sync_def)

theorem missing_root_yields_undefined_witness:
  "get_all_docker_file_path Posix ''/nowhere'' empty_world = (Inr None, empty_world)"
proof -
  have "files empty_world ''/nowhere'' = None" and "dirs empty_world ''/nowhere'' = None"
    by (simp_all add: empty_world_def)
  then show ?thesis by (rule missing_root_yields_undefined)
qed

end
