(* ===== verification/Dependency_Merger.thy ===== *)
theory Dependency_Merger
  imports Tag_Extractor Descriptor_Reader
begin

text \<open>
  The dependency merger of \<open>src/main.js\<close>. \<open>getOsPackageList\<close> (lines 58--64) takes,
  from every descriptor, the text after \<open>## os package\<close>, splits it into lines, drops
  the empty ones, concatenates over the records in order and keeps the first occurrence
  of each line. \<open>getNodeCoreDependenciesJson\<close> (lines 76--94) runs
  \<open>generateCoreJson\<close> on \<open>dependencies\<close> and then on \<open>devDependencies\<close>: it lists
  the (key, value) pairs of that section of every manifest in record order, keeps the
  first occurrence of each key, and gives each key the value of the first pair with that
  key. Both throw where the code does: a descriptor without \<open>## os package\<close> (the
  \<open>.split\<close> of \<open>undefined\<close>), a manifest without the section (\<open>Object.keys\<close> of
  \<open>undefined\<close>).
\<close>

subsection \<open>\<open>getOsPackageList\<close>\<close>

definition os_package_lines :: "string \<Rightarrow> js_error + string list" where
  "os_package_lines content =
     (case js_nth (js_split ''## os package'' content) 1 of
        None \<Rightarrow> Inl (TypeError ''Cannot read properties of undefined (reading split)'')
      | Some sec \<Rightarrow> Inr (filter (\<lambda>s. s \<noteq> []) (js_split ''\<newline>'' sec)))"

definition get_os_package_list :: "'a docker_info_scheme list \<Rightarrow> js_error + string list" where
  "get_os_package_list infos =
     ebind (traverse (\<lambda>info. os_package_lines (file_content info)) infos)
       (\<lambda>lss. Inr (js_set_values (concat lss)))"

subsection \<open>\<open>getNodeCoreDependenciesJson\<close>\<close>

text \<open>\<open>const dpdsObj = packageJson[k]; Object.keys(dpdsObj).map(key => ({key, value: dpdsObj[key]}))\<close>\<close>

definition dep_entries :: "string \<Rightarrow> 'a pkg_info_scheme \<Rightarrow> js_error + (string \<times> json) list" where
  "dep_entries k info = ebind (js_member (package_json info) k) js_keys_entries"

text \<open>
  \<open>packgeKeyList.reduce((res, key) => { const { value } = allDependencies.find(d =>
  d.key === key); res[key] = value; return res }, {})\<close>: destructuring the result of a
  \<open>find\<close> that found nothing would throw.
\<close>

definition core_json_step ::
  "(string \<times> json) list \<Rightarrow> js_error + (string \<times> json) list \<Rightarrow> string \<Rightarrow> js_error + (string \<times> json) list" where
  "core_json_step all res key =
     ebind res (\<lambda>r. case find (\<lambda>d. fst d = key) all of
                      None \<Rightarrow> Inl (TypeError ''Cannot destructure property value of undefined'')
                    | Some d \<Rightarrow> Inr (js_assign r key (snd d)))"

definition generate_core_json :: "'a pkg_info_scheme list \<Rightarrow> string \<Rightarrow> js_error + (string \<times> json) list" where
  "generate_core_json infos k =
     ebind (traverse (dep_entries k) infos)
       (\<lambda>ess. let all = concat ess in
              foldl (core_json_step all) (Inr []) (js_set_values (map fst all)))"

definition get_node_core_dependencies_json ::
  "'a pkg_info_scheme list \<Rightarrow> js_error + ((string \<times> json) list \<times> (string \<times> json) list)" where
  "get_node_core_dependencies_json infos =
     ebind (generate_core_json infos ''dependencies'')
       (\<lambda>deps. ebind (generate_core_json infos ''devDependencies'') (\<lambda>dev. Inr (deps, dev)))"

text \<open>A manifest section that \<open>Object.keys\<close> cannot enumerate: absent or \<open>null\<close>.\<close>

definition section_absent :: "'a pkg_info_scheme \<Rightarrow> string \<Rightarrow> bool" where
  "section_absent info k = (js_member (package_json info) k \<in> {Inr None, Inr (Some JNull)})"

subsection \<open>OS packages\<close>

text \<open>The literal \<open>## os package\<close> of line 60 is the marker of the tag \<open>os package\<close>.\<close>

lemma os_package_lines_by_tag:
  "os_package_lines content =
     (case get_content_by_tag ''os package'' content of
        None \<Rightarrow> Inl (TypeError ''Cannot read properties of undefined (reading split)'')
      | Some sec \<Rightarrow> Inr (filter (\<lambda>s. s \<noteq> []) (js_split ''\<newline>'' sec)))"
  by (simp add: os_package_lines_def get_content_by_tag_def tag_marker_def)

definition os_section_lines :: "string \<Rightarrow> string list" where
  "os_section_lines content =
     filter (\<lambda>s. s \<noteq> []) (js_split ''\<newline>'' (the (get_content_by_tag ''os package'' content)))"

lemma get_os_package_list_ok:
  assumes "\<forall>info \<in> set infos. get_content_by_tag ''os package'' (file_content info) \<noteq> None"
  shows "get_os_package_list infos =
           Inr (js_set_values (concat (map (\<lambda>info. os_section_lines (file_content info)) infos)))"
proof -
  have "traverse (\<lambda>info. os_package_lines (file_content info)) infos =
          Inr (map (\<lambda>info. os_section_lines (file_content info)) infos)"
    using assms
    by (induction infos) (auto simp: os_package_lines_by_tag os_section_lines_def)
  then show ?thesis by (simp add: get_os_package_list_def)
qed

lemma get_os_package_list_missing:
  assumes "info \<in> set infos" and "get_content_by_tag ''os package'' (file_content info) = None"
  shows "\<exists>e. get_os_package_list infos = Inl e"
proof -
  have "os_package_lines (file_content info) =
          Inl (TypeError ''Cannot read properties of undefined (reading split)'')"
    using assms(2) by (simp add: os_package_lines_by_tag)
  then have "\<exists>e. traverse (\<lambda>info. os_package_lines (file_content info)) infos = Inl e"
    by (rule traverse_Inl_if_some_fails [OF assms(1)])
  then show ?thesis by (auto simp: get_os_package_list_def)
qed

lemma get_os_package_list_Inr:
  "get_os_package_list infos = Inr ps \<Longrightarrow> \<exists>lss. ps = js_set_values (concat lss)"
  by (auto simp: get_os_package_list_def ebind_def split: sum.splits)


subsection \<open>Merged manifest sections\<close>

text \<open>\<open>find\<close> on the key is the first pair with that key, which is what \<open>map_of\<close> reads.\<close>

lemma find_key_map_of:
  "find (\<lambda>d. fst d = k) all = map_option (\<lambda>v. (k, v)) (map_of all k)"
  by (induction all) auto

text \<open>
  Over keys that all occur in \<open>all\<close>, the \<open>reduce\<close> never throws: every key gets the
  value of its first pair, in the order of the keys.
\<close>

lemma foldl_core_json_step:
  "\<forall>key \<in> set keys. map_of all key \<noteq> None \<Longrightarrow>
   foldl (core_json_step all) (Inr r) keys =
     Inr (foldl (\<lambda>r key. js_assign r key (the (map_of all key))) r keys)"
proof (induction keys arbitrary: r)
  case Nil
  then show ?case by simp
next
  case (Cons key keys)
  then obtain v where v: "map_of all key = Some v" by auto
  then have "core_json_step all (Inr r) key = Inr (js_assign r key v)"
    by (simp add: core_json_step_def find_key_map_of)
  with Cons v show ?case by simp
qed

lemma map_of_foldl_js_assign:
  "map_of (foldl (\<lambda>r key. js_assign r key (f key)) r keys) k =
     (if k \<in> set keys \<and> k \<noteq> ''__proto__'' then Some (f k) else map_of r k)"
proof (induction keys arbitrary: r)
  case Nil
  then show ?case by simp
next
  case (Cons key keys)
  show ?case
    by (cases "key = ''__proto__''") (auto simp: Cons.IH map_of_js_assign js_assign_proto)
qed

lemma keys_foldl_js_assign:
  "distinct keys \<Longrightarrow> set keys \<inter> set (map fst r) = {} \<Longrightarrow>
   map fst (foldl (\<lambda>r key. js_assign r key (f key)) r keys) =
     map fst r @ filter (\<lambda>k. k \<noteq> ''__proto__'') keys"
proof (induction keys arbitrary: r)
  case Nil
  then show ?case by simp
next
  case (Cons key keys)
  let ?r = "js_assign r key (f key)"
  have keys_r: "map fst ?r = map fst r @ (if key = ''__proto__'' then [] else [key])"
    using Cons.prems by (simp add: js_assign_def update_keys)
  then have "set keys \<inter> set (map fst ?r) = {}" using Cons.prems by auto
  with Cons.IH Cons.prems(1) have "map fst (foldl (\<lambda>r key. js_assign r key (f key)) ?r keys) =
      map fst ?r @ filter (\<lambda>k. k \<noteq> ''__proto__'') keys" by simp
  with keys_r show ?case by simp
qed

text \<open>
  The result of \<open>generateCoreJson\<close> from the concatenated entries: every key that
  occurs, once, in first-occurrence order (but \<open>__proto__\<close>), with the value of the
  first pair that has it.
\<close>

definition merge_first :: "(string \<times> json) list \<Rightarrow> (string \<times> json) list" where
  "merge_first all =
     foldl (\<lambda>r key. js_assign r key (the (map_of all key))) [] (js_set_values (map fst all))"

lemma generate_core_json_entries:
  "traverse (dep_entries k) infos = Inr ess \<Longrightarrow>
   generate_core_json infos k = Inr (merge_first (concat ess))"
  by (simp add: generate_core_json_def merge_first_def foldl_core_json_step
      Let_def map_of_eq_None_iff)

lemma map_of_merge_first:
  "map_of (merge_first all) k = (if k = ''__proto__'' then None else map_of all k)"
proof (cases "k \<in> fst ` set all")
  case True
  then have "map_of all k \<noteq> None" by (simp add: map_of_eq_None_iff)
  then obtain v where "map_of all k = Some v" by blast
  with True show ?thesis by (simp add: merge_first_def map_of_foldl_js_assign)
next
  case False
  then have "map_of all k = None" by (simp add: map_of_eq_None_iff)
  with False show ?thesis by (simp add: merge_first_def map_of_foldl_js_assign)
qed

lemma keys_merge_first:
  "map fst (merge_first all) = filter (\<lambda>k. k \<noteq> ''__proto__'') (js_set_values (map fst all))"
  using keys_foldl_js_assign [of "js_set_values (map fst all)" "[]"]
  by (simp add: merge_first_def js_set_values_distinct)

lemma distinct_merge_first: "distinct (map fst (merge_first all))"
  by (simp add: keys_merge_first js_set_values_distinct)

lemma generate_core_json_Inr:
  assumes that: "generate_core_json infos k = Inr r"
  shows "\<exists>ess. traverse (dep_entries k) infos = Inr ess \<and> r = merge_first (concat ess)"
proof (cases "traverse (dep_entries k) infos")
  case (Inl e)
  with that show ?thesis by (simp add: generate_core_json_def)
next
  case (Inr ess)
  then have "generate_core_json infos k = Inr (merge_first (concat ess))"
    by (rule generate_core_json_entries)
  with that Inr show ?thesis by simp
qed


lemma dep_entries_obj:
  "package_json info = JObj fs \<Longrightarrow> map_of fs k = Some (JObj d) \<Longrightarrow> dep_entries k info = Inr d"
  by (simp add: dep_entries_def)

lemma generate_core_json_ok:
  "\<forall>info \<in> set infos. \<exists>es. dep_entries k info = Inr es \<Longrightarrow> \<exists>r. generate_core_json infos k = Inr r"
  by (blast dest: traverse_ok generate_core_json_entries)

lemma get_node_core_dependencies_json_ok:
  assumes "\<forall>info \<in> set infos. (\<exists>es. dep_entries ''dependencies'' info = Inr es) \<and>
                               (\<exists>es. dep_entries ''devDependencies'' info = Inr es)"
  shows "\<exists>d. get_node_core_dependencies_json infos = Inr d"
proof -
  obtain d1 where "generate_core_json infos ''dependencies'' = Inr d1"
    using assms generate_core_json_ok [of infos "''dependencies''"] by blast
  moreover obtain d2 where "generate_core_json infos ''devDependencies'' = Inr d2"
    using assms generate_core_json_ok [of infos "''devDependencies''"] by blast
  ultimately show ?thesis by (simp add: get_node_core_dependencies_json_def)
qed

subsection \<open>Failures of the merger\<close>

lemma dep_entries_Inl_obj:
  assumes that: "package_json info = JObj fs"
  shows "dep_entries k info = Inl e \<longleftrightarrow> e = TypeError ''Cannot convert undefined or null to object'' \<and> section_absent info k"
proof (cases "map_of fs k")
  case None
  with that show ?thesis by (auto simp: dep_entries_def section_absent_def)
next
  case (Some v)
  with that show ?thesis by (cases v) (auto simp: dep_entries_def section_absent_def)
qed

lemma generate_core_json_Inl:
  "generate_core_json infos k = Inl e \<longleftrightarrow> traverse (dep_entries k) infos = Inl e"
proof (cases "traverse (dep_entries k) infos")
  case (Inl e')
  then show ?thesis by (simp add: generate_core_json_def)
next
  case (Inr ess)
  then show ?thesis by (simp add: generate_core_json_entries)
qed

lemma generate_core_json_Inl_obj:
  assumes objs: "\<forall>info \<in> set infos. \<exists>fs. package_json info = JObj fs"
  shows "generate_core_json infos k = Inl e \<longleftrightarrow>
           e = TypeError ''Cannot convert undefined or null to object'' \<and> (\<exists>info \<in> set infos. section_absent info k)"
proof -
  let ?e0 = "TypeError ''Cannot convert undefined or null to object''"
  have each: "dep_entries k x = Inl e' \<longleftrightarrow> e' = ?e0 \<and> section_absent x k" if "x \<in> set infos" for x e'
  proof -
    from objs that obtain fs where "package_json x = JObj fs" by blast
    then show ?thesis by (rule dep_entries_Inl_obj)
  qed
  then have "\<forall>x \<in> set infos. \<forall>e'. dep_entries k x = Inl e' \<longrightarrow> e' = ?e0"
    and "(\<exists>x \<in> set infos. dep_entries k x = Inl ?e0) \<longleftrightarrow> (\<exists>x \<in> set infos. section_absent x k)"
    by auto
  then show ?thesis
    by (simp add: generate_core_json_Inl traverse_Inl_same_error)
qed

subsection \<open>Properties of the merger\<close>

lemma get_os_package_list_Inr_eq:
  assumes "get_os_package_list infos = Inr ps"
  shows "ps = js_set_values (concat (map (\<lambda>info. os_section_lines (file_content info)) infos))"
proof -
  from assms obtain lss where t: "traverse (\<lambda>info. os_package_lines (file_content info)) infos = Inr lss"
    and ps: "ps = js_set_values (concat lss)"
    by (auto simp: get_os_package_list_def ebind_def split: sum.splits)
  from t have "lss = map (\<lambda>info. os_section_lines (file_content info)) infos"
    by (induction infos arbitrary: lss)
       (auto simp: ebind_def os_package_lines_by_tag os_section_lines_def
             split: sum.splits option.splits)
  with ps show ?thesis by simp
qed

lemma js_set_values_first_occurrence:
  "x \<notin> set pre \<Longrightarrow> \<exists>rest. js_set_values (pre @ x # post) = js_set_values pre @ x # rest"
  using js_set_values_append [of pre "[x] @ post"] js_set_values_append [of "[x]" post]
  by (simp add: js_set_values_def)

text \<open>C2. A line shared by several descriptors is in the merged OS-package list exactly
  once, at the place of its first occurrence across the records in input order.\<close>

theorem os_package_first_occurrence:
  assumes "get_os_package_list infos = Inr ps"
    and "concat (map (\<lambda>info. os_section_lines (file_content info)) infos) = pre @ x # post"
    and "x \<notin> set pre"
  shows "count_list ps x = 1 \<and> take (Suc (length (js_set_values pre))) ps = js_set_values pre @ [x]"
proof -
  have ps: "ps = js_set_values (pre @ x # post)"
    using get_os_package_list_Inr_eq [OF assms(1)] assms(2) by simp
  obtain rest where "ps = js_set_values pre @ x # rest"
    using js_set_values_first_occurrence [OF assms(3)] ps by blast
  moreover have "count_list ps x = 1"
    using ps by (simp add: distinct_count_list_1 js_set_values_distinct)
  ultimately show ?thesis by simp
qed

definition scenario_a :: docker_info where
  "scenario_a = \<lparr>file_content = ''## os package\<newline>vim\<newline>curl\<newline>'',
     file_path = ''/p/a/Dockerfile'', folder_path = ''/p/a/''\<rparr>"

definition scenario_b :: docker_info where
  "scenario_b = \<lparr>file_content = ''## os package\<newline>curl\<newline>git\<newline>'',
     file_path = ''/p/b/Dockerfile'', folder_path = ''/p/b/''\<rparr>"

theorem os_package_first_occurrence_witness:
  "get_os_package_list [scenario_a, scenario_b] = Inr [''vim'', ''curl'', ''git''] \<and>
   concat (map (\<lambda>info. os_section_lines (file_content info)) [scenario_a, scenario_b]) =
     [''vim''] @ ''curl'' # [''curl'', ''git''] \<and> ''curl'' \<notin> set [''vim''] \<and>
   count_list [''vim'', ''curl'', ''git''] ''curl'' = 1"
proof -
  have h1: "get_os_package_list [scenario_a, scenario_b] = Inr [''vim'', ''curl'', ''git'']"
    by code_simp
  have h2: "concat (map (\<lambda>info. os_section_lines (file_content info)) [scenario_a, scenario_b]) =
     [''vim''] @ ''curl'' # [''curl'', ''git'']"
    by code_simp
  have h3: "''curl'' \<notin> set [''vim'']" by simp
  from os_package_first_occurrence [OF h1 h2 h3] h1 h2 h3 show ?thesis by blast
qed

text \<open>C3. First-seen wins: when the first record (in input order) whose section declares
  the key \<open>key\<close> declares it with \<open>v\<close>, the merged section maps \<open>key\<close> to \<open>v\<close>,
  whatever later records declare (the key \<open>__proto__\<close> apart, which the assignment
  \<open>res[key] = value\<close> cannot create).\<close>

theorem generate_core_json_first_wins:
  assumes "generate_core_json infos k = Inr merged"
    and "i < length infos" and "dep_entries k (infos ! i) = Inr es" and "map_of es key = Some v"
    and "\<forall>j < i. \<forall>es'. dep_entries k (infos ! j) = Inr es' \<longrightarrow> map_of es' key = None"
    and "key \<noteq> ''__proto__''"
  shows "map_of merged key = Some v"
proof -
  from assms(1) obtain ess where t: "traverse (dep_entries k) infos = Inr ess"
    and m: "merged = merge_first (concat ess)"
    by (blast dest: generate_core_json_Inr)
  from t have len: "length ess = length infos"
    and nth: "\<forall>j < length infos. dep_entries k (infos ! j) = Inr (ess ! j)"
    by (auto dest: traverse_Inr_length traverse_Inr_nth)
  have "map_of (concat ess) key = Some v"
  proof (rule map_of_concat_first [of i])
    show "i < length ess" using assms(2) len by simp
    show "\<forall>j < i. map_of (ess ! j) key = None" using assms(2,5) nth by auto
    show "map_of (ess ! i) key = Some v" using assms(2,3,4) nth by auto
  qed
  with m assms(6) show ?thesis by (simp add: map_of_merge_first)
qed


definition manifest_a :: pkg_info where
  "manifest_a = with_package_json scenario_a
     (JObj [(''dependencies'', JObj [(''lodash'', JStr ''1.0.0'')]), (''devDependencies'', JObj [])])"

definition manifest_b :: pkg_info where
  "manifest_b = with_package_json scenario_b
     (JObj [(''dependencies'', JObj [(''lodash'', JStr ''2.0.0''), (''axios'', JStr ''0.9.0'')]),
            (''devDependencies'', JObj [])])"

theorem generate_core_json_first_wins_witness:
  "generate_core_json [manifest_a, manifest_b] ''dependencies'' =
     Inr [(''lodash'', JStr ''1.0.0''), (''axios'', JStr ''0.9.0'')] \<and>
   map_of [(''lodash'', JStr ''1.0.0''), (''axios'', JStr ''0.9.0'')] ''lodash'' = Some (JStr ''1.0.0'')"
proof -
  have h1: "generate_core_json [manifest_a, manifest_b] ''dependencies'' =
     Inr [(''lodash'', JStr ''1.0.0''), (''axios'', JStr ''0.9.0'')]" by code_simp
  have h2: "(0::nat) < length [manifest_a, manifest_b]" by simp
  have h3: "dep_entries ''dependencies'' ([manifest_a, manifest_b] ! 0) = Inr [(''lodash'', JStr ''1.0.0'')]"
    by code_simp
  have h4: "map_of [(''lodash'', JStr ''1.0.0'')] ''lodash'' = Some (JStr ''1.0.0'')" by simp
  have h5: "\<forall>j < (0::nat). \<forall>es'. dep_entries ''dependencies'' ([manifest_a, manifest_b] ! j) = Inr es' \<longrightarrow>
              map_of es' ''lodash'' = None" by simp
  have h6: "''lodash'' \<noteq> ''__proto__''" by simp
  from generate_core_json_first_wins [OF h1 h2 h3 h4 h5 h6] h1 show ?thesis by simp
qed

text \<open>C6. A manifest section is not optional: for manifests that are JSON objects,
  merging the dependency sections fails exactly when some manifest has no
  \<open>dependencies\<close> or no \<open>devDependencies\<close> section (or a \<open>null\<close> one), and then always
  with the \<open>TypeError\<close> of \<open>Object.keys(undefined)\<close>; a missing section is not read as
  an empty one.\<close>

theorem missing_section_throws:
  assumes objs: "\<forall>info \<in> set infos. \<exists>fs. package_json info = JObj fs"
  shows "get_node_core_dependencies_json infos = Inl e \<longleftrightarrow>
           e = TypeError ''Cannot convert undefined or null to object'' \<and>
           (\<exists>info \<in> set infos. section_absent info ''dependencies'' \<or> section_absent info ''devDependencies'')"
proof -
  note D = generate_core_json_Inl_obj [OF objs, of "''dependencies''"]
  note V = generate_core_json_Inl_obj [OF objs, of "''devDependencies''"]
  show ?thesis
  proof (cases "generate_core_json infos ''dependencies''")
    case (Inl e1)
    with D [of e1] show ?thesis by (auto simp: get_node_core_dependencies_json_def)
  next
    case (Inr d)
    then have "\<not> (\<exists>info \<in> set infos. section_absent info ''dependencies'')"
      using D by auto
    moreover have "get_node_core_dependencies_json infos = Inl e \<longleftrightarrow> generate_core_json infos ''devDependencies'' = Inl e"
      using Inr by (cases "generate_core_json infos ''devDependencies''") (simp_all add: get_node_core_dependencies_json_def)
    ultimately show ?thesis using V by auto
  qed
qed

theorem missing_section_throws_witness:
  "get_node_core_dependencies_json
     [manifest_a, with_package_json scenario_b (JObj [(''dependencies'', JObj [(''axios'', JStr ''0.9.0'')])])] =
   Inl (TypeError ''Cannot convert undefined or null to object'')"
proof -
  let ?m = "with_package_json scenario_b (JObj [(''dependencies'', JObj [(''axios'', JStr ''0.9.0'')])])"
  have h: "\<forall>info \<in> set [manifest_a, ?m]. \<exists>fs. package_json info = JObj fs"
    by (simp add: manifest_a_def with_package_json_def)
  have a: "section_absent ?m ''devDependencies''"
    by (simp add: section_absent_def with_package_json_def)
  show ?thesis
    using missing_section_throws [OF h, of "TypeError ''Cannot convert undefined or null to object''"] a
    by auto
qed

end
