(* ===== verification/Synthesizers.thy ===== *)
theory Synthesizers
  imports Dependency_Merger
begin

text \<open>
  The core and overlay synthesizers of \<open>src/main.js\<close>. \<open>getBaseImage\<close> (lines 69--74)
  takes the first line containing \<open>FROM\<close> of the first descriptor.
  \<open>generatePengCoreImage\<close> (lines 114--134) composes the core descriptor from the image
  name, that line, the workdir section of the first descriptor, the merged OS packages
  and a fixed install stanza, and writes it to \<open>dockerFilePath/Dockerfile\<close>.
  \<open>generatePengCorePackageJson\<close> (lines 99--108) spreads the merged dependency sections
  over the first manifest and writes it with \<open>JSON.stringify(_, null, 4)\<close>.
  \<open>generateWaleAppImage\<close> (lines 139--168) derives, for every record, an overlay
  descriptor \<open>FROM core\<close> followed by the record's own workdir and working sections,
  the image name \<open>wale/\<close> plus the directory name read from the path split at
  backslashes, and writes all overlays at once.
\<close>

subsection \<open>\<open>getBaseImage\<close>\<close>

definition get_base_image :: "'a docker_info_scheme list \<Rightarrow> js_error + string option" where
  "get_base_image infos =
     (case infos of
        [] \<Rightarrow> Inl (TypeError ''Cannot destructure property fileContent of undefined'')
      | first # _ \<Rightarrow> Inr (find (\<lambda>c. sublist ''FROM'' c) (js_split ''\<newline>'' (file_content first))))"

subsection \<open>\<open>generatePengCoreImage\<close>\<close>

definition install_stanza :: string where
  "install_stanza = ''# install package\<newline>RUN n 10.13\<newline>COPY ./package*.json ./\<newline>RUN npm install''"

definition core_image_content :: "string \<Rightarrow> string list \<Rightarrow> string option \<Rightarrow> string option \<Rightarrow> string" where
  "core_image_content image_name os_list base_image workdir =
     (let os_content = foldl (\<lambda>res c. res @ c @ ''\<newline>'') [] os_list;
          form_str = ''#'' @ image_name @ ''\<newline>'' @ js_str base_image @ ''\<newline>'';
          workdir_str = ''# workdir'' @ js_str workdir;
          os_str = ''# os package\<newline>'' @ os_content
      in form_str @ workdir_str @ os_str @ install_stanza)"

definition first_workdir :: "'a docker_info_scheme list \<Rightarrow> js_error + string option" where
  "first_workdir infos =
     (case infos of
        [] \<Rightarrow> Inl (TypeError ''Cannot read properties of undefined (reading fileContent)'')
      | first # _ \<Rightarrow> Inr (get_content_by_tag ''workdir'' (file_content first)))"

definition generate_peng_core_image ::
  "path \<Rightarrow> string \<Rightarrow> 'a docker_info_scheme list \<Rightarrow> 'a docker_info_scheme list io" where
  "generate_peng_core_image docker_file_path image_name infos =
     io_bind (io_lift (get_os_package_list infos)) (\<lambda>os_list.
     io_bind (io_lift (get_base_image infos)) (\<lambda>base.
     io_bind (io_lift (first_workdir infos)) (\<lambda>workdir.
     io_bind (write_file (docker_file_path @ ''/Dockerfile'')
                (core_image_content image_name os_list base workdir))
       (\<lambda>_. io_return infos))))"

subsection \<open>\<open>generatePengCorePackageJson\<close>\<close>

definition core_package_json ::
  "json \<Rightarrow> (string \<times> json) list \<times> (string \<times> json) list \<Rightarrow> (string \<times> json) list" where
  "core_package_json template deps =
     js_spread (own_entries template)
       [(''dependencies'', JObj (fst deps)), (''devDependencies'', JObj (snd deps))]"

definition first_package_json :: "'a pkg_info_scheme list \<Rightarrow> js_error + json" where
  "first_package_json infos =
     (case infos of
        [] \<Rightarrow> Inl (TypeError ''Cannot read properties of undefined (reading packageJson)'')
      | first # _ \<Rightarrow> Inr (package_json first))"

definition generate_peng_core_package_json ::
  "path \<Rightarrow> 'a pkg_info_scheme list \<Rightarrow> 'a pkg_info_scheme list io" where
  "generate_peng_core_package_json core_file_path infos =
     io_bind (io_lift (get_node_core_dependencies_json infos)) (\<lambda>deps.
     io_bind (io_lift (first_package_json infos)) (\<lambda>template.
     io_bind (write_file (core_file_path @ ''/package.json'')
                (json_stringify4 (JObj (core_package_json template deps))))
       (\<lambda>_. io_return infos)))"

subsection \<open>\<open>generateWaleAppImage\<close>\<close>

text \<open>The fields \<open>generateWaleAppImage\<close> adds to each record with \<open>{...info, ...}\<close>.\<close>

record wale_ext =
  wale_image_path :: path
  wale_image_content :: string
  wale_image_name :: string
  wale_docker_file_name :: string

definition get_app_image_from_core :: "string \<Rightarrow> string \<Rightarrow> string" where
  "get_app_image_from_core core_image_name content =
     ''FROM '' @ core_image_name @ ''\<newline>'' @ js_str (get_content_by_tag ''workdir'' content)
       @ ''\<newline>'' @ js_str (get_content_by_tag ''working'' content)"

text \<open>\<open>pathLevel = filePath.split('\\')\<close>; \<open>pathLevel[pathLevel.length - 2]\<close>.\<close>

definition wale_image_name_of :: "path \<Rightarrow> string" where
  "wale_image_name_of fp =
     (let path_level = js_split [CHR 0x5C] fp
      in ''wale/'' @ js_str (js_nth path_level (int (length path_level) - 2)))"

definition wale_ext_of :: "string \<Rightarrow> 'a docker_info_scheme \<Rightarrow> wale_ext" where
  "wale_ext_of core_image_name info =
     \<lparr>wale_image_path = folder_path info @ ''WaleDockerfile'',
      wale_image_content = get_app_image_from_core core_image_name (file_content info),
      wale_image_name = wale_image_name_of (file_path info),
      wale_docker_file_name = ''WaleDockerfile''\<rparr>"

definition generate_wale_app_image ::
  "string \<Rightarrow> 'a docker_info_scheme list \<Rightarrow> ('a docker_info_scheme \<times> wale_ext) list io" where
  "generate_wale_app_image core_image_name infos =
     (let new_info_list = map (\<lambda>info. (info, wale_ext_of core_image_name info)) infos
      in io_bind (write_all (map (\<lambda>ie. (wale_image_path (snd ie), wale_image_content (snd ie))) new_info_list))
           (\<lambda>_. io_return new_info_list))"


subsection \<open>Lines of composed text\<close>

lemma first_line: "CHR ''\<newline>'' \<notin> set a \<Longrightarrow> hd (js_split ''\<newline>'' (a @ ''\<newline>'' @ b)) = a"
  by (simp add: js_split_char_sep)

lemma js_str_find_line_no_newline:
  "CHR ''\<newline>'' \<notin> set (js_str (find P (js_split ''\<newline>'' s)))"
proof (cases "find P (js_split ''\<newline>'' s)")
  case None
  then show ?thesis by simp
next
  case (Some l)
  then have "l \<in> set (js_split ''\<newline>'' s)" by (auto simp: find_Some_iff)
  then have "\<not> sublist ''\<newline>'' l" by (simp add: js_split_no_sep)
  with Some show ?thesis by (simp add: sublist_singleton)
qed

subsection \<open>The overlays\<close>

lemma get_app_image_from_core_first_line:
  "CHR ''\<newline>'' \<notin> set core \<Longrightarrow>
   hd (js_split ''\<newline>'' (get_app_image_from_core core content)) = ''FROM '' @ core"
  using first_line [of "''FROM '' @ core"] by (simp add: get_app_image_from_core_def)

definition overlay_writes :: "string \<Rightarrow> 'a docker_info_scheme list \<Rightarrow> (path \<times> string) list" where
  "overlay_writes core infos =
     map (\<lambda>info. (folder_path info @ ''WaleDockerfile'', get_app_image_from_core core (file_content info))) infos"

lemma generate_wale_app_image_eq:
  "generate_wale_app_image core infos w =
     (case write_all (overlay_writes core infos) w of
        (Inl e, w') \<Rightarrow> (Inl e, w')
      | (Inr _, w') \<Rightarrow> (Inr (map (\<lambda>info. (info, wale_ext_of core info)) infos), w'))"
  by (simp add: generate_wale_app_image_def overlay_writes_def io_bind_def io_return_def
      wale_ext_of_def comp_def split: prod.splits sum.splits)


lemma distinct_overlay_paths:
  "distinct (map folder_path infos) \<Longrightarrow> distinct (map fst (overlay_writes core infos))"
  by (simp add: overlay_writes_def distinct_map inj_on_def comp_def)

text \<open>C1. Every overlay descriptor that \<open>generateWaleAppImage\<close> derives and writes starts
  with the line \<open>FROM\<close> and the exact core image name it was given, for every project,
  and is the text written at the overlay's path (projects in distinct folders).\<close>

theorem overlay_declares_core:
  assumes "CHR ''\<newline>'' \<notin> set core" and "distinct (map folder_path infos)"
    and "generate_wale_app_image core infos w = (Inr new, w')"
  shows "map fst new = infos \<and>
         (\<forall>ie \<in> set new. hd (js_split ''\<newline>'' (wale_image_content (snd ie))) = ''FROM '' @ core \<and>
                        files w' (wale_image_path (snd ie)) = Some (wale_image_content (snd ie)))"
proof -
  obtain u where wr: "write_all (overlay_writes core infos) w = (Inr u, w')"
    and new: "new = map (\<lambda>info. (info, wale_ext_of core info)) infos"
    using assms(3) by (auto simp: generate_wale_app_image_eq split: prod.splits sum.splits)
  have "files w' (wale_image_path (snd ie)) = Some (wale_image_content (snd ie))" if "ie \<in> set new" for ie
  proof -
    from that new obtain info where "info \<in> set infos" and ie: "ie = (info, wale_ext_of core info)" by auto
    then have "(wale_image_path (snd ie), wale_image_content (snd ie)) \<in> set (overlay_writes core infos)"
      by (auto simp: overlay_writes_def wale_ext_of_def)
    with wr distinct_overlay_paths [OF assms(2)] show ?thesis by (rule write_all_Inr_files)
  qed
  moreover have "hd (js_split ''\<newline>'' (wale_image_content (snd ie))) = ''FROM '' @ core" if "ie \<in> set new" for ie
    using that new assms(1) by (auto simp: wale_ext_of_def get_app_image_from_core_first_line)
  ultimately show ?thesis using new by (simp add: comp_def)
qed

definition overlay_example :: docker_info where
  "overlay_example = \<lparr>file_content =
       ''FROM node:10\<newline>## workdir\<newline>WORKDIR /app\<newline>## os package\<newline>vim\<newline>## working\<newline>COPY . .\<newline>'',
     file_path = ''/p/c/Dockerfile'', folder_path = ''/p/c/''\<rparr>"

theorem overlay_declares_core_witness:
  "generate_wale_app_image ''peng/core'' [overlay_example] empty_world =
     (Inr [(overlay_example, wale_ext_of ''peng/core'' overlay_example)],
      snd (generate_wale_app_image ''peng/core'' [overlay_example] empty_world)) \<and>
   hd (js_split ''\<newline>'' (wale_image_content (wale_ext_of ''peng/core'' overlay_example))) = ''FROM peng/core''"
proof -
  have h1: "CHR ''\<newline>'' \<notin> set ''peng/core''" by simp
  have h2: "distinct (map folder_path [overlay_example])" by simp
  have h3: "generate_wale_app_image ''peng/core'' [overlay_example] empty_world =
     (Inr [(overlay_example, wale_ext_of ''peng/core'' overlay_example)],
      snd (generate_wale_app_image ''peng/core'' [overlay_example] empty_world))"
    by (simp add: generate_wale_app_image_eq overlay_writes_def write_all_def empty_world_def)
  from overlay_declares_core [OF h1 h2 h3] h3 show ?thesis by simp
qed

subsection \<open>The core descriptor\<close>

lemma generate_peng_core_image_Inr:
  assumes "generate_peng_core_image dir name (first # rest) w = (Inr r, w')"
  shows "\<exists>os. get_os_package_list (first # rest) = Inr os \<and> r = first # rest \<and>
           files w' (dir @ ''/Dockerfile'') =
             Some (core_image_content name os
                     (find (\<lambda>c. sublist ''FROM'' c) (js_split ''\<newline>'' (file_content first)))
                     (get_content_by_tag ''workdir'' (file_content first)))"
  using assms
  by (cases "get_os_package_list (first # rest)")
     (auto simp: generate_peng_core_image_def io_bind_eq_Inr get_base_image_def first_workdir_def
        dest: write_file_Inr_files)

lemma generate_peng_core_image_ok:
  assumes "infos \<noteq> []"
    and "\<forall>info \<in> set infos. get_content_by_tag ''os package'' (file_content info) \<noteq> None"
    and "\<not> write_fails w (dir @ ''/Dockerfile'')"
  shows "fst (generate_peng_core_image dir name infos w) = Inr infos"
proof -
  obtain first rest where i: "infos = first # rest" using assms(1) by (cases infos) auto
  let ?c = "core_image_content name (js_set_values (concat (map (\<lambda>info. os_section_lines (file_content info)) infos)))
              (find (\<lambda>c. sublist ''FROM'' c) (js_split ''\<newline>'' (file_content first)))
              (get_content_by_tag ''workdir'' (file_content first))"
  obtain w' where "write_file (dir @ ''/Dockerfile'') ?c w = (Inr (), w')"
    using write_file_ok [OF assms(3)] by blast
  then show ?thesis using get_os_package_list_ok [OF assms(2)]
    by (simp add: i generate_peng_core_image_def get_base_image_def first_workdir_def)
qed

lemma generate_peng_core_package_json_Inr:
  "generate_peng_core_package_json dir infos w = (Inr r, w') \<Longrightarrow> r = infos"
  by (auto simp: generate_peng_core_package_json_def io_bind_eq_Inr)

lemma generate_peng_core_package_json_ok:
  assumes "infos \<noteq> []" and "get_node_core_dependencies_json infos = Inr d"
    and "\<not> write_fails w (dir @ ''/package.json'')"
  shows "fst (generate_peng_core_package_json dir infos w) = Inr infos"
proof -
  obtain first rest where i: "infos = first # rest" using assms(1) by (cases infos) auto
  obtain w' where "write_file (dir @ ''/package.json'') (json_stringify4 (JObj (core_package_json (package_json first) d))) w = (Inr (), w')"
    using write_file_ok [OF assms(3)] by blast
  then show ?thesis using assms(2)
    by (simp add: i generate_peng_core_package_json_def first_package_json_def)
qed

lemma generate_peng_core_image_Inl:
  "generate_peng_core_image dir name infos w = (Inl e, w') \<Longrightarrow> w' = w"
  by (auto simp: generate_peng_core_image_def io_bind_eq_Inl dest: write_file_Inl)

lemma generate_peng_core_package_json_Inl:
  assumes "generate_peng_core_package_json dir infos w = (Inl e, w')" and "infos \<noteq> []"
  shows "w' = w \<and> (get_node_core_dependencies_json infos = Inl e \<or> e = WriteError (dir @ ''/package.json''))"
  using assms
  by (cases infos) (auto simp: generate_peng_core_package_json_def io_bind_eq_Inl first_package_json_def
        dest: write_file_Inl)

lemma js_split_two_lines:
  "CHR ''\<newline>'' \<notin> set a \<Longrightarrow> CHR ''\<newline>'' \<notin> set b \<Longrightarrow>
   js_nth (js_split ''\<newline>'' (a @ ''\<newline>'' @ b @ ''\<newline>'' @ c)) 0 = Some a \<and>
   js_nth (js_split ''\<newline>'' (a @ ''\<newline>'' @ b @ ''\<newline>'' @ c)) 1 = Some b"
  by (simp add: js_split_char_sep)

lemma core_image_content_lines:
  assumes "CHR ''\<newline>'' \<notin> set name"
  shows "js_nth (js_split ''\<newline>'' (core_image_content name os (find (\<lambda>l. sublist ''FROM'' l) (js_split ''\<newline>'' t)) wd)) 0 =
           Some (''#'' @ name) \<and>
         js_nth (js_split ''\<newline>'' (core_image_content name os (find (\<lambda>l. sublist ''FROM'' l) (js_split ''\<newline>'' t)) wd)) 1 =
           Some (js_str (find (\<lambda>l. sublist ''FROM'' l) (js_split ''\<newline>'' t)))"
proof -
  let ?base = "js_str (find (\<lambda>l. sublist ''FROM'' l) (js_split ''\<newline>'' t))"
  have "CHR ''\<newline>'' \<notin> set (''#'' @ name)" using assms by simp
  moreover have "CHR ''\<newline>'' \<notin> set ?base" by (rule js_str_find_line_no_newline)
  ultimately show ?thesis
    using js_split_two_lines [of "''#'' @ name" ?base] by (simp add: core_image_content_def Let_def)
qed

text \<open>C4. The core descriptor written from a non-empty record list has the image name
  as its first line and, as its second line, the first line containing \<open>FROM\<close> of the
  first record's descriptor; the other records' descriptors play no part in it.\<close>

theorem core_declares_first_base_image:
  assumes "CHR ''\<newline>'' \<notin> set name"
    and "fst (generate_peng_core_image dir name (first # rest) w) = Inr r"
  shows "\<exists>c. files (snd (generate_peng_core_image dir name (first # rest) w)) (dir @ ''/Dockerfile'') = Some c \<and>
             js_nth (js_split ''\<newline>'' c) 0 = Some (''#'' @ name) \<and>
             js_nth (js_split ''\<newline>'' c) 1 =
               Some (js_str (find (\<lambda>l. sublist ''FROM'' l) (js_split ''\<newline>'' (file_content first))))"
proof -
  let ?w' = "snd (generate_peng_core_image dir name (first # rest) w)"
  have run: "generate_peng_core_image dir name (first # rest) w = (Inr r, ?w')"
    using assms(2) by (metis prod.collapse)
  obtain os where f: "files ?w' (dir @ ''/Dockerfile'') =
      Some (core_image_content name os
             (find (\<lambda>c. sublist ''FROM'' c) (js_split ''\<newline>'' (file_content first)))
             (get_content_by_tag ''workdir'' (file_content first)))"
    using generate_peng_core_image_Inr [OF run] by blast
  then show ?thesis using core_image_content_lines [OF assms(1)] by auto
qed

theorem core_declares_first_base_image_witness:
  "fst (generate_peng_core_image ''/core'' ''peng/core'' [overlay_example, scenario_a] empty_world) =
     Inr [overlay_example, scenario_a] \<and>
   (\<exists>c. files (snd (generate_peng_core_image ''/core'' ''peng/core'' [overlay_example, scenario_a] empty_world))
          (''/core'' @ ''/Dockerfile'') = Some c \<and>
        js_nth (js_split ''\<newline>'' c) 1 = Some ''FROM node:10'')"
proof -
  have h1: "CHR ''\<newline>'' \<notin> set ''peng/core''" by simp
  have h2: "fst (generate_peng_core_image ''/core'' ''peng/core'' [overlay_example, scenario_a] empty_world) =
     Inr [overlay_example, scenario_a]"
    by code_simp
  have h3: "js_str (find (\<lambda>l. sublist ''FROM'' l) (js_split ''\<newline>'' (file_content overlay_example))) = ''FROM node:10''"
    by code_simp
  have "\<exists>c. files (snd (generate_peng_core_image ''/core'' ''peng/core'' [overlay_example, scenario_a] empty_world))
          (''/core'' @ ''/Dockerfile'') = Some c \<and> js_nth (js_split ''\<newline>'' c) 1 = Some ''FROM node:10''"
    using core_declares_first_base_image [OF h1 h2] unfolding h3 by blast
  with h2 show ?thesis by blast
qed

text \<open>C5. With no record, \<open>generatePengCoreImage\<close> throws the \<open>TypeError\<close> of
  destructuring \<open>undefined\<close> in \<open>getBaseImage\<close> and writes no file.\<close>

theorem core_image_no_projects:
  "generate_peng_core_image dir name [] w =
     (Inl (TypeError ''Cannot destructure property fileContent of undefined''), w)"
  by (simp add: generate_peng_core_image_def get_os_package_list_def get_base_image_def io_bind_def)


subsection \<open>Sections of the overlay\<close>

text \<open>C8. An overlay repeats the working section. In a descriptor whose \<open>## workdir\<close>
  section is followed by its \<open>## working\<close> section, each marker occurring once, the
  workdir section that \<open>getContentByTag\<close> returns runs to the end of the text, through
  the working marker and section, so the overlay is \<open>FROM core\<close>, the workdir
  section, the working marker and section, and then the working section a second
  time. The specification ends a section at the next marker.\<close>

theorem overlay_repeats_working_section:
  assumes "\<not> sublist (tag_marker ''workdir'') (pre @ butlast (tag_marker ''workdir''))"
    and "\<not> sublist (tag_marker ''workdir'') (wd @ tag_marker ''working'' @ wk)"
    and "\<not> sublist (tag_marker ''working'') (pre @ tag_marker ''workdir'' @ wd @ butlast (tag_marker ''working''))"
    and "\<not> sublist (tag_marker ''working'') wk"
  shows "get_app_image_from_core core (pre @ tag_marker ''workdir'' @ wd @ tag_marker ''working'' @ wk) =
           ''FROM '' @ core @ ''\<newline>'' @ wd @ tag_marker ''working'' @ wk @ ''\<newline>'' @ wk"
proof -
  have d: "get_content_by_tag ''workdir'' (pre @ tag_marker ''workdir'' @ wd @ tag_marker ''working'' @ wk) =
             Some (wd @ tag_marker ''working'' @ wk)"
    using assms(1,2) by (simp add: get_content_by_tag_first_piece js_split_no_match)
  have "get_content_by_tag ''working'' ((pre @ tag_marker ''workdir'' @ wd) @ tag_marker ''working'' @ wk) = Some wk"
    using get_content_by_tag_first_piece [of "''working''" "pre @ tag_marker ''workdir'' @ wd" wk] assms(3,4)
    by (simp add: js_split_no_match)
  with d show ?thesis by (simp add: get_app_image_from_core_def)
qed

theorem overlay_repeats_working_section_witness:
  "get_app_image_from_core ''peng/core''
     (''FROM node\<newline>'' @ tag_marker ''workdir'' @ ''\<newline>WORKDIR /app\<newline>'' @ tag_marker ''working'' @ ''\<newline>RUN npm start\<newline>'') =
   ''FROM peng/core\<newline>\<newline>WORKDIR /app\<newline>## working\<newline>RUN npm start\<newline>\<newline>\<newline>RUN npm start\<newline>''"
proof -
  have h1: "\<not> sublist (tag_marker ''workdir'') (''FROM node\<newline>'' @ butlast (tag_marker ''workdir''))"
    by code_simp
  have h2: "\<not> sublist (tag_marker ''workdir'') (''\<newline>WORKDIR /app\<newline>'' @ tag_marker ''working'' @ ''\<newline>RUN npm start\<newline>'')"
    by code_simp
  have h3: "\<not> sublist (tag_marker ''working'')
     (''FROM node\<newline>'' @ tag_marker ''workdir'' @ ''\<newline>WORKDIR /app\<newline>'' @ butlast (tag_marker ''working''))"
    by code_simp
  have h4: "\<not> sublist (tag_marker ''working'') ''\<newline>RUN npm start\<newline>''"
    by code_simp
  from overlay_repeats_working_section [OF h1 h2 h3 h4, of "''peng/core''"] show ?thesis
    by (simp add: tag_marker_def)
qed

subsection \<open>Overlay image names\<close>

text \<open>C9. On Windows, where \<open>path.join\<close> separates with backslashes, the image name
  of a descriptor at \<open>root\dir\Dockerfile\<close> is \<open>wale/dir\<close>.\<close>

theorem wale_image_name_win32:
  assumes "CHR 0x5C \<notin> set dir"
  shows "wale_image_name_of (root @ CHR 0x5C # dir @ CHR 0x5C # ''Dockerfile'') = ''wale/'' @ dir"
proof -
  have d: "js_split [CHR 0x5C] dir = [dir]" and f: "js_split [CHR 0x5C] ''Dockerfile'' = [''Dockerfile'']"
    using assms by (simp_all add: js_split_no_match sublist_singleton)
  let ?L = "length (js_split [CHR 0x5C] root)"
  have "js_split [CHR 0x5C] (root @ CHR 0x5C # dir @ CHR 0x5C # ''Dockerfile'') =
          js_split [CHR 0x5C] root @ [dir, ''Dockerfile'']"
    using d f by (simp add: js_split_char_append)
  moreover have "js_nth (js_split [CHR 0x5C] root @ [dir, ''Dockerfile'']) (int ?L) = Some dir"
    by (simp add: js_nth_def nth_append)
  ultimately show ?thesis by (simp add: wale_image_name_of_def)
qed

theorem wale_image_name_win32_witness:
  "wale_image_name_of (''E:'' @ CHR 0x5C # ''work'' @ CHR 0x5C # ''app'' @ CHR 0x5C # ''Dockerfile'') = ''wale/app''"
proof -
  have "CHR 0x5C \<notin> set ''app''" by simp
  from wale_image_name_win32 [OF this, of "''E:'' @ CHR 0x5C # ''work''"] show ?thesis by simp
qed

text \<open>Without a backslash in the path, as \<open>path.join\<close> builds it on POSIX systems, the
  directory name is read at index \<open>-1\<close>, and the name is \<open>wale/undefined\<close>.\<close>

lemma wale_image_name_posix_undefined:
  assumes "CHR 0x5C \<notin> set fp"
  shows "wale_image_name_of fp = ''wale/undefined''"
  using assms by (simp add: wale_image_name_of_def js_split_no_match sublist_singleton js_nth_def)



subsection \<open>The overlay writes are not atomic\<close>

lemma generate_wale_app_image_world:
  "snd (generate_wale_app_image core infos w) = foldl apply_write w (overlay_writes core infos)"
  by (simp add: generate_wale_app_image_eq write_all_world [symmetric] split: prod.splits sum.splits)

lemma generate_wale_app_image_result:
  "fst (generate_wale_app_image core infos w) = Inr (map (\<lambda>i. (i, wale_ext_of core i)) infos) \<longleftrightarrow>
   (\<forall>i \<in> set infos. \<not> write_fails w (folder_path i @ ''WaleDockerfile''))"
  using write_all_Inr_iff [of "overlay_writes core infos" w]
  by (auto simp: generate_wale_app_image_eq overlay_writes_def split: prod.splits sum.splits)

text \<open>C16. \<open>Promise.all\<close> over the overlay writes is not all-or-nothing: the pipeline
  goes on only when every overlay is written, but a project whose overlay path accepts the
  write gets its overlay even when the write of another project fails and the whole step
  rejects.\<close>

theorem overlay_writes_not_atomic:
  assumes "distinct (map folder_path infos)" and "info \<in> set infos"
    and "\<not> write_fails w (folder_path info @ ''WaleDockerfile'')"
  shows "files (snd (generate_wale_app_image core infos w)) (folder_path info @ ''WaleDockerfile'') =
           Some (get_app_image_from_core core (file_content info)) \<and>
         (fst (generate_wale_app_image core infos w) = Inr (map (\<lambda>i. (i, wale_ext_of core i)) infos) \<longleftrightarrow>
           (\<forall>i \<in> set infos. \<not> write_fails w (folder_path i @ ''WaleDockerfile'')))"
proof -
  have "(folder_path info @ ''WaleDockerfile'', get_app_image_from_core core (file_content info))
          \<in> set (overlay_writes core infos)"
    using assms(2) by (auto simp: overlay_writes_def)
  then have "files (foldl apply_write w (overlay_writes core infos)) (folder_path info @ ''WaleDockerfile'') =
               Some (get_app_image_from_core core (file_content info))"
    using distinct_overlay_paths [OF assms(1)] assms(3) by (simp add: files_foldl_apply_write_mem)
  then show ?thesis by (simp add: generate_wale_app_image_world generate_wale_app_image_result)
qed

definition overlay_fail_world :: world where
  "overlay_fail_world = empty_world\<lparr>write_fails := (\<lambda>p. p = ''/p/b/WaleDockerfile'')\<rparr>"

theorem overlay_writes_not_atomic_witness:
  "fst (generate_wale_app_image ''peng/core'' [scenario_a, scenario_b] overlay_fail_world) =
     Inl (WriteError ''/p/b/WaleDockerfile'') \<and>
   files (snd (generate_wale_app_image ''peng/core'' [scenario_a, scenario_b] overlay_fail_world)) ''/p/a/WaleDockerfile'' =
     Some (get_app_image_from_core ''peng/core'' (file_content scenario_a))"
proof -
  have h: "distinct (map folder_path [scenario_a, scenario_b])" "scenario_a \<in> set [scenario_a, scenario_b]"
    "\<not> write_fails overlay_fail_world (folder_path scenario_a @ ''WaleDockerfile'')"
    by (simp_all add: scenario_a_def scenario_b_def overlay_fail_world_def empty_world_def)
  have "fst (generate_wale_app_image ''peng/core'' [scenario_a, scenario_b] overlay_fail_world) =
          Inl (WriteError ''/p/b/WaleDockerfile'')"
    by code_simp
  then show ?thesis using overlay_writes_not_atomic [OF h, of "''peng/core''"]
    by (simp add: scenario_a_def)
qed


subsection \<open>Lines of the core descriptor\<close>

lemma js_split_install_stanza:
  "js_split ''\<newline>'' install_stanza = [''# install package'', ''RUN n 10.13'', ''COPY ./package*.json ./'', ''RUN npm install'']"
  by code_simp

text \<open>C23. The core descriptor read back line by line: after the line that ends with the
  heading \<open># os package\<close> come the merged packages, one per line and in order, and then
  the four lines of the install stanza. The heading need not start its line: the workdir
  text is written with no line break after it (an absent workdir section gives
  \<open># workdirundefined# os package\<close>).\<close>

theorem core_descriptor_lists_packages:
  assumes "\<forall>p \<in> set ps. CHR ''\<newline>'' \<notin> set p"
  shows "\<exists>pre h. js_split ''\<newline>'' (core_image_content name ps base wd) =
                 pre @ (h @ ''# os package'') # ps @
                 [''# install package'', ''RUN n 10.13'', ''COPY ./package*.json ./'', ''RUN npm install'']"
proof -
  let ?a = "''#'' @ name @ ''\<newline>'' @ js_str base @ ''\<newline>'' @ ''# workdir'' @ js_str wd"
  have c: "core_image_content name ps base wd =
             (?a @ ''# os package'') @ CHR ''\<newline>'' # (concat (map (\<lambda>c. c @ ''\<newline>'') ps) @ install_stanza)"
    by (simp add: core_image_content_def foldl_append_lines Let_def)
  have "js_split ''\<newline>'' (core_image_content name ps base wd) =
          js_split ''\<newline>'' (?a @ ''# os package'') @ ps @
            [''# install package'', ''RUN n 10.13'', ''COPY ./package*.json ./'', ''RUN npm install'']"
    using assms by (simp only: c js_split_char_append js_split_lines js_split_install_stanza)
  also have "js_split ''\<newline>'' (?a @ ''# os package'') =
               butlast (js_split ''\<newline>'' ?a) @ [last (js_split ''\<newline>'' ?a) @ ''# os package'']"
    by (rule js_split_char_append_nosep) simp
  finally show ?thesis by auto
qed

theorem core_descriptor_lists_packages_witness:
  "\<exists>pre h. js_split ''\<newline>'' (core_image_content ''peng/core'' [''vim'', ''curl''] (Some ''FROM node:10'') None) =
     pre @ (h @ ''# os package'') # [''vim'', ''curl''] @
     [''# install package'', ''RUN n 10.13'', ''COPY ./package*.json ./'', ''RUN npm install'']"
proof -
  have "\<forall>p \<in> set [''vim'', ''curl'']. CHR ''\<newline>'' \<notin> set p" by simp
  then show ?thesis by (rule core_descriptor_lists_packages)
qed


end
