(* ===== verification/Build_Driver.thy ===== *)
theory Build_Driver
  imports Synthesizers
begin

text \<open>
  The build driver of \<open>src/main.js\<close>. \<open>runCmd\<close> (lines 11--14) runs a shell command
  with \<open>child_process.exec\<close>. \<open>buildWaleCoreImage\<close> (lines 170--178) runs the core
  \<open>docker build\<close> and \<open>docker image ls\<close> together and waits for both.
  \<open>buildWaleAppImage\<close> (lines 180--193) starts one \<open>docker build --no-cache\<close> per
  overlay record, but hands \<open>Promise.all\<close> an array of rxjs observables: they are not
  promises, so \<open>Promise.all\<close> fulfils at once with them, and neither the end nor the
  failure of any build is awaited or reported (a failed build is an unhandled rejection).
  The commands use \<open>&\<close> between \<open>cd\<close> and \<open>docker\<close>, as written.
\<close>

definition core_build_cmd :: "path \<Rightarrow> string \<Rightarrow> string" where
  "core_build_cmd docker_file_path image_name =
     ''cd '' @ docker_file_path @ '' & docker build -t '' @ image_name @ '' .''"

definition build_wale_core_image :: "path \<Rightarrow> string \<Rightarrow> unit io" where
  "build_wale_core_image docker_file_path image_name =
     run_cmds [core_build_cmd docker_file_path image_name, ''docker image ls'']"

definition app_build_cmd :: "'a docker_info_scheme \<Rightarrow> wale_ext \<Rightarrow> string" where
  "app_build_cmd info ext =
     ''cd '' @ folder_path info @ '' & docker build --no-cache -t '' @ wale_image_name ext
       @ '' -f '' @ wale_docker_file_name ext @ '' .''"

text \<open>
  Every command is started when \<open>infoList.map\<close> runs; the promise returned resolves to
  one (unsubscribed) observable per record, whatever the commands do.
\<close>

definition build_wale_app_image :: "('a docker_info_scheme \<times> wale_ext) list \<Rightarrow> unit list io" where
  "build_wale_app_image infos w =
     (Inr (map (\<lambda>_. ()) infos),
      w\<lparr>started := started w @ map (\<lambda>ie. app_build_cmd (fst ie) (snd ie)) infos\<rparr>)"

text \<open>A world in which the image listing fails and every other command succeeds.\<close>

definition ls_fails_world :: world where
  "ls_fails_world = empty_world\<lparr>cmd_ok := (\<lambda>c. c \<noteq> ''docker image ls'')\<rparr>"

subsection \<open>Properties\<close>

text \<open>\<open>buildWaleAppImage\<close> starts one build per overlay record, tagged with that
  record's image name and using its overlay file, and reports success whatever the
  builds do: even when every build fails, its result is a list of one value per record.\<close>

lemma build_wale_app_image_ignores_failures:
  "fst (build_wale_app_image infos w) = Inr (map (\<lambda>_. ()) infos) \<and>
   started (snd (build_wale_app_image infos w)) =
     started w @ map (\<lambda>ie. ''cd '' @ folder_path (fst ie) @ '' & docker build --no-cache -t ''
                           @ wale_image_name (snd ie) @ '' -f '' @ wale_docker_file_name (snd ie) @ '' .'') infos"
  by (simp add: build_wale_app_image_def app_build_cmd_def)

lemma build_wale_app_image_files [simp]: "files (snd (build_wale_app_image infos w)) = files w"
  by (simp add: build_wale_app_image_def)


text \<open>C24. \<open>buildWaleCoreImage\<close> starts both commands, the build and the listing, and
  waits for both: it succeeds exactly when both succeed, so a failing
  \<open>docker image ls\<close> makes the step fail even when the image was built, and a failure
  is reported as that of a command that failed. It writes no file.\<close>

theorem build_wale_core_image_outcome:
  "(fst (build_wale_core_image dir name w) = Inr () \<longleftrightarrow>
      cmd_ok w (core_build_cmd dir name) \<and> cmd_ok w ''docker image ls'') \<and>
   (\<forall>e. fst (build_wale_core_image dir name w) = Inl e \<longrightarrow>
      (\<not> cmd_ok w (core_build_cmd dir name) \<and> e = CommandFailed (core_build_cmd dir name)) \<or>
      (\<not> cmd_ok w ''docker image ls'' \<and> e = CommandFailed ''docker image ls'')) \<and>
   started (snd (build_wale_core_image dir name w)) =
     started w @ [''cd '' @ dir @ '' & docker build -t '' @ name @ '' .'', ''docker image ls''] \<and>
   files (snd (build_wale_core_image dir name w)) = files w"
proof (intro conjI allI impI)
  show "fst (build_wale_core_image dir name w) = Inr () \<longleftrightarrow>
      cmd_ok w (core_build_cmd dir name) \<and> cmd_ok w ''docker image ls''"
    by (simp add: build_wale_core_image_def run_cmds_Inr_iff)
next
  fix e assume "fst (build_wale_core_image dir name w) = Inl e"
  then show "(\<not> cmd_ok w (core_build_cmd dir name) \<and> e = CommandFailed (core_build_cmd dir name)) \<or>
      (\<not> cmd_ok w ''docker image ls'' \<and> e = CommandFailed ''docker image ls'')"
    unfolding build_wale_core_image_def by (auto dest: run_cmds_Inl)
qed (simp_all add: build_wale_core_image_def core_build_cmd_def)

theorem build_wale_core_image_outcome_witness:
  "fst (build_wale_core_image ''/core'' ''peng/core'' ls_fails_world) \<noteq> Inr () \<and>
   fst (build_wale_core_image ''/core'' ''peng/core'' ls_fails_world) = Inl (CommandFailed ''docker image ls'') \<and>
   files (snd (build_wale_core_image ''/core'' ''peng/core'' ls_fails_world)) = files ls_fails_world"
proof -
  have ok: "cmd_ok ls_fails_world (core_build_cmd ''/core'' ''peng/core'')" and
    ls: "\<not> cmd_ok ls_fails_world ''docker image ls''"
    by (simp_all add: ls_fails_world_def core_build_cmd_def)
  note outcome = build_wale_core_image_outcome [of "''/core''" "''peng/core''" ls_fails_world]
  have f: "fst (build_wale_core_image ''/core'' ''peng/core'' ls_fails_world) \<noteq> Inr ()"
    using outcome ls by blast
  have r: "fst (build_wale_core_image ''/core'' ''peng/core'' ls_fails_world) = Inl (CommandFailed ''docker image ls'')"
    using ok ls by (simp add: build_wale_core_image_def run_cmds_def)
  have "files (snd (build_wale_core_image ''/core'' ''peng/core'' ls_fails_world)) = files ls_fails_world"
    using outcome by blast
  with f r show ?thesis by blast
qed

end
