(* ===== verification/Pipeline.thy ===== *)
theory Pipeline
  imports Build_Driver
begin

text \<open>
  The pipeline \<open>PENG\<close> of \<open>src/main.js\<close> (lines 214--228): the configuration, the
  \<open>switchMap\<close> chain of the stages as a composition of \<open>io\<close> steps, example worlds
  for the witnesses, the well-formedness of a project directory, and the properties of
  the whole pipeline: its effects are confined to the core directory, a missing root
  fails with no effect, the records handed on keep their invariant, a well-formed set of
  projects is processed without an error, a failed run leaves the core files
  inconsistent, and the base image comes from the directory listed first.
\<close>

section \<open>The pipeline \<open>PENG\<close>\<close>

text \<open>
  \<open>of(PROJECTS_PATH).pipe(switchMap(...), ...)\<close>: each stage runs on the result of the
  one before; an error ends the chain. \<open>switchMap\<close> on the \<open>undefined\<close> that
  \<open>getAllDockerFilePath\<close> returns for a missing root throws rxjs's \<open>TypeError\<close>. The
  configuration (platform, root, core directory, core image name) is a parameter of
  \<open>peng_pipeline\<close>; \<open>peng\<close> fixes it to the constants of lines 216--218, the working
  directory being a parameter.
\<close>

definition peng_pipeline ::
  "platform \<Rightarrow> (string \<Rightarrow> json option) \<Rightarrow> path \<Rightarrow> path \<Rightarrow> string \<Rightarrow> pkg_info list io" where
  "peng_pipeline pl parse projects_path core_file_path core_image_name =
     io_bind (get_all_docker_file_path pl projects_path) (\<lambda>opt.
       case opt of
         None \<Rightarrow> io_lift (Inl (TypeError ''You provided undefined where a stream was expected''))
       | Some all_file_path \<Rightarrow>
           io_bind (get_all_docker_file_info all_file_path) (\<lambda>info_list.
           io_bind (get_all_package_json parse info_list) (\<lambda>info_list.
           io_bind (generate_peng_core_image core_file_path core_image_name info_list) (\<lambda>info_list.
           generate_peng_core_package_json core_file_path info_list))))"

definition peng :: "platform \<Rightarrow> (string \<Rightarrow> json option) \<Rightarrow> path \<Rightarrow> pkg_info list io" where
  "peng pl parse cwd = peng_pipeline pl parse ''E:/nutc-project/angular'' (cwd @ ''/peng'') ''peng/core''"

subsection \<open>A run of \<open>PENG\<close>\<close>

text \<open>Two projects under the fixed root, each with a descriptor and a manifest; the
  parser knows the two manifest texts.\<close>

definition peng_root :: path where
  "peng_root = ''E:/nutc-project/angular''"

definition peng_world :: world where
  "peng_world = empty_world\<lparr>
     dirs := [peng_root \<mapsto> [''a'', ''b'']],
     files := [peng_root @ ''/a/Dockerfile'' \<mapsto>
                 ''FROM node:10\<newline>## workdir\<newline>WORKDIR /app\<newline>## os package\<newline>vim\<newline>curl\<newline>'',
               peng_root @ ''/b/Dockerfile'' \<mapsto>
                 ''FROM node:12\<newline>## workdir\<newline>WORKDIR /srv\<newline>## os package\<newline>curl\<newline>git\<newline>'',
               peng_root @ ''/a//package.json'' \<mapsto> ''A'',
               peng_root @ ''/b//package.json'' \<mapsto> ''B'']\<rparr>"

definition peng_parse :: "string \<Rightarrow> json option" where
  "peng_parse s =
     (if s = ''A'' then Some (JObj [(''name'', JStr ''a''),
                                  (''dependencies'', JObj [(''lodash'', JStr ''1.0.0'')]),
                                  (''devDependencies'', JObj [])])
      else if s = ''B'' then Some (JObj [(''name'', JStr ''b''),
                                  (''dependencies'', JObj [(''lodash'', JStr ''2.0.0''), (''axios'', JStr ''0.9.0'')]),
                                  (''devDependencies'', JObj [(''jest'', JStr ''24.0.0'')])])
      else None)"

text \<open>The same two projects, but the second manifest has no \<open>devDependencies\<close>.\<close>

definition peng_parse_nodev :: "string \<Rightarrow> json option" where
  "peng_parse_nodev s =
     (if s = ''B'' then Some (JObj [(''name'', JStr ''b''),
                                  (''dependencies'', JObj [(''axios'', JStr ''0.9.0'')])])
      else peng_parse s)"

subsection \<open>Well-formed projects\<close>

text \<open>What \<open>PENG\<close> needs of a project directory \<open>n\<close> under the root: a readable
  \<open>Dockerfile\<close> with an \<open>## os package\<close> section, and a readable manifest that parses to
  an object whose \<open>dependencies\<close> and \<open>devDependencies\<close> are objects.\<close>

fun is_section :: "json option \<Rightarrow> bool" where
  "is_section (Some (JObj _)) = True"
| "is_section _ = False"

fun manifest_ok :: "json option \<Rightarrow> bool" where
  "manifest_ok (Some (JObj fs)) = (is_section (map_of fs ''dependencies'') \<and> is_section (map_of fs ''devDependencies''))"
| "manifest_ok _ = False"

definition project_ok :: "platform \<Rightarrow> (string \<Rightarrow> json option) \<Rightarrow> world \<Rightarrow> path \<Rightarrow> string \<Rightarrow> bool" where
  "project_ok pl parse w root n =
     (let p = path_join pl [root, n, ''Dockerfile''] in
      case files w p of
        None \<Rightarrow> False
      | Some c \<Rightarrow> get_content_by_tag ''os package'' c \<noteq> None \<and>
          (case files w (folder_path_of p @ ''/package.json'') of
             None \<Rightarrow> False
           | Some t \<Rightarrow> manifest_ok (parse t)))"

subsection \<open>Effects of the stages\<close>

lemma generate_peng_core_image_frame:
  "dir @ ''/Dockerfile'' \<in> S \<Longrightarrow> frame S w (snd (generate_peng_core_image dir name infos w))"
  unfolding generate_peng_core_image_def
  by (intro io_bind_frame write_file_frame_in io_lift_frame io_return_frame)

lemma generate_peng_core_package_json_frame:
  "dir @ ''/package.json'' \<in> S \<Longrightarrow> frame S w (snd (generate_peng_core_package_json dir infos w))"
  unfolding generate_peng_core_package_json_def
  by (intro io_bind_frame write_file_frame_in io_lift_frame io_return_frame)

lemma get_all_docker_file_path_frame: "frame S w (snd (get_all_docker_file_path pl root w))"
  by (simp add: get_all_docker_file_path_world)

lemma get_all_docker_file_info_frame: "frame S w (snd (get_all_docker_file_info ps w))"
  unfolding get_all_docker_file_info_def by (intro io_bind_frame read_all_frame io_return_frame)

lemma get_all_package_json_frame: "frame S w (snd (get_all_package_json parse infos w))"
  by (simp add: get_all_package_json_world)

lemma peng_pipeline_frame:
  "frame {core @ ''/Dockerfile'', core @ ''/package.json''} w (snd (peng_pipeline pl parse root core name w))"
  unfolding peng_pipeline_def
proof (rule io_bind_frame [OF get_all_docker_file_path_frame])
  fix opt w'
  show "frame {core @ ''/Dockerfile'', core @ ''/package.json''} w' (snd ((case opt of
      None \<Rightarrow> io_lift (Inl (TypeError ''You provided undefined where a stream was expected''))
    | Some all_file_path \<Rightarrow>
        io_bind (get_all_docker_file_info all_file_path) (\<lambda>info_list.
        io_bind (get_all_package_json parse info_list) (\<lambda>info_list.
        io_bind (generate_peng_core_image core name info_list) (\<lambda>info_list.
        generate_peng_core_package_json core info_list)))) w'))"
  proof (cases opt)
    case None
    then show ?thesis by simp
  next
    case (Some ps)
    then show ?thesis
      by simp (intro io_bind_frame get_all_docker_file_info_frame get_all_package_json_frame
          generate_peng_core_image_frame generate_peng_core_package_json_frame; simp)
  qed
qed

subsection \<open>Properties of \<open>PENG\<close>\<close>

text \<open>C14. When the projects root does not exist, \<open>PENG\<close> ends with rxjs's
  \<open>TypeError\<close> (the \<open>undefined\<close> of \<open>getAllDockerFilePath\<close> is not a stream) and
  leaves the world exactly as it was: nothing is read, written or run.\<close>

theorem peng_missing_root:
  assumes "\<not> exists_sync w ''E:/nutc-project/angular''"
  shows "peng pl parse cwd w =
           (Inl (TypeError ''You provided undefined where a stream was expected''), w)"
  using assms by (simp add: peng_def peng_pipeline_def io_bind_def get_all_docker_file_path_absent)

theorem peng_missing_root_witness:
  "peng Posix peng_parse ''/w'' empty_world =
     (Inl (TypeError ''You provided undefined where a stream was expected''), empty_world)"
proof -
  have "\<not> exists_sync empty_world ''E:/nutc-project/angular''"
    by (simp add: exists_sync_def empty_world_def)
  then show ?thesis by (rule peng_missing_root)
qed

text \<open>C15. Whatever the projects contain and whichever stage fails, \<open>PENG\<close> starts no
  command and changes no file but the core descriptor \<open>cwd/peng/Dockerfile\<close> and the
  core manifest \<open>cwd/peng/package.json\<close>: it writes no overlay and builds no image.\<close>

theorem peng_writes_only_core:
  "started (snd (peng pl parse cwd w)) = started w \<and>
   (\<forall>p. p \<noteq> cwd @ ''/peng/Dockerfile'' \<and> p \<noteq> cwd @ ''/peng/package.json'' \<longrightarrow>
        files (snd (peng pl parse cwd w)) p = files w p)"
  using peng_pipeline_frame [of "cwd @ ''/peng''" w pl parse "''E:/nutc-project/angular''" "''peng/core''"]
  by (simp add: peng_def frame_def)

theorem peng_writes_only_core_witness:
  "started (snd (peng Posix peng_parse ''/w'' peng_world)) = [] \<and>
   files (snd (peng Posix peng_parse ''/w'' peng_world)) (peng_root @ ''/a/WaleDockerfile'') = None"
proof -
  have "''E:/nutc-project/angular/a/WaleDockerfile'' \<noteq> ''/w'' @ ''/peng/Dockerfile'' \<and>
        ''E:/nutc-project/angular/a/WaleDockerfile'' \<noteq> ''/w'' @ ''/peng/package.json''"
    by simp
  then show ?thesis
    using peng_writes_only_core [of Posix peng_parse "''/w''" peng_world]
    by (simp add: peng_world_def peng_root_def empty_world_def)
qed

subsection \<open>The records \<open>PENG\<close> hands on\<close>

lemma peng_pipeline_Inr:
  assumes "peng_pipeline pl parse root core name w = (Inr infos, w')"
  obtains ps i1 w4 where "get_all_docker_file_path pl root w = (Inr (Some ps), w)"
    and "get_all_docker_file_info ps w = (Inr i1, w)"
    and "get_all_package_json parse i1 w = (Inr infos, w)"
    and "generate_peng_core_image core name infos w = (Inr infos, w4)"
    and "generate_peng_core_package_json core infos w4 = (Inr infos, w')"
proof -
  from assms obtain opt w1 r where p: "get_all_docker_file_path pl root w = (Inr opt, w1)"
    and rest: "(case opt of None \<Rightarrow> io_lift (Inl (TypeError ''You provided undefined where a stream was expected''))
       | Some all_file_path \<Rightarrow>
           io_bind (get_all_docker_file_info all_file_path) (\<lambda>info_list.
           io_bind (get_all_package_json parse info_list) (\<lambda>info_list.
           io_bind (generate_peng_core_image core name info_list) (\<lambda>info_list.
           generate_peng_core_package_json core info_list)))) w1 = (Inr infos, w')"
    unfolding peng_pipeline_def io_bind_eq_Inr by blast
  have w1: "w1 = w" using p get_all_docker_file_path_world [of pl root w] by simp
  from rest obtain ps where opt: "opt = Some ps" by (cases opt) auto
  from rest opt w1 obtain i1 w2 i2 w3 i3 w4 where
    r1: "get_all_docker_file_info ps w = (Inr i1, w2)"
    and r2: "get_all_package_json parse i1 w2 = (Inr i2, w3)"
    and r3: "generate_peng_core_image core name i2 w3 = (Inr i3, w4)"
    and r4: "generate_peng_core_package_json core i3 w4 = (Inr infos, w')"
    by (auto simp: io_bind_eq_Inr)
  have w2: "w2 = w" using get_all_docker_file_info_Inr [OF r1] by simp
  have w3: "w3 = w" using r2 get_all_package_json_world [of parse i1 w2] w2 by simp
  have "i2 \<noteq> []"
    using r3 by (auto simp: generate_peng_core_image_def get_os_package_list_def get_base_image_def)
  then obtain first rest where "i2 = first # rest" by (cases i2) auto
  then have i3: "i3 = i2" using r3 generate_peng_core_image_Inr by blast
  have "infos = i3" using r4 by (rule generate_peng_core_package_json_Inr)
  then show ?thesis using that p opt w1 r1 r2 r3 r4 w2 w3 i3 by simp
qed

lemma peng_pipeline_Inl:
  assumes "peng_pipeline pl parse root core name w = (Inl e, w')"
  shows "w' = w \<or>
    (\<exists>(infos :: pkg_info list) w4. infos \<noteq> [] \<and> generate_peng_core_image core name infos w = (Inr infos, w4) \<and>
                generate_peng_core_package_json core infos w4 = (Inl e, w'))"
proof -
  obtain r0 where p: "get_all_docker_file_path pl root w = (r0, w)"
    using get_all_docker_file_path_world [of pl root w] by (metis prod.collapse)
  show ?thesis
  proof (cases r0)
    case (Inl e0)
    with p assms show ?thesis by (simp add: peng_pipeline_def)
  next
    case (Inr opt)
    show ?thesis
    proof (cases opt)
      case None
      with p Inr assms show ?thesis by (simp add: peng_pipeline_def)
    next
      case (Some ps)
      obtain r1 where r1: "get_all_docker_file_info ps w = (r1, w)"
        using get_all_docker_file_info_world [of ps w] by (metis prod.collapse)
      show ?thesis
      proof (cases r1)
        case (Inl e1)
        with p Inr Some r1 assms show ?thesis by (simp add: peng_pipeline_def)
      next
        case (Inr i1)
        obtain r2 where r2: "get_all_package_json parse i1 w = (r2, w)"
          using get_all_package_json_world [of parse i1 w] by (metis prod.collapse)
        show ?thesis
        proof (cases r2)
          case (Inl e2)
          with p \<open>r0 = Inr opt\<close> Some r1 Inr r2 assms show ?thesis by (simp add: peng_pipeline_def)
        next
          case (Inr infos)
          obtain r3 w4 where r3: "generate_peng_core_image core name infos w = (r3, w4)"
            by (metis prod.collapse)
          show ?thesis
          proof (cases r3)
            case (Inl e3)
            then have "w4 = w" using r3 generate_peng_core_image_Inl by blast
            with p \<open>r0 = Inr opt\<close> Some r1 \<open>r1 = Inr i1\<close> r2 Inr r3 Inl assms show ?thesis
              by (simp add: peng_pipeline_def)
          next
            case (Inr i3)
            have "infos \<noteq> []"
              using r3 Inr by (auto simp: generate_peng_core_image_def get_os_package_list_def get_base_image_def)
            moreover then have "i3 = infos"
              using r3 Inr generate_peng_core_image_Inr by (cases infos) blast+
            moreover have "generate_peng_core_package_json core infos w4 = (Inl e, w')"
              using p \<open>r0 = Inr opt\<close> Some r1 \<open>r1 = Inr i1\<close> r2 \<open>r2 = Inr infos\<close> r3 Inr assms
                \<open>i3 = infos\<close> by (simp add: peng_pipeline_def)
            ultimately show ?thesis using r3 Inr by blast
          qed
        qed
      qed
    qed
  qed
qed

text \<open>C20. Invariant of the records along \<open>PENG\<close>: when the pipeline returns, it hands on
  at least one record, and every record's folder is a prefix of its descriptor path, its
  content is the descriptor's text and its manifest is the parse of the file at its
  \<open>folderPath + "/package.json"\<close>, all as they were in the world before the run.\<close>

theorem peng_records_wf:
  assumes "peng_pipeline pl parse root core name w = (Inr infos, w')"
  shows "infos \<noteq> [] \<and>
         (\<forall>r \<in> set infos. prefix (folder_path r) (file_path r) \<and>
            files w (file_path r) = Some (file_content r) \<and>
            (\<exists>t. files w (package_json_path r) = Some t \<and> parse t = Some (package_json r)))"
proof -
  obtain ps i1 w4 where r1: "get_all_docker_file_info ps w = (Inr i1, w)"
    and r2: "get_all_package_json parse i1 w = (Inr infos, w)"
    and r3: "generate_peng_core_image core name infos w = (Inr infos, w4)"
    using peng_pipeline_Inr [OF assms] by blast
  have "infos \<noteq> []"
    using r3 by (auto simp: generate_peng_core_image_def get_os_package_list_def get_base_image_def)
  moreover have "prefix (folder_path r) (file_path r) \<and> files w (file_path r) = Some (file_content r) \<and>
      (\<exists>t. files w (package_json_path r) = Some t \<and> parse t = Some (package_json r))"
    if r_in: "r \<in> set infos" for r
  proof -
    obtain info where "info \<in> set i1" and f: "file_path r = file_path info" "folder_path r = folder_path info"
      "file_content r = file_content info"
      and m: "\<exists>t. files w (package_json_path info) = Some t \<and> parse t = Some (package_json r)"
      using get_all_package_json_records [OF r2 r_in] by blast
    then obtain i where i: "i < length ps" and info: "info = i1 ! i"
      using get_all_docker_file_info_Inr [OF r1] by (auto simp: in_set_conv_nth)
    then have "file_path info = ps ! i \<and> folder_path info = folder_path_of (ps ! i) \<and>
               files w (ps ! i) = Some (file_content info)"
      using get_all_docker_file_info_Inr [OF r1] by blast
    then show ?thesis using f m folder_path_of_prefix [of "ps ! i"] by (simp add: package_json_path_def)
  qed
  ultimately show ?thesis by blast
qed

theorem peng_records_wf_witness:
  "isl (fst (peng_pipeline Posix peng_parse peng_root ''/w/peng'' ''peng/core'' peng_world)) = False \<and>
   list_all (\<lambda>r. prefix (folder_path r) (file_path r))
     (projr (fst (peng_pipeline Posix peng_parse peng_root ''/w/peng'' ''peng/core'' peng_world)))"
proof -
  let ?run = "peng_pipeline Posix peng_parse peng_root ''/w/peng'' ''peng/core'' peng_world"
  have ok: "isl (fst ?run) = False" by code_simp
  then obtain infos where "fst ?run = Inr infos" by (cases "fst ?run") auto
  then have "?run = (Inr infos, snd ?run)" by (metis prod.collapse)
  from peng_records_wf [OF this] \<open>fst ?run = Inr infos\<close> ok show ?thesis by (simp add: list_all_iff)
qed


subsection \<open>When \<open>PENG\<close> succeeds\<close>

lemma project_ok_reads:
  assumes "project_ok pl parse w root n" and "p = path_join pl [root, n, ''Dockerfile'']"
  obtains c t where "files w p = Some c" and "get_content_by_tag ''os package'' c \<noteq> None"
    and "files w (package_json_path (mk_docker_info c p)) = Some t" and "manifest_ok (parse t)"
  using assms
  by (auto simp: project_ok_def Let_def package_json_path_def mk_docker_info_def
      split: option.splits)

lemma manifest_ok_sections:
  assumes "manifest_ok (parse t)" and "parse t = Some (package_json r)"
  shows "(\<exists>es. dep_entries ''dependencies'' r = Inr es) \<and> (\<exists>es. dep_entries ''devDependencies'' r = Inr es)"
proof -
  obtain fs where fs: "package_json r = JObj fs"
    using assms by (cases "package_json r") auto
  then obtain d1 d2 where "map_of fs ''dependencies'' = Some (JObj d1)" "map_of fs ''devDependencies'' = Some (JObj d2)"
    using assms by (auto elim!: is_section.elims)
  with fs show ?thesis by (blast intro: dep_entries_obj)
qed

lemma peng_read_ok:
  assumes "\<forall>n \<in> set names. project_ok pl parse w root n"
  obtains i1 infos where
    "get_all_docker_file_info (map (\<lambda>n. path_join pl [root, n, ''Dockerfile'']) names) w = (Inr i1, w)"
    and "get_all_package_json parse i1 w = (Inr infos, w)"
    and "length infos = length names"
    and "\<forall>r \<in> set infos. get_content_by_tag ''os package'' (file_content r) \<noteq> None \<and>
           (\<exists>es. dep_entries ''dependencies'' r = Inr es) \<and> (\<exists>es. dep_entries ''devDependencies'' r = Inr es)"
proof -
  let ?ps = "map (\<lambda>n. path_join pl [root, n, ''Dockerfile'']) names"
  let ?i1 = "map (\<lambda>p. mk_docker_info (the (files w p)) p) ?ps"
  have fp: "\<forall>p \<in> set ?ps. files w p \<noteq> None"
  proof
    fix p assume "p \<in> set ?ps"
    then obtain n where "n \<in> set names" and p: "p = path_join pl [root, n, ''Dockerfile'']" by auto
    from assms \<open>n \<in> set names\<close> have "project_ok pl parse w root n" by blast
    then obtain c where "files w p = Some c" using project_ok_reads [of pl parse w root n p] p by blast
    then show "files w p \<noteq> None" by simp
  qed
  then have r1: "get_all_docker_file_info ?ps w = (Inr ?i1, w)" by (rule get_all_docker_file_info_ok)
  have "\<forall>info \<in> set ?i1. \<exists>t j. files w (package_json_path info) = Some t \<and> parse t = Some j"
  proof
    fix info assume "info \<in> set ?i1"
    then obtain n where "n \<in> set names"
      and info: "info = mk_docker_info (the (files w (path_join pl [root, n, ''Dockerfile'']))) (path_join pl [root, n, ''Dockerfile''])"
      by auto
    from assms \<open>n \<in> set names\<close> have "project_ok pl parse w root n" by blast
    then obtain c t where c: "files w (path_join pl [root, n, ''Dockerfile'']) = Some c"
      and t: "files w (package_json_path (mk_docker_info c (path_join pl [root, n, ''Dockerfile'']))) = Some t"
      and ok: "manifest_ok (parse t)"
      using project_ok_reads [of pl parse w root n "path_join pl [root, n, ''Dockerfile'']"] by blast
    from ok obtain j where "parse t = Some j" by (cases "parse t") auto
    with t c info show "\<exists>t j. files w (package_json_path info) = Some t \<and> parse t = Some j" by auto
  qed
  then obtain i2 where r2: "get_all_package_json parse ?i1 w = (Inr i2, w)"
    using get_all_package_json_ok by blast
  have len: "length i2 = length names"
    using get_all_package_json_Inr_map [OF r2] by auto
  have "get_content_by_tag ''os package'' (file_content r) \<noteq> None \<and>
        (\<exists>es. dep_entries ''dependencies'' r = Inr es) \<and> (\<exists>es. dep_entries ''devDependencies'' r = Inr es)"
    if r_in: "r \<in> set i2" for r
  proof -
    obtain info where "info \<in> set ?i1" and fc: "file_content r = file_content info"
      and m: "\<exists>t. files w (package_json_path info) = Some t \<and> parse t = Some (package_json r)"
      using get_all_package_json_records [OF r2 r_in] by blast
    then obtain n where n: "n \<in> set names"
      and info: "info = mk_docker_info (the (files w (path_join pl [root, n, ''Dockerfile'']))) (path_join pl [root, n, ''Dockerfile''])"
      by auto
    from assms n have "project_ok pl parse w root n" by blast
    then obtain c t where c: "files w (path_join pl [root, n, ''Dockerfile'']) = Some c"
      and os: "get_content_by_tag ''os package'' c \<noteq> None"
      and t: "files w (package_json_path (mk_docker_info c (path_join pl [root, n, ''Dockerfile'']))) = Some t"
      and ok: "manifest_ok (parse t)"
      using project_ok_reads [of pl parse w root n "path_join pl [root, n, ''Dockerfile'']"] by blast
    have "parse t = Some (package_json r)" using m t c info by simp
    with ok have "(\<exists>es. dep_entries ''dependencies'' r = Inr es) \<and> (\<exists>es. dep_entries ''devDependencies'' r = Inr es)"
      by (rule manifest_ok_sections)
    with os fc info c show ?thesis by (simp add: mk_docker_info_def)
  qed
  then show ?thesis using that [OF r1 r2 len] by blast
qed

text \<open>C21. Progress of \<open>PENG\<close>: on a root directory with at least one entry, where every
  entry is a well-formed project and both core files can be written, the pipeline does
  not throw; it hands on one record per directory entry.\<close>

theorem peng_pipeline_succeeds:
  assumes "dirs w root = Some names" and "names \<noteq> []"
    and "\<forall>n \<in> set names. project_ok pl parse w root n"
    and "\<not> write_fails w (core @ ''/Dockerfile'')" and "\<not> write_fails w (core @ ''/package.json'')"
  shows "\<exists>infos. fst (peng_pipeline pl parse root core name w) = Inr infos \<and> length infos = length names"
proof -
  obtain i1 infos where r1: "get_all_docker_file_info (map (\<lambda>n. path_join pl [root, n, ''Dockerfile'']) names) w = (Inr i1, w)"
    and r2: "get_all_package_json parse i1 w = (Inr infos, w)"
    and len: "length infos = length names"
    and ok: "\<forall>r \<in> set infos. get_content_by_tag ''os package'' (file_content r) \<noteq> None \<and>
           (\<exists>es. dep_entries ''dependencies'' r = Inr es) \<and> (\<exists>es. dep_entries ''devDependencies'' r = Inr es)"
    using peng_read_ok [OF assms(3)] by blast
  have ne: "infos \<noteq> []" using len assms(2) by auto
  let ?w3 = "snd (generate_peng_core_image core name infos w)"
  have g3: "generate_peng_core_image core name infos w = (Inr infos, ?w3)"
    using generate_peng_core_image_ok [OF ne _ assms(4), of name] ok by (metis prod.collapse)
  have "frame {core @ ''/Dockerfile''} w ?w3" by (rule generate_peng_core_image_frame) simp
  then have wf: "\<not> write_fails ?w3 (core @ ''/package.json'')" using assms(5) by (simp add: frame_def)
  obtain d where "get_node_core_dependencies_json infos = Inr d"
    using get_node_core_dependencies_json_ok ok by blast
  then have g4: "fst (generate_peng_core_package_json core infos ?w3) = Inr infos"
    using generate_peng_core_package_json_ok [OF ne _ wf] by blast
  have "fst (peng_pipeline pl parse root core name w) = fst (generate_peng_core_package_json core infos ?w3)"
    using r1 r2 g3 by (simp add: peng_pipeline_def get_all_docker_file_path_dir [OF assms(1)])
  with g4 len show ?thesis by simp
qed

theorem peng_pipeline_succeeds_witness:
  "\<exists>infos. fst (peng_pipeline Posix peng_parse peng_root ''/w/peng'' ''peng/core'' peng_world) = Inr infos \<and>
     length infos = length [''a'', ''b'']"
proof -
  have d: "dirs peng_world peng_root = Some [''a'', ''b'']"
    by (simp add: peng_world_def)
  have p: "\<forall>n \<in> set [''a'', ''b'']. project_ok Posix peng_parse peng_world peng_root n"
    by code_simp
  have "\<not> write_fails peng_world (''/w/peng'' @ ''/Dockerfile'')" "\<not> write_fails peng_world (''/w/peng'' @ ''/package.json'')"
    by (simp_all add: peng_world_def empty_world_def)
  from peng_pipeline_succeeds [where name = "''peng/core''", OF d _ p this] show ?thesis by simp
qed


subsection \<open>Order and partial failure\<close>

text \<open>C27. The two core files are written by two stages, and a failure of the second
  leaves the first one's file in place. Whenever a failed run of \<open>PENG\<close> has changed
  the core \<open>Dockerfile\<close>, the core \<open>package.json\<close> is as it was before the run, so the
  core directory holds a new descriptor beside an old manifest, or none. The error is
  then that of the dependency merge (a manifest section missing) or of the manifest
  write: every stage before the core descriptor succeeded on a non-empty record list.\<close>

theorem peng_core_files_inconsistent:
  assumes "peng_pipeline pl parse root core name w = (Inl e, w')"
    and "files w' (core @ ''/Dockerfile'') \<noteq> files w (core @ ''/Dockerfile'')"
  shows "files w' (core @ ''/package.json'') = files w (core @ ''/package.json'') \<and>
         (\<exists>infos :: pkg_info list. infos \<noteq> [] \<and> fst (generate_peng_core_image core name infos w) = Inr infos \<and>
            (get_node_core_dependencies_json infos = Inl e \<or> e = WriteError (core @ ''/package.json'')))"
proof -
  from peng_pipeline_Inl [OF assms(1)] assms(2) obtain infos :: "pkg_info list" and w4 where ne: "infos \<noteq> []"
    and r3: "generate_peng_core_image core name infos w = (Inr infos, w4)"
    and r4: "generate_peng_core_package_json core infos w4 = (Inl e, w')"
    by auto
  from generate_peng_core_package_json_Inl [OF r4 ne] have w': "w' = w4"
    and err: "get_node_core_dependencies_json infos = Inl e \<or> e = WriteError (core @ ''/package.json'')"
    by auto
  have "frame {core @ ''/Dockerfile''} w w4"
    using generate_peng_core_image_frame [of core "{core @ ''/Dockerfile''}" w name infos] r3 by simp
  then have "files w4 (core @ ''/package.json'') = files w (core @ ''/package.json'')"
    by (simp add: frame_def)
  moreover have "\<exists>infos' :: pkg_info list. infos' \<noteq> [] \<and> fst (generate_peng_core_image core name infos' w) = Inr infos' \<and>
      (get_node_core_dependencies_json infos' = Inl e \<or> e = WriteError (core @ ''/package.json''))"
    using ne r3 err by (intro exI [of _ infos]) simp
  ultimately show ?thesis using w' by simp
qed

theorem peng_core_files_inconsistent_witness:
  "fst (peng_pipeline Posix peng_parse_nodev peng_root ''/w/peng'' ''peng/core'' peng_world) =
     Inl (TypeError ''Cannot convert undefined or null to object'') \<and>
   files (snd (peng_pipeline Posix peng_parse_nodev peng_root ''/w/peng'' ''peng/core'' peng_world)) ''/w/peng/package.json'' = None"
proof -
  let ?r = "peng_pipeline Posix peng_parse_nodev peng_root ''/w/peng'' ''peng/core'' peng_world"
  have f: "fst ?r = Inl (TypeError ''Cannot convert undefined or null to object'')"
    by code_simp
  then have r: "?r = (Inl (TypeError ''Cannot convert undefined or null to object''), snd ?r)"
    by (metis prod.collapse)
  have d: "files (snd ?r) (''/w/peng'' @ ''/Dockerfile'') \<noteq> files peng_world (''/w/peng'' @ ''/Dockerfile'')"
    by code_simp
  have "files peng_world (''/w/peng'' @ ''/package.json'') = None"
    by (simp add: peng_world_def empty_world_def peng_root_def)
  with peng_core_files_inconsistent [OF r d] f show ?thesis by simp
qed

text \<open>C28. Order of the projects: the records follow the order of \<open>readdirSync\<close>, and the
  core descriptor of a successful run takes its base image (its second line) from the
  \<open>Dockerfile\<close> of the directory listed first under the root.\<close>

theorem peng_base_image_from_first_listed:
  assumes "peng_pipeline pl parse root core name w = (Inr infos, w')"
    and "dirs w root = Some (n # ns)" and "CHR ''\<newline>'' \<notin> set name"
  shows "\<exists>c. files w (path_join pl [root, n, ''Dockerfile'']) = Some c \<and>
             js_nth (js_split ''\<newline>'' (the (files w' (core @ ''/Dockerfile'')))) 1 =
               Some (js_str (find (\<lambda>l. sublist ''FROM'' l) (js_split ''\<newline>'' c)))"
proof -
  obtain ps i1 w4 where p: "get_all_docker_file_path pl root w = (Inr (Some ps), w)"
    and r1: "get_all_docker_file_info ps w = (Inr i1, w)"
    and r2: "get_all_package_json parse i1 w = (Inr infos, w)"
    and r3: "generate_peng_core_image core name infos w = (Inr infos, w4)"
    and r4: "generate_peng_core_package_json core infos w4 = (Inr infos, w')"
    using peng_pipeline_Inr [OF assms(1)] by blast
  have ps: "ps = map (\<lambda>n. path_join pl [root, n, ''Dockerfile'']) (n # ns)"
    using p get_all_docker_file_path_dir [OF assms(2), of pl] by simp
  have "infos \<noteq> []"
    using r3 by (auto simp: generate_peng_core_image_def get_os_package_list_def get_base_image_def)
  then obtain first rest where infos: "infos = first # rest" by (cases infos) auto
  obtain js where "infos = map2 with_package_json i1 js" and "length js = length i1"
    using get_all_package_json_Inr_map [OF r2] by blast
  then have fc: "file_content first = file_content (i1 ! 0)"
    using infos by (cases i1; cases js) (auto simp: with_package_json_def)
  have "files w (ps ! 0) = Some (file_content (i1 ! 0))"
    using get_all_docker_file_info_Inr [OF r1] ps by auto
  then have c: "files w (path_join pl [root, n, ''Dockerfile'']) = Some (file_content first)"
    using ps fc by simp
  obtain os where f4: "files w4 (core @ ''/Dockerfile'') =
      Some (core_image_content name os
             (find (\<lambda>c. sublist ''FROM'' c) (js_split ''\<newline>'' (file_content first)))
             (get_content_by_tag ''workdir'' (file_content first)))"
    using generate_peng_core_image_Inr [OF r3 [unfolded infos]] infos by blast
  have "frame {core @ ''/package.json''} w4 w'"
    using generate_peng_core_package_json_frame [of core "{core @ ''/package.json''}" w4 infos] r4 by simp
  then have "files w' (core @ ''/Dockerfile'') = files w4 (core @ ''/Dockerfile'')"
    by (simp add: frame_def)
  then show ?thesis using c f4 core_image_content_lines [OF assms(3)] by auto
qed

theorem peng_base_image_from_first_listed_witness:
  "js_nth (js_split ''\<newline>'' (the (files (snd (peng_pipeline Posix peng_parse peng_root ''/w/peng'' ''peng/core'' peng_world))
       (''/w/peng'' @ ''/Dockerfile'')))) 1 = Some ''FROM node:10''"
proof -
  let ?run = "peng_pipeline Posix peng_parse peng_root ''/w/peng'' ''peng/core'' peng_world"
  have ok: "isl (fst ?run) = False" by code_simp
  then obtain infos where "fst ?run = Inr infos" by (cases "fst ?run") auto
  then have run: "?run = (Inr infos, snd ?run)" by (metis prod.collapse)
  have d: "dirs peng_world peng_root = Some [''a'', ''b'']" by (simp add: peng_world_def)
  have n: "CHR ''\<newline>'' \<notin> set ''peng/core''" by simp
  obtain c where "files peng_world (path_join Posix [peng_root, ''a'', ''Dockerfile'']) = Some c"
    and l: "js_nth (js_split ''\<newline>'' (the (files (snd ?run) (''/w/peng'' @ ''/Dockerfile'')))) 1 =
              Some (js_str (find (\<lambda>l. sublist ''FROM'' l) (js_split ''\<newline>'' c)))"
    using peng_base_image_from_first_listed [OF run d n] by blast
  moreover have "files peng_world (path_join Posix [peng_root, ''a'', ''Dockerfile'']) =
      Some ''FROM node:10\<newline>## workdir\<newline>WORKDIR /app\<newline>## os package\<newline>vim\<newline>curl\<newline>''"
    by code_simp
  ultimately have "c = ''FROM node:10\<newline>## workdir\<newline>WORKDIR /app\<newline>## os package\<newline>vim\<newline>curl\<newline>''"
    by simp
  moreover have "js_str (find (\<lambda>l. sublist ''FROM'' l) (js_split ''\<newline>''
      ''FROM node:10\<newline>## workdir\<newline>WORKDIR /app\<newline>## os package\<newline>vim\<newline>curl\<newline>'')) = ''FROM node:10''"
    by code_simp
  ultimately show ?thesis using l by simp
qed

end
