(* ===== verification/Pipeline_Steps.thy ===== *)
theory Pipeline_Steps
  imports Pipeline
begin

text \<open>
  The \<open>switchMap\<close> chain of \<open>PENG\<close> as a machine of stages: a stage is the value the
  chain carries between two operators (the paths, the descriptor records, the records
  with manifests) together with the operator it is handed to, or the end of the chain
  (\<open>Done\<close> with the records the subscriber receives, \<open>Failed\<close> with the error the
  chain ends with). \<open>peng_step\<close> runs one operator on the world; an error ends the
  chain. The big-step composition \<open>peng_pipeline\<close> is proved to be the run of the machine
  to its end, and the invariant of every reachable state is proved by rule induction.
\<close>

datatype stage =
    Locate
  | ReadDescriptors "path list"
  | ReadManifests "docker_info list"
  | CoreImage "pkg_info list"
  | CorePackage "pkg_info list"
  | Done "pkg_info list"
  | Failed js_error

definition outcome :: "('a \<Rightarrow> stage) \<Rightarrow> (js_error + 'a) \<times> world \<Rightarrow> stage \<times> world" where
  "outcome k rw = ((case fst rw of Inl e \<Rightarrow> Failed e | Inr a \<Rightarrow> k a), snd rw)"

definition located :: "path list option \<Rightarrow> stage" where
  "located opt = (case opt of
       None \<Rightarrow> Failed (TypeError ''You provided undefined where a stream was expected'')
     | Some ps \<Rightarrow> ReadDescriptors ps)"

inductive peng_step ::
  "platform \<Rightarrow> (string \<Rightarrow> json option) \<Rightarrow> path \<Rightarrow> path \<Rightarrow> string \<Rightarrow> stage \<times> world \<Rightarrow> stage \<times> world \<Rightarrow> bool"
  for pl parse root core name where
  locate: "peng_step pl parse root core name (Locate, w) (outcome located (get_all_docker_file_path pl root w))"
| read_descriptors: "peng_step pl parse root core name (ReadDescriptors ps, w)
     (outcome ReadManifests (get_all_docker_file_info ps w))"
| read_manifests: "peng_step pl parse root core name (ReadManifests infos, w)
     (outcome CoreImage (get_all_package_json parse infos w))"
| core_image: "peng_step pl parse root core name (CoreImage infos, w)
     (outcome CorePackage (generate_peng_core_image core name infos w))"
| core_package: "peng_step pl parse root core name (CorePackage infos, w)
     (outcome Done (generate_peng_core_package_json core infos w))"

fun final :: "stage \<Rightarrow> bool" where
  "final (Done _) = True"
| "final (Failed _) = True"
| "final _ = False"

fun pre_write :: "stage \<Rightarrow> bool" where
  "pre_write Locate = True"
| "pre_write (ReadDescriptors _) = True"
| "pre_write (ReadManifests _) = True"
| "pre_write (CoreImage _) = True"
| "pre_write _ = False"

inductive_cases peng_step_DoneE: "peng_step pl parse root core name (Done infos, w) t"
inductive_cases peng_step_FailedE: "peng_step pl parse root core name (Failed e, w) t"

lemma final_no_step: "final s \<Longrightarrow> \<not> peng_step pl parse root core name (s, w) t"
  by (cases s) (auto elim: peng_step_DoneE peng_step_FailedE)

lemma peng_step_deterministic:
  "peng_step pl parse root core name a b \<Longrightarrow> peng_step pl parse root core name a c \<Longrightarrow> c = b"
  by (induction rule: peng_step.induct) (auto elim: peng_step.cases)

lemma outcome_Done_io_bind:
  assumes "\<And>a w'. (peng_step pl parse root core name)\<^sup>*\<^sup>* (k a, w') (outcome Done (f a w'))"
  shows "(peng_step pl parse root core name)\<^sup>*\<^sup>* (outcome k (m w)) (outcome Done (io_bind m f w))"
proof (cases "m w")
  case (Pair r w')
  then show ?thesis using assms by (cases r) (simp_all add: outcome_def io_bind_def)
qed

lemma steps_from_final:
  "(peng_step pl parse root core name)\<^sup>*\<^sup>* (s, w) t \<Longrightarrow> final s \<Longrightarrow> t = (s, w)"
  by (erule converse_rtranclpE) (auto dest: final_no_step)

lemma steps_unique_final:
  assumes "(peng_step pl parse root core name)\<^sup>*\<^sup>* x y" and "(peng_step pl parse root core name)\<^sup>*\<^sup>* x z"
    and "final (fst y)" and "final (fst z)"
  shows "y = z"
  using assms
proof (induction arbitrary: z rule: converse_rtranclp_induct)
  case base
  then show ?case by (metis prod.collapse steps_from_final)
next
  case (step x x')
  from step.prems(1) show ?case
  proof (cases rule: converse_rtranclpE)
    case base
    with step.hyps(1) step.prems(3) show ?thesis by (metis prod.collapse final_no_step)
  next
    case (step x'')
    with step.hyps(1) have x'': "x'' = x'" by (blast dest: peng_step_deterministic)
    from step(2) x'' have "(peng_step pl parse root core name)\<^sup>*\<^sup>* x' z" by simp
    then show ?thesis using "step.IH" "step.prems"(2,3) by blast
  qed
qed

lemma peng_pipeline_steps:
  "(peng_step pl parse root core name)\<^sup>*\<^sup>* (Locate, w) (outcome Done (peng_pipeline pl parse root core name w))"
proof -
  let ?r = "peng_step pl parse root core name"
  have pkg: "?r\<^sup>*\<^sup>* (CorePackage infos, w') (outcome Done (generate_peng_core_package_json core infos w'))" for infos w'
    by (rule r_into_rtranclp) (rule peng_step.core_package)
  have img: "?r\<^sup>*\<^sup>* (CoreImage infos, w')
      (outcome Done (io_bind (generate_peng_core_image core name infos) (generate_peng_core_package_json core) w'))" for infos w'
    by (rule converse_rtranclp_into_rtranclp [OF peng_step.core_image outcome_Done_io_bind]) (rule pkg)
  have man: "?r\<^sup>*\<^sup>* (ReadManifests infos, w')
      (outcome Done (io_bind (get_all_package_json parse infos) (\<lambda>infos.
          io_bind (generate_peng_core_image core name infos) (generate_peng_core_package_json core)) w'))" for infos w'
    by (rule converse_rtranclp_into_rtranclp [OF peng_step.read_manifests outcome_Done_io_bind]) (rule img)
  have rd: "?r\<^sup>*\<^sup>* (ReadDescriptors ps, w')
      (outcome Done (io_bind (get_all_docker_file_info ps) (\<lambda>infos. io_bind (get_all_package_json parse infos) (\<lambda>infos.
          io_bind (generate_peng_core_image core name infos) (generate_peng_core_package_json core))) w'))" for ps w'
    by (rule converse_rtranclp_into_rtranclp [OF peng_step.read_descriptors outcome_Done_io_bind]) (rule man)
  have "?r\<^sup>*\<^sup>* (located opt, w') (outcome Done ((case opt of
         None \<Rightarrow> io_lift (Inl (TypeError ''You provided undefined where a stream was expected''))
       | Some all_file_path \<Rightarrow>
           io_bind (get_all_docker_file_info all_file_path) (\<lambda>info_list.
           io_bind (get_all_package_json parse info_list) (\<lambda>info_list.
           io_bind (generate_peng_core_image core name info_list) (\<lambda>info_list.
           generate_peng_core_package_json core info_list)))) w'))" for opt w'
    using rd by (cases opt) (simp_all add: located_def outcome_def)
  then show ?thesis
    unfolding peng_pipeline_def
    by (rule converse_rtranclp_into_rtranclp [OF peng_step.locate outcome_Done_io_bind])
qed

text \<open>Refinement: the stage machine, run from \<open>Locate\<close>, ends in \<open>Done infos\<close> exactly
  when the composed pipeline returns \<open>infos\<close>, and in \<open>Failed e\<close> exactly when it throws
  \<open>e\<close>, with the same final world in both cases.\<close>

theorem peng_steps_refine_pipeline:
  "((peng_step pl parse root core name)\<^sup>*\<^sup>* (Locate, w) (Done infos, w') \<longleftrightarrow>
      peng_pipeline pl parse root core name w = (Inr infos, w')) \<and>
   ((peng_step pl parse root core name)\<^sup>*\<^sup>* (Locate, w) (Failed e, w') \<longleftrightarrow>
      peng_pipeline pl parse root core name w = (Inl e, w'))"
proof -
  let ?r = "peng_step pl parse root core name"
  let ?o = "outcome Done (peng_pipeline pl parse root core name w)"
  have run: "?r\<^sup>*\<^sup>* (Locate, w) ?o" by (rule peng_pipeline_steps)
  have fin: "final (fst ?o)" by (simp add: outcome_def split: sum.split)
  have eq: "?r\<^sup>*\<^sup>* (Locate, w) (s, w') \<longleftrightarrow> (s, w') = ?o" if "final s" for s
    using steps_unique_final [OF _ run _ fin, of "(s, w')"] that run by auto
  show ?thesis
    using eq [of "Done infos"] eq [of "Failed e"]
    by (cases "peng_pipeline pl parse root core name w") (auto simp: outcome_def split: sum.splits)
qed


lemma peng_step_effect:
  assumes "peng_step pl parse root core name (s, w1) (t, w2)"
  shows "frame {core @ ''/Dockerfile'', core @ ''/package.json''} w1 w2 \<and>
         (pre_write t \<longrightarrow> w2 = w1 \<and> pre_write s)"
  using assms
proof (cases rule: peng_step.cases)
  case locate
  then show ?thesis by (auto simp: outcome_def get_all_docker_file_path_world)
next
  case (read_descriptors ps)
  then show ?thesis by (auto simp: outcome_def get_all_docker_file_info_world)
next
  case (read_manifests infos)
  then show ?thesis by (auto simp: outcome_def get_all_package_json_world)
next
  case (core_image infos)
  then have "frame {core @ ''/Dockerfile'', core @ ''/package.json''} w1 w2"
    using generate_peng_core_image_frame [of core "{core @ ''/Dockerfile'', core @ ''/package.json''}" w1 name infos]
    by (simp add: outcome_def)
  moreover have "\<not> pre_write t" using core_image by (simp add: outcome_def split: sum.splits)
  ultimately show ?thesis by simp
next
  case (core_package infos)
  then have "frame {core @ ''/Dockerfile'', core @ ''/package.json''} w1 w2"
    using generate_peng_core_package_json_frame [of core "{core @ ''/Dockerfile'', core @ ''/package.json''}" w1 infos]
    by (simp add: outcome_def)
  moreover have "\<not> pre_write t" using core_package by (simp add: outcome_def split: sum.splits)
  ultimately show ?thesis by simp
qed

text \<open>C26. Invariant of every reachable state of the machine: the world differs from the
  initial one at most in the two core files, and as long as the chain has not reached the
  core write (\<open>Locate\<close> to \<open>CoreImage\<close>) it is the initial world: nothing is written
  before every descriptor and manifest has been read and parsed.\<close>

theorem peng_reachable_invariant:
  assumes "(peng_step pl parse root core name)\<^sup>*\<^sup>* (Locate, w) (s, w')"
  shows "frame {core @ ''/Dockerfile'', core @ ''/package.json''} w w' \<and> (pre_write s \<longrightarrow> w' = w)"
  using assms
proof (induction rule: rtranclp_induct2)
  case refl
  then show ?case by simp
next
  case (step s1 w1 s2 w2)
  from peng_step_effect [OF step.hyps(2)] step.IH show ?case by (blast intro: frame_trans)
qed

theorem peng_reachable_invariant_witness:
  "snd (outcome located (get_all_docker_file_path Posix peng_root peng_world)) = peng_world"
proof -
  let ?t = "outcome located (get_all_docker_file_path Posix peng_root peng_world)"
  have reach: "(peng_step Posix peng_parse peng_root ''/w/peng'' ''peng/core'')\<^sup>*\<^sup>* (Locate, peng_world) (fst ?t, snd ?t)"
    by (simp add: r_into_rtranclp peng_step.locate)
  have "pre_write (fst ?t)"
    by (simp add: outcome_def located_def get_all_docker_file_path_dir peng_world_def)
  then show ?thesis using peng_reachable_invariant [OF reach] by simp
qed

end
