(* ===== verification/Merger_Refinement.thy ===== *)
theory Merger_Refinement
  imports Dependency_Merger
begin

text \<open>
  Specifications of the dependency merger of \<open>src/main.js\<close> and the refinement lemmas
  that relate \<open>generateCoreJson\<close> and \<open>getOsPackageList\<close> to them. The reference of
  \<open>generateCoreJson\<close> is \<open>dedup_keys\<close>, which keeps the first pair of every key of an
  association list; its abstract meaning is \<open>merge_maps\<close>, the union of the sections read
  as finite maps in which the first section that has a key decides its value. The
  abstraction from an association list to a map is \<open>map_of\<close>, which is how the merged
  object is read (property lookup).
\<close>

fun dedup_keys :: "('k \<times> 'v) list \<Rightarrow> ('k \<times> 'v) list" where
  "dedup_keys [] = []"
| "dedup_keys ((k, v) # xs) = (k, v) # dedup_keys (filter (\<lambda>p. fst p \<noteq> k) xs)"

definition merge_maps :: "('k \<rightharpoonup> 'v) list \<Rightarrow> 'k \<rightharpoonup> 'v" where
  "merge_maps ms = foldr (\<lambda>m acc. acc ++ m) ms Map.empty"

subsection \<open>The reference\<close>

lemma keys_dedup_keys: "map fst (dedup_keys xs) = js_set_values (map fst xs)"
  by (induction xs rule: dedup_keys.induct) (simp_all add: js_set_values_Cons filter_map comp_def)

lemma map_of_dedup_keys: "map_of (dedup_keys xs) = map_of xs"
  by (induction xs rule: dedup_keys.induct) (simp_all add: map_of_filter_key fun_eq_iff)

lemma merge_first_dedup_keys:
  "merge_first all = filter (\<lambda>p. fst p \<noteq> ''__proto__'') (dedup_keys all)"
proof (rule alist_eqI)
  show "distinct (map fst (merge_first all))" by (rule distinct_merge_first)
  show "map fst (merge_first all) = map fst (filter (\<lambda>p. fst p \<noteq> ''__proto__'') (dedup_keys all))"
    by (simp only: keys_merge_first map_fst_filter_key [of "\<lambda>k. k \<noteq> ''__proto__''"] keys_dedup_keys)
  show "map_of (merge_first all) = map_of (filter (\<lambda>p. fst p \<noteq> ''__proto__'') (dedup_keys all))"
    by (simp add: fun_eq_iff map_of_merge_first map_of_filter_key map_of_dedup_keys)
qed

lemma map_of_concat_merge_maps: "map_of (concat ess) = merge_maps (map map_of ess)"
  by (induction ess) (simp_all add: merge_maps_def)

subsection \<open>Equivalence and refinement\<close>

text \<open>C17. \<open>generateCoreJson\<close>, which collects the keys in a \<open>Set\<close> and then looks each
  one up with \<open>find\<close> and assigns it to a fresh object, computes exactly the reference:
  the concatenated pairs with only the first pair of every key kept (and \<open>__proto__\<close>
  dropped by the setter), and it throws exactly when reading a section throws.\<close>

theorem generate_core_json_reference:
  "generate_core_json infos k =
     ebind (traverse (dep_entries k) infos)
       (\<lambda>ess. Inr (filter (\<lambda>p. fst p \<noteq> ''__proto__'') (dedup_keys (concat ess))))"
proof (cases "traverse (dep_entries k) infos")
  case (Inl e)
  then show ?thesis by (simp add: generate_core_json_def)
next
  case (Inr ess)
  then show ?thesis by (simp add: generate_core_json_entries merge_first_dedup_keys)
qed

text \<open>C18. Refinement of the first-wins union: once every section can be read,
  \<open>generateCoreJson\<close> does not throw, its object has distinct keys, and read as a map it
  is the union of the sections read as maps in which the earliest section that has a key
  decides its value (but \<open>__proto__\<close>, which the setter swallows).\<close>

theorem generate_core_json_refines_merge:
  assumes "traverse (dep_entries k) infos = Inr ess"
  shows "\<exists>r. generate_core_json infos k = Inr r \<and> distinct (map fst r) \<and>
             map_of r = (merge_maps (map map_of ess))(''__proto__'' := None)"
proof -
  have "generate_core_json infos k = Inr (merge_first (concat ess))"
    using assms by (rule generate_core_json_entries)
  moreover have "map_of (merge_first (concat ess)) = (merge_maps (map map_of ess))(''__proto__'' := None)"
    by (simp add: fun_eq_iff map_of_merge_first map_of_concat_merge_maps)
  ultimately show ?thesis using distinct_merge_first by blast
qed

theorem generate_core_json_refines_merge_witness:
  "\<exists>r. generate_core_json [manifest_a, manifest_b] ''dependencies'' = Inr r \<and> distinct (map fst r) \<and>
       map_of r = (merge_maps [map_of [(''lodash'', JStr ''1.0.0'')],
                               map_of [(''lodash'', JStr ''2.0.0''), (''axios'', JStr ''0.9.0'')]])(''__proto__'' := None)"
proof -
  have "traverse (dep_entries ''dependencies'') [manifest_a, manifest_b] =
          Inr [[(''lodash'', JStr ''1.0.0'')], [(''lodash'', JStr ''2.0.0''), (''axios'', JStr ''0.9.0'')]]"
    by code_simp
  from generate_core_json_refines_merge [OF this] show ?thesis by simp
qed

text \<open>C19. Set-level specification of \<open>getOsPackageList\<close>: when it returns, its list has
  no duplicates and holds exactly the package lines of all the records' os package
  sections.\<close>

theorem get_os_package_list_refines_union:
  assumes "get_os_package_list infos = Inr ps"
  shows "distinct ps \<and> set ps = (\<Union>info \<in> set infos. set (os_section_lines (file_content info)))"
  using get_os_package_list_Inr_eq [OF assms] by (simp add: js_set_values_distinct)

theorem get_os_package_list_refines_union_witness:
  "distinct [''vim'', ''curl'', ''git''] \<and>
   set [''vim'', ''curl'', ''git''] = (\<Union>info \<in> set [scenario_a, scenario_b]. set (os_section_lines (file_content info)))"
proof -
  have "get_os_package_list [scenario_a, scenario_b] = Inr [''vim'', ''curl'', ''git'']"
    by code_simp
  then show ?thesis by (rule get_os_package_list_refines_union)
qed


subsection \<open>The shape of the package list\<close>

text \<open>C22. Every entry of the merged OS-package list is one non-empty line: it contains no
  line break, so each package becomes exactly one line of the core descriptor.\<close>

theorem os_packages_are_lines:
  assumes "get_os_package_list infos = Inr ps"
  shows "\<forall>p \<in> set ps. p \<noteq> [] \<and> CHR ''\<newline>'' \<notin> set p"
proof
  fix p assume "p \<in> set ps"
  then obtain info where "info \<in> set infos" and "p \<in> set (os_section_lines (file_content info))"
    using get_os_package_list_Inr_eq [OF assms] by auto
  then have "p \<noteq> []" and "p \<in> set (js_split ''\<newline>'' (the (get_content_by_tag ''os package'' (file_content info))))"
    by (auto simp: os_section_lines_def)
  then show "p \<noteq> [] \<and> CHR ''\<newline>'' \<notin> set p"
    using js_split_no_sep [of "''\<newline>''"] by (simp add: sublist_singleton)
qed

theorem os_packages_are_lines_witness:
  "list_all (\<lambda>p. p \<noteq> [] \<and> CHR ''\<newline>'' \<notin> set p) [''vim'', ''curl'', ''git'']"
proof -
  have "get_os_package_list [scenario_a, scenario_b] = Inr [''vim'', ''curl'', ''git'']"
    by code_simp
  from os_packages_are_lines [OF this] show ?thesis by (simp only: list_all_iff)
qed

end
