(* ===== verification/ES_Split.thy ===== *)
theory ES_Split
  imports Tag_Extractor "HOL-Library.While_Combinator"
begin

text \<open>
  \<open>String.prototype.split\<close> as ECMA-262 (22.1.3.23) writes it for a string separator and
  no limit: \<open>StringIndexOf\<close> finds the next occurrence from a position, and a loop appends
  the text up to each occurrence and restarts after it, until no occurrence is left; the
  rest is the last piece. An empty separator splits into code units, an empty string
  gives \<open>[""]\<close>. The loop is kept as a loop (\<open>while_option\<close> over the state
  \<open>(i, j, substrings)\<close>), so that its termination is a theorem: \<open>es_split\<close> returns
  \<open>Some\<close> on every input, and its result is the recursive scan \<open>js_split\<close> that the
  rest of the development uses. The measure is \<open>length s + 1 - i\<close>: every round moves
  \<open>i\<close> past an occurrence of the non-empty separator.
\<close>

definition string_index_of :: "string \<Rightarrow> string \<Rightarrow> nat \<Rightarrow> nat option" where
  "string_index_of s r k = find (\<lambda>n. prefix r (drop n s)) [k..<Suc (length s)]"

definition es_split_step :: "string \<Rightarrow> string \<Rightarrow> nat \<times> nat option \<times> string list \<Rightarrow> nat \<times> nat option \<times> string list" where
  "es_split_step s r st =
     (case st of (i, j, substrings) \<Rightarrow>
        let p = the j; i' = p + length r
        in (i', string_index_of s r i', substrings @ [take (p - i) (drop i s)]))"

definition es_split :: "string \<Rightarrow> string \<Rightarrow> string list option" where
  "es_split r s =
     (if r = [] then Some (map (\<lambda>c. [c]) s)
      else if s = [] then Some [s]
      else map_option (\<lambda>(i, j, substrings). substrings @ [drop i s])
             (while_option (\<lambda>(i, j, substrings). j \<noteq> None) (es_split_step s r)
                (0, string_index_of s r 0, [])))"

text \<open>The loop invariant: \<open>i\<close> is a position of the string, \<open>j\<close> the next occurrence
  from \<open>i\<close>, and the pieces found so far followed by the pieces of the rest are the pieces
  of the whole string.\<close>

definition es_split_inv :: "string \<Rightarrow> string \<Rightarrow> nat \<times> nat option \<times> string list \<Rightarrow> bool" where
  "es_split_inv s r st =
     (case st of (i, j, substrings) \<Rightarrow>
        i \<le> length s \<and> j = string_index_of s r i \<and> substrings @ js_split_ne r (drop i s) = js_split_ne r s)"

lemma string_index_of_Some:
  assumes "string_index_of s r k = Some n"
  shows "k \<le> n \<and> prefix r (drop n s) \<and> (\<forall>m. k \<le> m \<and> m < n \<longrightarrow> \<not> prefix r (drop m s))"
proof -
  from assms obtain idx where idx: "idx < length [k..<Suc (length s)]"
    and n: "[k..<Suc (length s)] ! idx = n" and p: "prefix r (drop n s)"
    and before: "\<forall>t < idx. \<not> prefix r (drop ([k..<Suc (length s)] ! t) s)"
    unfolding string_index_of_def find_Some_iff by blast
  have kn: "n = k + idx" using idx n by (simp del: upt_Suc)
  have "\<not> prefix r (drop m s)" if "k \<le> m" "m < n" for m
    using before [rule_format, of "m - k"] that kn idx by (simp del: upt_Suc)
  with kn p show ?thesis by auto
qed

lemma string_index_of_None:
  "r \<noteq> [] \<Longrightarrow> string_index_of s r k = None \<Longrightarrow> k \<le> m \<Longrightarrow> \<not> prefix r (drop m s)"
  by (cases "m \<le> length s") (auto simp: string_index_of_def find_None_iff)

lemma sublist_first_occurrence:
  assumes "r \<noteq> []" and "sublist r (a @ butlast r)"
  shows "\<exists>m < length a. prefix r (drop m (a @ r @ b))"
proof -
  from assms(2) obtain u v where eq: "a @ butlast r = u @ r @ v" by (auto simp: sublist_def)
  have "length (a @ butlast r) = length (u @ r @ v)" using eq by (rule arg_cong)
  then have "length a + (length r - 1) = length u + length r + length v" by simp
  moreover have "0 < length r" using assms(1) by simp
  ultimately have lt: "length u < length a" by arith
  have "a @ r @ b = (a @ butlast r) @ [last r] @ b"
    using append_butlast_last_id [OF assms(1)] by (metis append.assoc)
  also have "\<dots> = u @ (r @ v @ [last r] @ b)" using eq by simp
  finally have e: "a @ r @ b = u @ (r @ v @ [last r] @ b)" .
  have "drop (length u) (a @ r @ b) = r @ v @ [last r] @ b" unfolding e by simp
  then have "prefix r (drop (length u) (a @ r @ b))" by (rule prefixI)
  with lt show ?thesis by blast
qed

lemma js_split_ne_at_index:
  assumes "r \<noteq> []" and "string_index_of s r i = Some p"
  shows "js_split_ne r (drop i s) = take (p - i) (drop i s) # js_split_ne r (drop (p + length r) s)"
proof -
  from string_index_of_Some [OF assms(2)]
  have ip: "i \<le> p" and pre: "prefix r (drop p s)"
    and none: "\<forall>m. i \<le> m \<and> m < p \<longrightarrow> \<not> prefix r (drop m s)" by auto
  let ?a = "take (p - i) (drop i s)"
  obtain b where b: "drop p s = r @ b" using pre by (auto simp: prefix_def)
  have "drop (p - i) (drop i s) = drop p s" using ip by simp
  then have ds: "drop i s = ?a @ r @ b" using b append_take_drop_id [of "p - i" "drop i s"] by simp
  have "drop (p + length r) s = drop (length r) (drop p s)" by (simp add: add.commute)
  then have b': "b = drop (p + length r) s" using b by simp
  have "\<not> sublist r (?a @ butlast r)"
  proof
    assume "sublist r (?a @ butlast r)"
    then obtain m where m: "m < length ?a" and "prefix r (drop m (?a @ r @ b))"
      using sublist_first_occurrence [OF assms(1)] by blast
    moreover have "drop (i + m) s = drop m (?a @ r @ b)"
      using arg_cong [OF ds, of "drop m"] by (simp add: add.commute)
    ultimately have "prefix r (drop (i + m) s)" by simp
    moreover have "i \<le> i + m" "i + m < p" using m ip by auto
    ultimately show False using none by blast
  qed
  then have "js_split r (?a @ r @ b) = ?a # js_split r b" by (rule js_split_append_sep [OF assms(1)])
  then have "js_split_ne r (?a @ r @ b) = ?a # js_split_ne r b" using assms(1) by (simp add: js_split_def)
  then show ?thesis using arg_cong [OF ds, of "js_split_ne r"] b' by simp
qed

lemma js_split_ne_after_last:
  assumes "r \<noteq> []" and "string_index_of s r i = None"
  shows "js_split_ne r (drop i s) = [drop i s]"
proof (rule js_split_ne_no_match)
  show "\<not> sublist r (drop i s)"
  proof
    assume "sublist r (drop i s)"
    then obtain u v where uv: "drop i s = u @ r @ v" by (auto simp: sublist_def)
    have "drop (i + length u) s = drop (length u) (drop i s)" by (simp add: add.commute)
    also have "\<dots> = r @ v" using uv by simp
    finally have "prefix r (drop (i + length u) s)" by simp
    then show False using string_index_of_None [OF assms, of "i + length u"] by simp
  qed
qed

lemma es_split_step_inv:
  assumes "r \<noteq> []" and "es_split_inv s r (i, j, subs)" and "j \<noteq> None"
  shows "es_split_inv s r (es_split_step s r (i, j, subs)) \<and>
         length s + 1 - fst (es_split_step s r (i, j, subs)) < length s + 1 - i"
proof -
  from assms(2,3) obtain p where j: "j = Some p" and idx: "string_index_of s r i = Some p"
    and inv: "subs @ js_split_ne r (drop i s) = js_split_ne r s" and il: "i \<le> length s"
    by (auto simp: es_split_inv_def)
  from string_index_of_Some [OF idx] have ip: "i \<le> p" and pre: "prefix r (drop p s)" by auto
  have "length r \<le> length s - p" using prefix_length_le [OF pre] by simp
  moreover have "0 < length r" using assms(1) by simp
  ultimately have bound: "p + length r \<le> length s" and pos: "0 < length r" by arith+
  have split: "js_split_ne r (drop i s) = take (p - i) (drop i s) # js_split_ne r (drop (p + length r) s)"
    by (rule js_split_ne_at_index [OF assms(1) idx])
  have dec: "length s + 1 - (p + length r) < length s + 1 - i" using bound ip pos by arith
  show ?thesis
    using inv split bound j dec by (simp add: es_split_step_def es_split_inv_def Let_def)
qed


lemma es_split_loop_Some:
  assumes "r \<noteq> []"
  obtains i subs where
    "while_option (\<lambda>(i, j, substrings). j \<noteq> None) (es_split_step s r) (0, string_index_of s r 0, []) =
       Some (i, None, subs)"
    and "subs @ js_split_ne r (drop i s) = js_split_ne r s" and "string_index_of s r i = None"
proof -
  let ?b = "\<lambda>(i, j, substrings). j \<noteq> (None :: nat option)"
  let ?c = "es_split_step s r"
  let ?s0 = "(0, string_index_of s r 0, []) :: nat \<times> nat option \<times> string list"
  have step: "es_split_inv s r (?c st) \<and> (\<lambda>(i, j, substrings). length s + 1 - i) (?c st) <
                (\<lambda>(i, j, substrings). length s + 1 - i) st"
    if "es_split_inv s r st" and "?b st" for st
  proof -
    obtain i j subs where st: "st = (i, j, subs)" by (cases st) auto
    show ?thesis using es_split_step_inv [OF assms, of s i j subs] that st by (simp add: case_prod_beta)
  qed
  have init: "es_split_inv s r ?s0" by (simp add: es_split_inv_def)
  obtain t where t: "while_option ?b ?c ?s0 = Some t"
    using measure_while_option_Some [of "es_split_inv s r" ?b ?c "\<lambda>(i, j, substrings). length s + 1 - i", OF step init]
    by blast
  have inv: "es_split_inv s r t" by (rule while_option_rule [OF _ t]) (use step init in auto)
  have "\<not> ?b t" by (rule while_option_stop [OF t])
  then obtain i subs where "t = (i, None, subs)" by (cases t) auto
  then show ?thesis using that t inv by (simp add: es_split_inv_def)
qed

text \<open>The loop of the specification computes the same pieces as \<open>js_split\<close>, and it
  always stops.\<close>

lemma es_split_js_split: "es_split r s = Some (js_split r s)"
proof (cases "r = []")
  case True
  then show ?thesis by (simp add: es_split_def js_split_def)
next
  case False
  show ?thesis
  proof (cases "s = []")
    case True
    with False show ?thesis by (simp add: es_split_def js_split_def)
  next
    case s: False
    obtain i subs where loop:
      "while_option (\<lambda>(i, j, substrings). j \<noteq> None) (es_split_step s r) (0, string_index_of s r 0, []) =
         Some (i, None, subs)"
      and inv: "subs @ js_split_ne r (drop i s) = js_split_ne r s"
      and none: "string_index_of s r i = None"
      using es_split_loop_Some [OF False] by blast
    from none have "js_split_ne r (drop i s) = [drop i s]" by (rule js_split_ne_after_last [OF False])
    with inv loop False s show ?thesis by (simp add: es_split_def js_split_def)
  qed
qed


end
