(* ===== verification/Spec2Isabelle.thy ===== *)
theory Spec2Isabelle
  imports Pipeline_Steps Merger_Refinement ES_Split
begin

text \<open>
  \<^bold>\<open>A verification development of the core-image builder of docker-wale-peng.\<close>

  \<^bold>\<open>The program.\<close> \<open>src/main.js\<close> is one Node script. It lists the project
  directories under a root, reads each project's \<open>Dockerfile\<close> and \<open>package.json\<close>,
  merges the OS packages (the lines after \<open>## os package\<close>) and the npm dependency
  sections of all projects, writes a shared core descriptor and manifest, and can write one
  overlay descriptor per project (\<open>FROM\<close> the core) and run \<open>docker build\<close> on them.
  The stages are chained by rxjs \<open>switchMap\<close> in \<open>PENG\<close> (lines 214--228).

  \<^bold>\<open>The theories.\<close>
  \<^item> \<open>Prelude\<close>: the error type \<open>js_error\<close> (a \<open>TypeError\<close> with the engine's message, a
    failed read, write or parse, a non-directory, a failed command); sequencing of
    computations that may throw (\<open>ebind\<close>, \<open>traverse\<close>: the first error in list order
    wins, as in \<open>map\<close>/\<open>flatMap\<close> with a throwing callback); \<open>join_with\<close>; shared lemmas
    on substrings, duplicates and association lists.
  \<^item> \<open>JS_Builtins\<close>: the ECMAScript built-ins the script calls, as the language defines
    them: \<open>String.prototype.split\<close> (\<open>js_split\<close>), indexing with \<open>undefined\<close> out of range
    (\<open>js_nth\<close>), the text \<open>undefined\<close> in a template (\<open>js_str\<close>), the insertion-ordered
    \<open>Set\<close> (\<open>js_set_values\<close>, proved equal to keeping first occurrences), JSON values,
    \<open>Object.keys\<close>, property assignment (with the \<open>__proto__\<close> setter), object spread and
    \<open>JSON.stringify\<close> with indentation 4. Lemmas: split and join are inverse, pieces
    contain no separator, splitting at a leading occurrence.
  \<^item> \<open>World\<close>: the interface to the environment. A \<open>world\<close> record holds the file
    contents, directory listings, which writes fail, which commands succeed, and the
    commands started. A step is \<open>world \<Rightarrow> (js_error + 'a) \<times> world\<close> chained by
    \<open>io_bind\<close>. \<open>read_all\<close>, \<open>write_all\<close> and \<open>run_cmds\<close> model \<open>Promise.all\<close> over
    \<open>readFile\<close>, \<open>writeFile\<close> and \<open>exec\<close>: results in input order, every operation issued,
    accepted writes kept when another fails.
  \<^item> \<open>Tag_Extractor\<close>: \<open>getContentByTag\<close> (\<open>get_content_by_tag\<close>), with its result for an
    absent marker, one marker and two markers.
  \<^item> \<open>Descriptor_Reader\<close>: \<open>getAllDockerFilePath\<close>, \<open>getAllDockerFileInfo\<close>,
    \<open>getAllPackageJson\<close>, the records \<open>docker_info\<close> and \<open>pkg_info\<close>, and Node's
    \<open>path.join\<close> for a \<open>platform\<close> (POSIX or Windows). \<open>JSON.parse\<close> is a parameter.
    Lemmas: a missing root yields \<open>undefined\<close>; results are aligned with their inputs by
    index; the folder of a record is the path before the first \<open>Dockerfile\<close>, so a
    project directory whose name contains \<open>Dockerfile\<close> is cut short.
  \<^item> \<open>Dependency_Merger\<close>: \<open>getOsPackageList\<close>, \<open>generateCoreJson\<close>,
    \<open>getNodeCoreDependenciesJson\<close>. Lemmas: first-occurrence order of OS packages,
    first-seen-wins values and distinct keys of the merged sections, and the exact
    failure condition of the dependency merge: for object manifests it throws exactly
    when some manifest lacks a section, always with the \<open>TypeError\<close> of
    \<open>Object.keys(undefined)\<close>.
  \<^item> \<open>ES_Split\<close>: \<open>String.prototype.split\<close> as ECMA-262 writes it, a \<open>while_option\<close>
    loop over \<open>StringIndexOf\<close>; the loop always returns (a measure that every round
    decreases) and computes \<open>js_split\<close>: a check that the recursive scan the other
    theories use is the language's split.
  \<^item> \<open>Merger_Refinement\<close>: the specifications of the merger and the lemmas that
    relate the code to them: \<open>generateCoreJson\<close> equals the reference \<open>dedup_keys\<close>
    (first pair of every key) and refines \<open>merge_maps\<close>, the first-wins union of the
    sections read as maps through \<open>map_of\<close>; \<open>getOsPackageList\<close> refines the union of
    the package sets and yields single non-empty lines.
  \<^item> \<open>Synthesizers\<close>: \<open>getBaseImage\<close>, \<open>generatePengCoreImage\<close>,
    \<open>generatePengCorePackageJson\<close>, \<open>generateWaleAppImage\<close> (the overlay text, the
    record extension \<open>wale_ext\<close>, the image name read from the backslash-split path).
    Lemmas: every overlay starts \<open>FROM\<close> the core and is written at its path, the core
    descriptor's first lines, the error on an empty record list, the overlay repeating
    the working section of a descriptor (a section runs to the end of the text), the
    image names on Windows and POSIX paths, the overlay writes kept when another one
    fails, the core descriptor read back line by line.
  \<^item> \<open>Build_Driver\<close>: \<open>runCmd\<close> (\<open>run_cmds\<close> in \<open>World\<close>), \<open>buildWaleCoreImage\<close>,
    \<open>buildWaleAppImage\<close>; the commands as the code spells them, the started commands
    recorded in the world; \<open>buildWaleCoreImage\<close> succeeds exactly when both of its
    commands do. When several commands fail, \<open>run_cmds\<close> reports the first in array
    order where \<open>Promise.all\<close> reports the first in time; the lemmas only use that the
    reported error is that of some failing command.
  \<^item> \<open>Pipeline\<close>: \<open>PENG\<close> (\<open>peng_pipeline\<close> with the configuration as parameters,
    \<open>peng\<close> with the constants of the code), its runs and its properties: a missing root
    ends \<open>PENG\<close> with an error and no effect; \<open>PENG\<close> never writes outside the core
    directory nor starts a command (proved with \<open>frame\<close> of \<open>World\<close>, composed over
    \<open>io_bind\<close>); the records the pipeline hands on satisfy the invariant that ties them
    to the files they were read from; \<open>PENG\<close> makes progress (does not throw) on every
    well-formed set of projects (\<open>project_ok\<close>); the base image comes from the directory
    listed first; a failed run that changed the core descriptor left the core manifest
    as it was, the failure being that of the manifest stage.
  \<^item> \<open>Pipeline_Steps\<close>: the same chain as a machine of stages (\<open>peng_step\<close>, an
    \<open>inductive\<close> relation with one rule per operator), proved deterministic, whose run
    to its end is the composed pipeline; every reachable state keeps the world unchanged
    before the core write and confined to the core files after it (rule induction over
    the runs).
  \<^item> This theory: the properties that span the synthesizers, the build driver and
    \<open>path.join\<close>: all overlay builds on POSIX share the tag \<open>wale/undefined\<close>, and on
    Windows distinct project directories get distinct overlay tags.

  \<^bold>\<open>Correspondence.\<close> Each JavaScript function is one definition of the same name in
  snake case; an object literal built by spreading is a record or its extension; a value
  \<open>undefined\<close> is \<open>None\<close>; a thrown error or rejected promise is \<open>Inl\<close>; an rxjs stage
  or a \<open>Promise.all\<close> batch is an \<open>io\<close> step. Every loop of the program is a \<open>map\<close>,
  \<open>forEach\<close> or \<open>reduce\<close> over a finite list and is modelled by structural recursion
  (\<open>map\<close>, \<open>foldl\<close>, \<open>traverse\<close>), the scan of \<open>split\<close> by a \<open>function\<close> with a length
  measure, and the loop of the ECMA-262 \<open>split\<close> by \<open>while_option\<close>, proved to return
  \<open>Some\<close> on every input; so no fuel is needed and every definition is total. The only
  index arithmetic of the program, \<open>pathLevel[pathLevel.length - 2]\<close>, reads
  \<open>undefined\<close> out of range through \<open>js_nth\<close>, as JavaScript does.

  \<^bold>\<open>Not modelled.\<close> Console output and the \<open>moment\<close> time stamps (logging only); the
  output text of \<open>docker\<close> commands; \<open>JSON.parse\<close> itself (a parameter returning
  \<open>None\<close> where it throws); the resolution of \<open>.\<close> and \<open>..\<close> segments by \<open>path.join\<close>;
  strings beyond ASCII (a \<open>char\<close> is one UTF-16 code unit of ASCII text); the ordering
  JavaScript gives to array-index-like property keys (an object is the list of its
  properties in enumeration order); the timing of the operations a \<open>Promise.all\<close> runs
  at once (their effects are applied in array order, which matters only for two writes
  to one path, and the writes of the program go to distinct paths), the \<open>delay()\<close> of
  \<open>buildWaleAppImage\<close> and the empty subscriber of \<open>PENG\<close>, which change no state.
\<close>



section \<open>Properties across components\<close>

subsection \<open>Overlay builds on POSIX systems\<close>

text \<open>C10. On a system whose paths contain no backslash (POSIX), the overlay records that
  \<open>generateWaleAppImage\<close> returns all carry the image name \<open>wale/undefined\<close>, so the
  builds \<open>buildWaleAppImage\<close> starts for them all tag the same image, each from its own
  project folder.\<close>

theorem posix_app_builds_share_tag:
  assumes "\<forall>info \<in> set infos. CHR 0x5C \<notin> set (file_path info)"
    and "generate_wale_app_image core infos w = (Inr ies, w')"
  shows "started (snd (build_wale_app_image ies w')) =
           started w' @ map (\<lambda>info. ''cd '' @ folder_path info @
             '' & docker build --no-cache -t wale/undefined -f WaleDockerfile .'') infos"
proof -
  have ies: "ies = map (\<lambda>info. (info, wale_ext_of core info)) infos"
    using assms(2) by (auto simp: generate_wale_app_image_eq split: prod.splits sum.splits)
  have "wale_image_name (wale_ext_of core info) = ''wale/undefined''" if "info \<in> set infos" for info
    using assms(1) that by (simp add: wale_ext_of_def wale_image_name_posix_undefined)
  then show ?thesis
    using build_wale_app_image_ignores_failures [of ies w'] by (simp add: ies wale_ext_of_def)
qed

theorem posix_app_builds_share_tag_witness:
  "started (snd (build_wale_app_image
       (map (\<lambda>info. (info, wale_ext_of ''peng/core'' info)) [scenario_a, scenario_b])
       (snd (generate_wale_app_image ''peng/core'' [scenario_a, scenario_b] empty_world)))) =
   [''cd /p/a/ & docker build --no-cache -t wale/undefined -f WaleDockerfile .'',
    ''cd /p/b/ & docker build --no-cache -t wale/undefined -f WaleDockerfile .'']"
proof -
  have h1: "\<forall>info \<in> set [scenario_a, scenario_b]. CHR 0x5C \<notin> set (file_path info)"
    by (simp add: scenario_a_def scenario_b_def)
  have h2: "generate_wale_app_image ''peng/core'' [scenario_a, scenario_b] empty_world =
      (Inr (map (\<lambda>info. (info, wale_ext_of ''peng/core'' info)) [scenario_a, scenario_b]),
       snd (generate_wale_app_image ''peng/core'' [scenario_a, scenario_b] empty_world))"
    by (simp add: prod_eq_iff) code_simp
  have h3: "started (snd (generate_wale_app_image ''peng/core'' [scenario_a, scenario_b] empty_world)) = []"
    by code_simp
  show ?thesis
    using posix_app_builds_share_tag [OF h1 h2] h3 by (simp add: scenario_a_def scenario_b_def)
qed

subsection \<open>Overlay image names on Windows\<close>

text \<open>C25. On Windows, the descriptor paths \<open>PENG\<close> builds under its root give every project
  directory \<open>n\<close> (a name without separators) the overlay image name \<open>wale/n\<close>, so distinct
  project directories get distinct image tags (compare C10 for POSIX).\<close>

theorem win32_app_tags:
  assumes "\<forall>n \<in> set names. n \<noteq> [] \<and> CHR ''/'' \<notin> set n \<and> CHR 0x5C \<notin> set n"
  shows "map (\<lambda>n. wale_image_name_of (path_join Win32 [''E:/nutc-project/angular'', n, ''Dockerfile''])) names =
           map (\<lambda>n. ''wale/'' @ n) names \<and>
         (distinct (map (\<lambda>n. wale_image_name_of (path_join Win32 [''E:/nutc-project/angular'', n, ''Dockerfile''])) names)
            \<longleftrightarrow> distinct names)"
proof -
  have one: "wale_image_name_of (path_join Win32 [''E:/nutc-project/angular'', n, ''Dockerfile'']) = ''wale/'' @ n"
    if "n \<in> set names" for n
  proof -
    have n: "n \<noteq> []" "CHR ''/'' \<notin> set n" "CHR 0x5C \<notin> set n" using assms that by auto
    let ?ps = "[''E:'', ''nutc-project'', ''angular'', n, ''Dockerfile'']"
    have "js_split [CHR 0x5C] (join_with [CHR 0x5C] ?ps) = ?ps"
      by (rule js_split_join_with) (use n in \<open>simp_all add: sublist_singleton\<close>)
    then show ?thesis
      by (simp add: path_join_win32_project [OF n] wale_image_name_of_def js_nth_def js_str_def)
  qed
  then have eq: "map (\<lambda>n. wale_image_name_of (path_join Win32 [''E:/nutc-project/angular'', n, ''Dockerfile''])) names =
               map (\<lambda>n. ''wale/'' @ n) names" by (rule map_cong [OF refl])
  show ?thesis unfolding eq by (simp add: distinct_map inj_on_def)
qed

theorem win32_app_tags_witness:
  "map (\<lambda>n. wale_image_name_of (path_join Win32 [''E:/nutc-project/angular'', n, ''Dockerfile''])) [''a'', ''b''] =
     [''wale/a'', ''wale/b''] \<and>
   distinct (map (\<lambda>n. wale_image_name_of (path_join Win32 [''E:/nutc-project/angular'', n, ''Dockerfile''])) [''a'', ''b''])"
proof -
  have "\<forall>n \<in> set [''a'', ''b'']. n \<noteq> [] \<and> CHR ''/'' \<notin> set n \<and> CHR 0x5C \<notin> set n" by simp
  from win32_app_tags [OF this] show ?thesis by simp
qed

end
